(* ===== verification/Prelude.thy ===== *)
theory Prelude
  imports Complex_Main "HOL-Library.Word" "HOL-Library.Finite_Map" "HOL-Library.Multiset"
begin

text \<open>
  The vocabulary shared by every component: the machine types of the Rust code
  (\<open>u8\<close> to \<open>u64\<close> as words, \<open>Bytes\<close> as a list of \<open>u8\<close>, \<open>String\<close> as a list of
  \<open>char\<close>, one \<open>char\<close> per UTF-8 code unit), the arithmetic the code uses on them
  (saturating addition and subtraction, fallible narrowing, big-endian reads and writes
  of the \<open>bytes\<close> crate), key enumeration of hash maps, and the generic lemmas the
  component proofs rest on.  Timestamps (\<open>f64\<close>) are only stored and compared; they
  are real numbers here.  \<open>usize\<close> is 64 bits wide: lengths are \<open>nat\<close> and their
  conversion to \<open>u64\<close> is \<open>len64\<close>.
\<close>

unbundle bit_operations_syntax

type_synonym u8 = "8 word"
type_synonym u16 = "16 word"
type_synonym u32 = "32 word"
type_synonym u64 = "64 word"
type_synonym f64 = real
type_synonym bytes = "u8 list"
type_synonym Headers = "(bytes \<times> bytes) list"

text \<open>Collections that carry the component proofs.\<close>

named_theorems stream_defs \<open>the operations of stream.rs, unfolded\<close>
named_theorems session_defs \<open>the operations of session.rs, unfolded\<close>
named_theorems connection_defs \<open>the operations of connection.rs, unfolded\<close>
named_theorems const_defs \<open>the constants of common/constants.rs, unfolded\<close>

subsection \<open>Machine arithmetic\<close>

definition u64_MAX :: u64 where
  "u64_MAX = 0xFFFFFFFFFFFFFFFF"

definition u32_MAX :: u32 where
  "u32_MAX = 0xFFFFFFFF"

definition saturating_sub :: "u64 \<Rightarrow> u64 \<Rightarrow> u64" where
  "saturating_sub a b = (if a < b then 0 else a - b)"

definition saturating_add :: "u64 \<Rightarrow> u64 \<Rightarrow> u64" where
  "saturating_add a b = (if unat a + unat b < 2 ^ 64 then a + b else u64_MAX)"

text \<open>\<open>xs.len() as u64\<close> and the fallible conversions \<open>u8::try_from\<close> and so on.\<close>

definition len64 :: "'a list \<Rightarrow> u64" where
  "len64 xs = of_nat (length xs)"

definition u8_try_from :: "u64 \<Rightarrow> u8 option" where
  "u8_try_from v = (if v \<le> 0xFF then Some (ucast v) else None)"

definition u16_try_from :: "u64 \<Rightarrow> u16 option" where
  "u16_try_from v = (if v \<le> 0xFFFF then Some (ucast v) else None)"

definition u32_try_from :: "u64 \<Rightarrow> u32 option" where
  "u32_try_from v = (if v \<le> 0xFFFFFFFF then Some (ucast v) else None)"

lemma unat_saturating_sub [simp]: "unat (saturating_sub a b) = unat a - unat b"
  by (simp add: saturating_sub_def word_less_nat_alt unat_sub word_le_nat_alt)

lemma unat_saturating_add: "unat (saturating_add a b) = min (unat a + unat b) (2 ^ 64 - 1)"
  by (auto simp: saturating_add_def u64_MAX_def unat_word_ariths)

text \<open>How bounds and saturation are evaluated.\<close>

lemma saturating_add_code [code]: "saturating_add a b = (if a + b < a then u64_MAX else a + b)"
proof -
  have "a + b < a \<longleftrightarrow> \<not> unat a + unat b < 2 ^ 64"
    using unsigned_less [of a, where ?'a = nat] unsigned_less [of b, where ?'a = nat]
    by (auto simp: word_less_nat_alt unat_word_ariths mod_if)
  then show ?thesis by (auto simp: saturating_add_def)
qed

lemma power_literals [code_unfold]:
  "(2::nat) ^ 62 = 4611686018427387904" "(2::nat) ^ 63 = 9223372036854775808" "(2::nat) ^ 64 = 18446744073709551616"
  by simp_all

lemma unat_len64: "length xs < 2 ^ 64 \<Longrightarrow> unat (len64 xs) = length xs"
  by (simp add: len64_def unat_of_nat)

lemma len64_Nil [simp]: "len64 [] = 0"
  by (simp add: len64_def)

lemma len64_append: "len64 (xs @ ys) = len64 xs + len64 ys"
  by (simp add: len64_def)

lemma unat_u64_bound [simp]: "unat (w :: u64) < 18446744073709551616"
  using unsigned_less [of w] by simp

lemma unat_add_small:
  fixes a b :: u64
  assumes "unat a + unat b < 2 ^ 64"
  shows "unat (a + b) = unat a + unat b"
  using assms by (simp add: unat_word_ariths)

lemma unat_sub_small:
  fixes a b :: u64
  assumes "unat b \<le> unat a"
  shows "unat (a - b) = unat a - unat b"
  using assms by (simp add: unat_sub word_le_nat_alt)

subsection \<open>Byte strings and big-endian integers\<close>

text \<open>\<open>s.as_bytes()\<close> of a \<open>str\<close>, and the byte-string literals of the source.\<close>

definition as_bytes :: "string \<Rightarrow> bytes" where
  "as_bytes s = map (\<lambda>c. of_nat (of_char c)) s"

definition from_bytes :: "bytes \<Rightarrow> string" where
  "from_bytes bs = map (\<lambda>b. char_of (unat b)) bs"

abbreviation bstr :: "string \<Rightarrow> bytes" where
  "bstr \<equiv> as_bytes"

text \<open>\<open>put_u8\<close> to \<open>put_u64\<close> write the \<open>n\<close> low bytes of a word, most significant first;
  \<open>get_u8\<close> to \<open>get_u64\<close> read them back.\<close>

fun put_be :: "nat \<Rightarrow> 'a::len word \<Rightarrow> bytes" where
  "put_be 0 w = []"
| "put_be (Suc n) w = ucast (drop_bit (8 * n) w) # put_be n w"

definition get_be :: "bytes \<Rightarrow> 'a::len word" where
  "get_be bs = foldl (\<lambda>a b. a * 256 + ucast b) 0 bs"

lemma length_put_be [simp]: "length (put_be n w) = n"
  by (induction n) auto

lemma as_bytes_from_bytes [simp]: "as_bytes (from_bytes bs) = bs"
proof -
  have "of_nat (of_char (char_of (unat b) :: char)) = b" for b :: u8
    using unsigned_less [of b, where ?'a = nat] by simp
  then show ?thesis by (simp add: as_bytes_def from_bytes_def comp_def)
qed

lemma from_bytes_as_bytes [simp]: "from_bytes (as_bytes s) = s"
proof -
  have "unat (of_nat (of_char c) :: u8) = of_char c" for c :: char
    by (simp add: unat_of_nat)
  then show ?thesis by (simp add: as_bytes_def from_bytes_def comp_def)
qed

lemma length_as_bytes [simp]: "length (as_bytes s) = length s"
  by (simp add: as_bytes_def)

lemma as_bytes_eq_iff [simp]: "as_bytes s = as_bytes t \<longleftrightarrow> s = t"
  by (metis from_bytes_as_bytes)

text \<open>Reading back the \<open>n\<close> bytes written keeps the \<open>8 n\<close> low bits.\<close>

lemma ucast_u8_ucast: "ucast (ucast w :: u8) = take_bit 8 (w :: 'a::len word)"
  by (rule bit_word_eqI) (auto simp: bit_ucast_iff bit_take_bit_iff)

lemma foldl_put_be:
  fixes w :: "'a::len word"
  shows "foldl (\<lambda>a b. a * 256 + ucast b) acc (put_be n w) = acc * 2 ^ (8 * n) + take_bit (8 * n) w"
proof (induction n arbitrary: acc)
  case 0
  then show ?case by simp
next
  case (Suc n)
  have split: "take_bit (8 + 8 * n) w = take_bit 8 (drop_bit (8 * n) w) * 2 ^ (8 * n) + take_bit (8 * n) w"
    using bits_ident [of "8 * n" "take_bit (8 + 8 * n) w"]
    by (simp add: push_bit_eq_mult drop_bit_take_bit)
  have "foldl (\<lambda>a b. a * 256 + ucast b) acc (put_be (Suc n) w) =
      (acc * 256 + take_bit 8 (drop_bit (8 * n) w)) * 2 ^ (8 * n) + take_bit (8 * n) w"
    by (simp only: put_be.simps foldl.simps Suc.IH ucast_u8_ucast)
  also have "\<dots> = acc * 2 ^ (8 * Suc n) + take_bit (8 * Suc n) w"
    by (simp add: split power_add distrib_right)
  finally show ?case .
qed

lemma get_be_put_be: "get_be (put_be n w) = take_bit (8 * n) w"
  unfolding get_be_def by (simp add: foldl_put_be)

lemma get_be_put_be_full:
  "8 * n \<ge> LENGTH('a) \<Longrightarrow> get_be (put_be n w) = (w :: 'a::len word)"
  by (simp add: get_be_put_be take_bit_word_eq_self)

end
