(* ===== verification/Constants.thy ===== *)
theory Constants
  imports Prelude
begin

text \<open>
  The numeric and string constants of \<open>common/constants.rs\<close> that the protocol core uses:
  error codes (application, HTTP/3, library, QPACK and WebTransport spaces), HTTP/3 frame,
  stream and settings identifiers, QUIC stream-id masks, WebTransport capsule types and
  limits.  The values are unfolded through the collection \<open>const_defs\<close>.
\<close>

definition ERR_APP_NO_ERROR :: u64 where [const_defs]: "ERR_APP_NO_ERROR = 0x0000"
definition ERR_H3_CLOSED_CRITICAL_STREAM :: u64 where [const_defs]: "ERR_H3_CLOSED_CRITICAL_STREAM = 0x0104"
definition ERR_H3_DATAGRAM_ERROR :: u64 where [const_defs]: "ERR_H3_DATAGRAM_ERROR = 0x0033"
definition ERR_H3_EXCESSIVE_LOAD :: u64 where [const_defs]: "ERR_H3_EXCESSIVE_LOAD = 0x0107"
definition ERR_H3_FRAME_ERROR :: u64 where [const_defs]: "ERR_H3_FRAME_ERROR = 0x0106"
definition ERR_H3_FRAME_UNEXPECTED :: u64 where [const_defs]: "ERR_H3_FRAME_UNEXPECTED = 0x0105"
definition ERR_H3_GENERAL_PROTOCOL_ERROR :: u64 where [const_defs]: "ERR_H3_GENERAL_PROTOCOL_ERROR = 0x0101"
definition ERR_H3_ID_ERROR :: u64 where [const_defs]: "ERR_H3_ID_ERROR = 0x0108"
definition ERR_H3_INTERNAL_ERROR :: u64 where [const_defs]: "ERR_H3_INTERNAL_ERROR = 0x0102"
definition ERR_H3_MESSAGE_ERROR :: u64 where [const_defs]: "ERR_H3_MESSAGE_ERROR = 0x010E"
definition ERR_H3_MISSING_SETTINGS :: u64 where [const_defs]: "ERR_H3_MISSING_SETTINGS = 0x010A"
definition ERR_H3_NO_ERROR :: u64 where [const_defs]: "ERR_H3_NO_ERROR = 0x0100"
definition ERR_H3_REQUEST_REJECTED :: u64 where [const_defs]: "ERR_H3_REQUEST_REJECTED = 0x010B"
definition ERR_H3_SETTINGS_ERROR :: u64 where [const_defs]: "ERR_H3_SETTINGS_ERROR = 0x0109"
definition ERR_H3_STREAM_CREATION_ERROR :: u64 where [const_defs]: "ERR_H3_STREAM_CREATION_ERROR = 0x0103"
definition ERR_LIB_CONNECTION_STATE_ERROR :: u64 where [const_defs]: "ERR_LIB_CONNECTION_STATE_ERROR = 0x11000001"
definition ERR_LIB_INTERNAL_ERROR :: u64 where [const_defs]: "ERR_LIB_INTERNAL_ERROR = 0x10000001"
definition ERR_LIB_SESSION_STATE_ERROR :: u64 where [const_defs]: "ERR_LIB_SESSION_STATE_ERROR = 0x12000001"
definition ERR_LIB_STREAM_STATE_ERROR :: u64 where [const_defs]: "ERR_LIB_STREAM_STATE_ERROR = 0x13000001"
definition ERR_QPACK_DECODER_STREAM_ERROR :: u64 where [const_defs]: "ERR_QPACK_DECODER_STREAM_ERROR = 0x0202"
definition ERR_QPACK_DECOMPRESSION_FAILED :: u64 where [const_defs]: "ERR_QPACK_DECOMPRESSION_FAILED = 0x0200"
definition ERR_QPACK_ENCODER_STREAM_ERROR :: u64 where [const_defs]: "ERR_QPACK_ENCODER_STREAM_ERROR = 0x0201"
definition ERR_WT_ALPN_ERROR :: u64 where [const_defs]: "ERR_WT_ALPN_ERROR = 0x0817B3DD"
definition ERR_WT_APPLICATION_ERROR_FIRST :: u64 where [const_defs]: "ERR_WT_APPLICATION_ERROR_FIRST = 0x52E4A40FA8DB"
definition ERR_WT_APPLICATION_ERROR_LAST :: u64 where [const_defs]: "ERR_WT_APPLICATION_ERROR_LAST = 0x52E5AC983162"
definition ERR_WT_BUFFERED_STREAM_REJECTED :: u64 where [const_defs]: "ERR_WT_BUFFERED_STREAM_REJECTED = 0x3994BD84"
definition ERR_WT_FLOW_CONTROL_ERROR :: u64 where [const_defs]: "ERR_WT_FLOW_CONTROL_ERROR = 0x045D4487"
definition ERR_WT_REQUIREMENTS_NOT_MET :: u64 where [const_defs]: "ERR_WT_REQUIREMENTS_NOT_MET = 0x212C0D48"
definition ERR_WT_SESSION_GONE :: u64 where [const_defs]: "ERR_WT_SESSION_GONE = 0x170D7B68"
definition H3_FRAME_TYPE_CANCEL_PUSH :: u64 where [const_defs]: "H3_FRAME_TYPE_CANCEL_PUSH = 0x03"
definition H3_FRAME_TYPE_DATA :: u64 where [const_defs]: "H3_FRAME_TYPE_DATA = 0x00"
definition H3_FRAME_TYPE_GOAWAY :: u64 where [const_defs]: "H3_FRAME_TYPE_GOAWAY = 0x07"
definition H3_FRAME_TYPE_HEADERS :: u64 where [const_defs]: "H3_FRAME_TYPE_HEADERS = 0x01"
definition H3_FRAME_TYPE_MAX_PUSH_ID :: u64 where [const_defs]: "H3_FRAME_TYPE_MAX_PUSH_ID = 0x0D"
definition H3_FRAME_TYPE_PUSH_PROMISE :: u64 where [const_defs]: "H3_FRAME_TYPE_PUSH_PROMISE = 0x05"
definition H3_FRAME_TYPE_RESERVED_CONTINUATION :: u64 where [const_defs]: "H3_FRAME_TYPE_RESERVED_CONTINUATION = 0x09"
definition H3_FRAME_TYPE_RESERVED_PING :: u64 where [const_defs]: "H3_FRAME_TYPE_RESERVED_PING = 0x06"
definition H3_FRAME_TYPE_RESERVED_PRIORITY :: u64 where [const_defs]: "H3_FRAME_TYPE_RESERVED_PRIORITY = 0x02"
definition H3_FRAME_TYPE_RESERVED_WINDOW_UPDATE :: u64 where [const_defs]: "H3_FRAME_TYPE_RESERVED_WINDOW_UPDATE = 0x08"
definition H3_FRAME_TYPE_SETTINGS :: u64 where [const_defs]: "H3_FRAME_TYPE_SETTINGS = 0x04"
definition H3_FRAME_TYPE_WT_STREAM :: u64 where [const_defs]: "H3_FRAME_TYPE_WT_STREAM = 0x41"
definition H3_STREAM_TYPE_CONTROL :: u64 where [const_defs]: "H3_STREAM_TYPE_CONTROL = 0x00"
definition H3_STREAM_TYPE_PUSH :: u64 where [const_defs]: "H3_STREAM_TYPE_PUSH = 0x01"
definition H3_STREAM_TYPE_QPACK_DECODER :: u64 where [const_defs]: "H3_STREAM_TYPE_QPACK_DECODER = 0x03"
definition H3_STREAM_TYPE_QPACK_ENCODER :: u64 where [const_defs]: "H3_STREAM_TYPE_QPACK_ENCODER = 0x02"
definition H3_STREAM_TYPE_WEBTRANSPORT :: u64 where [const_defs]: "H3_STREAM_TYPE_WEBTRANSPORT = 0x54"
definition QUIC_STREAM_DIRECTION_MASK :: u64 where [const_defs]: "QUIC_STREAM_DIRECTION_MASK = 0x02"
definition QUIC_STREAM_INITIATOR_MASK :: u64 where [const_defs]: "QUIC_STREAM_INITIATOR_MASK = 0x01"
definition QUIC_STREAM_TYPE_COUNT :: u64 where [const_defs]: "QUIC_STREAM_TYPE_COUNT = 4"
definition QUIC_VARINT_LIMIT :: u64 where [const_defs]: "QUIC_VARINT_LIMIT = (push_bit 62 1) - 1"
definition SETTINGS_ENABLE_CONNECT_PROTOCOL :: u64 where [const_defs]: "SETTINGS_ENABLE_CONNECT_PROTOCOL = 0x08"
definition SETTINGS_H3_DATAGRAM :: u64 where [const_defs]: "SETTINGS_H3_DATAGRAM = 0x33"
definition SETTINGS_MAX_FIELD_SECTION_SIZE :: u64 where [const_defs]: "SETTINGS_MAX_FIELD_SECTION_SIZE = 0x06"
definition SETTINGS_QPACK_BLOCKED_STREAMS :: u64 where [const_defs]: "SETTINGS_QPACK_BLOCKED_STREAMS = 0x07"
definition SETTINGS_QPACK_MAX_TABLE_CAPACITY :: u64 where [const_defs]: "SETTINGS_QPACK_MAX_TABLE_CAPACITY = 0x01"
definition SETTINGS_RESERVED_ENABLE_PUSH :: u64 where [const_defs]: "SETTINGS_RESERVED_ENABLE_PUSH = 0x02"
definition SETTINGS_RESERVED_INITIAL_WINDOW_SIZE :: u64 where [const_defs]: "SETTINGS_RESERVED_INITIAL_WINDOW_SIZE = 0x04"
definition SETTINGS_RESERVED_MAX_CONCURRENT_STREAMS :: u64 where [const_defs]: "SETTINGS_RESERVED_MAX_CONCURRENT_STREAMS = 0x03"
definition SETTINGS_RESERVED_MAX_FRAME_SIZE :: u64 where [const_defs]: "SETTINGS_RESERVED_MAX_FRAME_SIZE = 0x05"
definition SETTINGS_WT_ENABLED :: u64 where [const_defs]: "SETTINGS_WT_ENABLED = 0x2C7CF000"
definition SETTINGS_WT_INITIAL_MAX_DATA :: u64 where [const_defs]: "SETTINGS_WT_INITIAL_MAX_DATA = 0x2B61"
definition SETTINGS_WT_INITIAL_MAX_STREAMS_BIDI :: u64 where [const_defs]: "SETTINGS_WT_INITIAL_MAX_STREAMS_BIDI = 0x2B65"
definition SETTINGS_WT_INITIAL_MAX_STREAMS_UNI :: u64 where [const_defs]: "SETTINGS_WT_INITIAL_MAX_STREAMS_UNI = 0x2B64"
definition WT_AVAILABLE_PROTOCOLS :: bytes where [const_defs]: "WT_AVAILABLE_PROTOCOLS = bstr ''wt-available-protocols''"
definition WT_CAPSULE_TYPE_CLOSE_SESSION :: u64 where [const_defs]: "WT_CAPSULE_TYPE_CLOSE_SESSION = 0x2843"
definition WT_CAPSULE_TYPE_DATA_BLOCKED :: u64 where [const_defs]: "WT_CAPSULE_TYPE_DATA_BLOCKED = 0x190B4D41"
definition WT_CAPSULE_TYPE_DRAIN_SESSION :: u64 where [const_defs]: "WT_CAPSULE_TYPE_DRAIN_SESSION = 0x78AE"
definition WT_CAPSULE_TYPE_MAX_DATA :: u64 where [const_defs]: "WT_CAPSULE_TYPE_MAX_DATA = 0x190B4D3D"
definition WT_CAPSULE_TYPE_MAX_STREAMS_BIDI :: u64 where [const_defs]: "WT_CAPSULE_TYPE_MAX_STREAMS_BIDI = 0x190B4D3F"
definition WT_CAPSULE_TYPE_MAX_STREAMS_UNI :: u64 where [const_defs]: "WT_CAPSULE_TYPE_MAX_STREAMS_UNI = 0x190B4D40"
definition WT_CAPSULE_TYPE_MAX_STREAM_DATA :: u64 where [const_defs]: "WT_CAPSULE_TYPE_MAX_STREAM_DATA = 0x190B4D3E"
definition WT_CAPSULE_TYPE_STREAMS_BLOCKED_BIDI :: u64 where [const_defs]: "WT_CAPSULE_TYPE_STREAMS_BLOCKED_BIDI = 0x190B4D43"
definition WT_CAPSULE_TYPE_STREAMS_BLOCKED_UNI :: u64 where [const_defs]: "WT_CAPSULE_TYPE_STREAMS_BLOCKED_UNI = 0x190B4D44"
definition WT_CAPSULE_TYPE_STREAM_DATA_BLOCKED :: u64 where [const_defs]: "WT_CAPSULE_TYPE_STREAM_DATA_BLOCKED = 0x190B4D42"
definition WT_CLOSE_REASON_SIZE_LIMIT :: u64 where [const_defs]: "WT_CLOSE_REASON_SIZE_LIMIT = 1024"
definition WT_EXPORTER_LABEL :: string where [const_defs]: "WT_EXPORTER_LABEL = ''EXPORTER-WebTransport''"
definition WT_PROTOCOL :: bytes where [const_defs]: "WT_PROTOCOL = bstr ''wt-protocol''"
definition WT_STREAMS_LIMIT :: u64 where [const_defs]: "WT_STREAMS_LIMIT = push_bit 60 1"
definition WT_UPGRADE_TOKEN :: bytes where [const_defs]: "WT_UPGRADE_TOKEN = bstr ''webtransport-h3''"

lemma QUIC_VARINT_LIMIT_code [code]: "QUIC_VARINT_LIMIT = 4611686018427387903"
  by (simp add: QUIC_VARINT_LIMIT_def)

end
