(* ===== verification/Varint.thy ===== *)
theory Varint
  imports Constants
begin

text \<open>
  QUIC variable-length integers (\<open>read_varint\<close>, \<open>write_varint\<close> and \<open>varint_size\<close> of
  \<open>protocol/utils.rs\<close>).  A \<open>Cursor\<close> over a byte slice is the list of the bytes that remain;
  a read returns the value together with the remaining bytes, and leaves the cursor where
  it was when it fails.  The locale \<open>prefix_codec\<close> states what the framing code relies
  on: an encoding is read back from the front of a buffer, and a buffer that ends inside an
  encoding is refused.
\<close>

definition read_varint :: "bytes \<Rightarrow> u64 + u64 \<times> bytes" where
  "read_varint buffer =
    (case buffer of
       [] \<Rightarrow> Inl ERR_H3_FRAME_ERROR
     | first # _ \<Rightarrow>
         (let prefix = drop_bit 6 first;
              len = push_bit (unat prefix) (1 :: nat)
          in if length buffer < len then Inl ERR_H3_FRAME_ERROR
             else if len = 1 then
               Inr (ucast ((get_be (take 1 buffer) :: u8) AND 0x3F), drop 1 buffer)
             else if len = 2 then
               Inr (ucast ((get_be (take 2 buffer) :: u16) AND 0x3FFF), drop 2 buffer)
             else if len = 4 then
               Inr (ucast ((get_be (take 4 buffer) :: u32) AND 0x3FFFFFFF), drop 4 buffer)
             else if len = 8 then
               Inr ((get_be (take 8 buffer) :: u64) AND 0x3FFFFFFFFFFFFFFF, drop 8 buffer)
             else Inl ERR_H3_FRAME_ERROR))"

definition varint_size :: "u64 \<Rightarrow> nat" where
  "varint_size value =
    (if value \<le> 63 then 1
     else if value \<le> 16383 then 2
     else if value \<le> 1073741823 then 4
     else 8)"

definition write_varint :: "bytes \<Rightarrow> u64 \<Rightarrow> u64 + bytes" where
  "write_varint buffer value =
    (if value \<le> 63 then
       (case u8_try_from value of
          None \<Rightarrow> Inl ERR_LIB_INTERNAL_ERROR
        | Some v \<Rightarrow> Inr (buffer @ put_be 1 v))
     else if value \<le> 16383 then
       (case u16_try_from value of
          None \<Rightarrow> Inl ERR_LIB_INTERNAL_ERROR
        | Some v \<Rightarrow> Inr (buffer @ put_be 2 (v OR 0x4000)))
     else if value \<le> 1073741823 then
       (case u32_try_from value of
          None \<Rightarrow> Inl ERR_LIB_INTERNAL_ERROR
        | Some v \<Rightarrow> Inr (buffer @ put_be 4 (v OR 0x80000000)))
     else if value \<le> 4611686018427387903 then
       Inr (buffer @ put_be 8 (value OR 0xC000000000000000))
     else Inl ERR_LIB_INTERNAL_ERROR)"

subsection \<open>The contract of a self-delimiting integer code\<close>

locale prefix_codec =
  fixes enc :: "bytes \<Rightarrow> u64 \<Rightarrow> u64 + bytes"
    and dec :: "bytes \<Rightarrow> u64 + u64 \<times> bytes"
  assumes enc_append: "enc buf v = Inr out \<Longrightarrow> \<exists>code. out = buf @ code \<and> enc [] v = Inr code"
    and enc_prefix: "enc [] v = Inr code \<Longrightarrow> enc buf v = Inr (buf @ code)"
    and dec_enc: "enc [] v = Inr code \<Longrightarrow> dec (code @ rest) = Inr (v, rest)"
    and dec_consumes: "dec bs = Inr (v, rest) \<Longrightarrow> \<exists>used. used \<noteq> [] \<and> bs = used @ rest"
    and dec_extend: "dec bs = Inr (v, rest) \<Longrightarrow> dec (bs @ more) = Inr (v, rest @ more)"
begin

lemma dec_shrinks: "dec bs = Inr (v, rest) \<Longrightarrow> length rest < length bs"
  using dec_consumes by fastforce

lemma enc_nonempty: "enc [] v = Inr code \<Longrightarrow> code \<noteq> []"
  using dec_enc [of v code "[]"] dec_shrinks by fastforce

text \<open>Two consecutive integers (a frame or capsule header, a settings entry).\<close>

lemma dec_pair:
  assumes "enc [] a = Inr x" and "enc x b = Inr out"
  shows "\<exists>mid. dec (out @ rest) = Inr (a, mid @ rest) \<and> dec (mid @ rest) = Inr (b, rest)"
proof -
  obtain y where y: "out = x @ y" "enc [] b = Inr y"
    using enc_append [OF assms(2)] by blast
  have "dec (out @ rest) = Inr (a, y @ rest)"
    using dec_enc [OF assms(1), of "y @ rest"] y(1) by simp
  moreover have "dec (y @ rest) = Inr (b, rest)"
    by (rule dec_enc [OF y(2)])
  ultimately show ?thesis by blast
qed

text \<open>A buffer that ends inside an encoding is refused, so an incremental reader can wait.\<close>

lemma dec_truncated:
  assumes "enc [] v = Inr code" and "code = part @ tail" and "tail \<noteq> []"
  shows "\<exists>e. dec part = Inl e"
proof (cases "dec part")
  case (Inl e)
  then show ?thesis by blast
next
  case (Inr r)
  then obtain w rest where "dec part = Inr (w, rest)" by (cases r) simp
  then have "dec code = Inr (w, rest @ tail)"
    using dec_extend assms(2) by blast
  with dec_enc [OF assms(1), of "[]"] have "rest @ tail = []" by simp
  with assms(3) show ?thesis by simp
qed

lemma enc_inj: "enc [] v = Inr code \<Longrightarrow> enc [] w = Inr code \<Longrightarrow> v = w"
  using dec_enc [of v code "[]"] dec_enc [of w code "[]"] by simp

end

subsection \<open>Variable-length integers are such a code\<close>

lemma tag_or:
  fixes v :: "'a::len word"
  assumes "unat v < 2 ^ n" and "n < LENGTH('a)"
  shows "take_bit n (v OR push_bit n t) = v" and "drop_bit n (v OR push_bit n t) = take_bit (LENGTH('a) - n) t"
proof -
  have v: "take_bit n v = v"
    using assms(1) by (simp add: word_unat_eq_iff unsigned_take_bit_eq take_bit_nat_eq_self)
  then have hi: "\<not> bit v (n + i)" for i
    by (metis bit_take_bit_iff less_add_same_cancel1 not_add_less1)
  show "take_bit n (v OR push_bit n t) = v"
    by (simp add: take_bit_or take_bit_push_bit v)
  show "drop_bit n (v OR push_bit n t) = take_bit (LENGTH('a) - n) t"
    using assms(2) by (intro bit_word_eqI) (auto simp: bit_simps hi)
qed

lemma drop_bit_first_byte:
  fixes w :: "'a::len word"
  assumes "LENGTH('a) = 8 * n + 8"
  shows "drop_bit 6 (ucast (drop_bit (8 * n) w) :: u8) = ucast (drop_bit (8 * n + 6) w)"
  using assms by (intro bit_word_eqI) (auto simp: bit_simps algebra_simps dest: bit_imp_le_length)

lemma and_masks:
  "x AND 0x3F = take_bit 6 (x :: u8)"
  "y AND 0x3FFF = take_bit 14 (y :: u16)"
  "z AND 0x3FFFFFFF = take_bit 30 (z :: u32)"
  "w AND 0x3FFFFFFFFFFFFFFF = take_bit 62 (w :: u64)"
  by (simp_all add: take_bit_eq_mask mask_eq_exp_minus_1)

lemma take_put_be [simp]: "take n (put_be n w @ rest) = put_be n w" "drop n (put_be n w @ rest) = rest"
  by simp_all

lemma read_varint_1:
  assumes "v \<le> (63 :: u64)"
  shows "read_varint (put_be 1 (ucast v :: u8) @ rest) = Inr (v, rest)"
proof -
  have v: "unat v < 2 ^ 6"
    using assms by (simp add: word_le_nat_alt)
  note t = tag_or [OF v, of 0, simplified]
  have "drop_bit 6 (ucast v :: u8) = ucast (drop_bit 6 v)"
    using t(1) by (intro bit_word_eqI) (auto simp: bit_simps, metis add.commute bit_take_bit_iff not_add_less2)
  moreover have "ucast (take_bit 6 (ucast v :: u8)) = take_bit 6 v"
    by (intro bit_word_eqI) (auto simp: bit_simps)
  ultimately show ?thesis
    by (simp add: read_varint_def get_be_def and_masks t)
qed

text \<open>The first byte of a tagged word announces the length through its two high bits.\<close>

lemma read_varint_tagged:
  fixes w :: "'a::len word"
  assumes len: "LENGTH('a) = 8 * n" and tag: "unat (ucast (drop_bit (8 * n - 2) w) :: u8) = k"
    and n: "n = 2 ^ k" "k \<in> {1, 2, 3}"
  shows "read_varint (put_be n w @ rest) =
    (if n = 2 then Inr (ucast ((get_be (put_be n w) :: u16) AND 0x3FFF), rest)
     else if n = 4 then Inr (ucast ((get_be (put_be n w) :: u32) AND 0x3FFFFFFF), rest)
     else Inr ((get_be (put_be n w) :: u64) AND 0x3FFFFFFFFFFFFFFF, rest))"
proof -
  obtain m where m: "n = Suc m"
    using n by (cases n) auto
  have "drop_bit 6 (ucast (drop_bit (8 * m) w) :: u8) = ucast (drop_bit (8 * n - 2) w)"
    using drop_bit_first_byte [of m w] len m by (simp add: add.commute)
  with tag have first: "unat (drop_bit 6 (ucast (drop_bit (8 * m) w) :: u8)) = k"
    by simp
  define buffer where "buffer = put_be n w @ rest"
  have buffer: "take n buffer = put_be n w" "drop n buffer = rest" "n \<le> length buffer"
    by (simp_all add: buffer_def)
  have cons: "buffer = ucast (drop_bit (8 * m) w) # put_be m w @ rest"
    by (simp add: buffer_def m)
  have "read_varint buffer =
    (if n = 2 then Inr (ucast ((get_be (take n buffer) :: u16) AND 0x3FFF), drop n buffer)
     else if n = 4 then Inr (ucast ((get_be (take n buffer) :: u32) AND 0x3FFFFFFF), drop n buffer)
     else Inr ((get_be (take n buffer) :: u64) AND 0x3FFFFFFFFFFFFFFF, drop n buffer))"
    using n buffer(3) unfolding read_varint_def
    by (subst (1) cons) (auto simp: first Let_def)
  then show ?thesis
    unfolding buffer by (simp only: buffer_def)
qed

lemma tagged_lengths:
  "LENGTH(16) = 8 * 2" "LENGTH(32) = 8 * 4" "LENGTH(64) = 8 * 8"
  "(2 :: nat) = 2 ^ 1" "(4 :: nat) = 2 ^ 2" "(8 :: nat) = 2 ^ 3"
  "(1 :: nat) \<in> {1, 2, 3}" "(2 :: nat) \<in> {1, 2, 3}" "(3 :: nat) \<in> {1, 2, 3}"
  by simp_all

lemmas tagged_simps = numeral_eq_iff num.simps simp_thms if_True if_False

lemma get_be_word:
  "get_be (put_be 2 x) = (x :: u16)" "get_be (put_be 4 y) = (y :: u32)" "get_be (put_be 8 z) = (z :: u64)"
  by (simp_all add: get_be_put_be_full)

lemma read_varint_2:
  assumes "drop_bit 14 x = 1" and "take_bit 14 x = (w :: u16)"
  shows "read_varint (put_be 2 x @ rest) = Inr (ucast w, rest)"
proof -
  have "unat (ucast (drop_bit (8 * 2 - 2) x) :: u8) = 1"
    by (simp add: assms(1))
  then have "read_varint (put_be 2 x @ rest) = Inr (ucast ((get_be (put_be 2 x) :: u16) AND 0x3FFF), rest)"
    using read_varint_tagged [OF tagged_lengths(1) _ tagged_lengths(4) tagged_lengths(7)] by (simp only: tagged_simps)
  also have "(get_be (put_be 2 x) :: u16) AND 0x3FFF = w"
    by (simp only: get_be_word and_masks assms(2))
  finally show ?thesis .
qed

lemma read_varint_4:
  assumes "drop_bit 30 x = 2" and "take_bit 30 x = (w :: u32)"
  shows "read_varint (put_be 4 x @ rest) = Inr (ucast w, rest)"
proof -
  have "unat (ucast (drop_bit (8 * 4 - 2) x) :: u8) = 2"
    by (simp add: assms(1))
  then have "read_varint (put_be 4 x @ rest) = Inr (ucast ((get_be (put_be 4 x) :: u32) AND 0x3FFFFFFF), rest)"
    using read_varint_tagged [OF tagged_lengths(2) _ tagged_lengths(5) tagged_lengths(8)] by (simp only: tagged_simps)
  also have "(get_be (put_be 4 x) :: u32) AND 0x3FFFFFFF = w"
    by (simp only: get_be_word and_masks assms(2))
  finally show ?thesis .
qed

lemma read_varint_8:
  assumes "drop_bit 62 x = 3" and "take_bit 62 x = (w :: u64)"
  shows "read_varint (put_be 8 x @ rest) = Inr (w, rest)"
proof -
  have "unat (ucast (drop_bit (8 * 8 - 2) x) :: u8) = 3"
    by (simp add: assms(1))
  then have "read_varint (put_be 8 x @ rest) = Inr ((get_be (put_be 8 x) :: u64) AND 0x3FFFFFFFFFFFFFFF, rest)"
    using read_varint_tagged [OF tagged_lengths(3) _ tagged_lengths(6) tagged_lengths(9)] by (simp only: tagged_simps)
  also have "(get_be (put_be 8 x) :: u64) AND 0x3FFFFFFFFFFFFFFF = w"
    by (simp only: get_be_word and_masks assms(2))
  finally show ?thesis .
qed

lemma write_varint_eq:
  "write_varint buffer value =
    (if value \<le> 63 then Inr (buffer @ put_be 1 (ucast value :: u8))
     else if value \<le> 16383 then Inr (buffer @ put_be 2 ((ucast value :: u16) OR 0x4000))
     else if value \<le> 1073741823 then Inr (buffer @ put_be 4 ((ucast value :: u32) OR 0x80000000))
     else if value \<le> 4611686018427387903 then Inr (buffer @ put_be 8 (value OR 0xC000000000000000))
     else Inl ERR_LIB_INTERNAL_ERROR)"
  by (auto simp: write_varint_def u8_try_from_def u16_try_from_def u32_try_from_def word_le_nat_alt)

lemma push_bit_tags:
  "push_bit 14 (1 :: u16) = 0x4000" "take_bit (LENGTH(16) - 14) (1 :: u16) = 1"
  "push_bit 30 (2 :: u32) = 0x80000000" "take_bit (LENGTH(32) - 30) (2 :: u32) = 2"
  "push_bit 62 (3 :: u64) = 0xC000000000000000" "take_bit (LENGTH(64) - 62) (3 :: u64) = 3"
  by simp_all

lemma tag_2:
  assumes "unat (w :: u16) < 2 ^ 14"
  shows "drop_bit 14 (w OR 0x4000) = 1" "take_bit 14 (w OR 0x4000) = w"
  using tag_or [OF assms, of 1, unfolded push_bit_tags] by (simp_all only: len_bit0 len_num1)

lemma tag_4:
  assumes "unat (w :: u32) < 2 ^ 30"
  shows "drop_bit 30 (w OR 0x80000000) = 2" "take_bit 30 (w OR 0x80000000) = w"
  using tag_or [OF assms, of 2, unfolded push_bit_tags] by (simp_all only: len_bit0 len_num1)

lemma tag_8:
  assumes "unat (w :: u64) < 2 ^ 62"
  shows "drop_bit 62 (w OR 0xC000000000000000) = 3" "take_bit 62 (w OR 0xC000000000000000) = w"
  using tag_or [OF assms, of 3, unfolded push_bit_tags] by (simp_all only: len_bit0 len_num1)

lemma ucast_small:
  fixes v :: u64
  assumes "unat v < 2 ^ n" and "n \<le> LENGTH('b)"
  shows "unat (ucast v :: 'b::len word) = unat v" and "ucast (ucast v :: 'b::len word) = v"
proof -
  have "unat v < 2 ^ LENGTH('b)"
    using assms by (meson less_le_trans one_le_numeral power_increasing)
  then show u: "unat (ucast v :: 'b word) = unat v"
    by (simp add: unsigned_ucast_eq take_bit_nat_eq_self)
  then show "ucast (ucast v :: 'b word) = v"
    by (simp add: word_unat_eq_iff unsigned_ucast_eq unsigned_take_bit_eq take_bit_nat_eq_self)
qed

lemma read_write_varint: "write_varint [] v = Inr code \<Longrightarrow> read_varint (code @ rest) = Inr (v, rest)"
proof -
  assume w: "write_varint [] v = Inr code"
  consider (1) "v \<le> 63" | (2) "\<not> v \<le> 63" "v \<le> 16383" | (4) "\<not> v \<le> 16383" "v \<le> 1073741823"
    | (8) "\<not> v \<le> 1073741823" "v \<le> 4611686018427387903" | (no) "\<not> v \<le> 4611686018427387903"
    by linarith
  then show ?thesis
  proof cases
    case 1
    with w show ?thesis by (auto simp: write_varint_eq intro: read_varint_1 simp del: One_nat_def)
  next
    case 2
    then have v: "unat v < 2 ^ 14" by (simp add: word_le_nat_alt)
    note u = ucast_small [OF v, where ?'b = 16]
    have "read_varint (put_be 2 ((ucast v :: u16) OR 0x4000) @ rest) = Inr (ucast (ucast v :: u16), rest)"
      using v u tag_2 [of "ucast v"] by (intro read_varint_2) simp_all
    with w 2 u show ?thesis by (simp add: write_varint_eq)
  next
    case 4
    then have v: "unat v < 2 ^ 30" by (simp add: word_le_nat_alt)
    note u = ucast_small [OF v, where ?'b = 32]
    have "read_varint (put_be 4 ((ucast v :: u32) OR 0x80000000) @ rest) = Inr (ucast (ucast v :: u32), rest)"
      using v u tag_4 [of "ucast v"] by (intro read_varint_4) simp_all
    with w 4 u show ?thesis by (simp add: write_varint_eq word_le_nat_alt)
  next
    case 8
    then have v: "unat v < 2 ^ 62" by (simp add: word_le_nat_alt)
    have "read_varint (put_be 8 (v OR 0xC000000000000000) @ rest) = Inr (v, rest)"
      using v tag_8 [of v] by (intro read_varint_8) simp_all
    with w 8 show ?thesis by (simp add: write_varint_eq word_le_nat_alt)
  next
    case no
    with w show ?thesis by (simp add: write_varint_eq word_le_nat_alt)
  qed
qed

text \<open>The number of bytes read is fixed by the first byte, so later bytes do not matter.\<close>

definition read_len :: "bytes \<Rightarrow> nat" where
  "read_len buffer = push_bit (unat (drop_bit 6 (hd buffer))) (1 :: nat)"

lemma read_varint_Inr:
  assumes "read_varint bs = Inr (v, rest)"
  shows "bs \<noteq> []" "read_len bs \<le> length bs" "rest = drop (read_len bs) bs" "0 < read_len bs"
  using assms
  by (auto simp: read_varint_def read_len_def Let_def push_bit_eq_mult split: list.splits if_splits)

lemma read_varint_append:
  assumes "read_varint bs = Inr (v, rest)"
  shows "read_varint (bs @ more) = Inr (v, rest @ more)"
proof -
  obtain b bs' where "bs = b # bs'"
    using read_varint_Inr(1) [OF assms] by (cases bs) auto
  moreover have "push_bit (unat (drop_bit 6 b)) (1 :: nat) \<le> length bs"
    using read_varint_Inr(2) [OF assms] calculation by (simp add: read_len_def)
  ultimately show ?thesis
    using assms by (simp add: read_varint_def Let_def del: drop_eq_Nil split: if_splits)
qed

lemma read_varint_Inl: "read_varint bs = Inl e \<Longrightarrow> e = ERR_H3_FRAME_ERROR"
  by (auto simp: read_varint_def Let_def split: list.splits if_splits)

lemma write_varint_buffer:
  "write_varint buf v = (case write_varint [] v of Inl e \<Rightarrow> Inl e | Inr code \<Rightarrow> Inr (buf @ code))"
  by (simp add: write_varint_eq)

interpretation varint: prefix_codec write_varint read_varint
proof unfold_locales
  fix buf out code bs rest more :: bytes and v :: u64
  show "write_varint buf v = Inr out \<Longrightarrow> \<exists>code. out = buf @ code \<and> write_varint [] v = Inr code"
    by (subst (asm) write_varint_buffer) (auto split: sum.splits)
  show "write_varint [] v = Inr code \<Longrightarrow> write_varint buf v = Inr (buf @ code)"
    by (subst write_varint_buffer) simp
  show "write_varint [] v = Inr code \<Longrightarrow> read_varint (code @ rest) = Inr (v, rest)"
    by (rule read_write_varint)
  show "\<exists>used. used \<noteq> [] \<and> bs = used @ rest" if "read_varint bs = Inr (v, rest)"
    using read_varint_Inr [OF that] by (intro exI [of _ "take (read_len bs) bs"]) auto
  show "read_varint bs = Inr (v, rest) \<Longrightarrow> read_varint (bs @ more) = Inr (v, rest @ more)"
    by (rule read_varint_append)
qed

lemma write_varint_fits: "v \<le> QUIC_VARINT_LIMIT \<Longrightarrow> \<exists>code. write_varint [] v = Inr code"
  by (auto simp: write_varint_eq const_defs)

lemma length_write_varint: "write_varint buf v = Inr out \<Longrightarrow> length out = length buf + varint_size v"
  by (auto simp: write_varint_eq varint_size_def split: if_splits)

text \<open>
  C34. Variable-length integers round-trip: writing a value of at most 62 bits appends
  \<open>varint_size\<close> bytes from which, whatever follows them, the value is read back with the rest
  left over, while every proper prefix of those bytes is refused with a frame error.
\<close>

theorem varint_roundtrip:
  assumes "v \<le> QUIC_VARINT_LIMIT"
  shows "\<exists>code. write_varint buf v = Inr (buf @ code) \<and> length code = varint_size v
    \<and> read_varint (code @ rest) = Inr (v, rest)
    \<and> (\<forall>k < length code. read_varint (take k code) = Inl ERR_H3_FRAME_ERROR)"
proof -
  obtain code where c: "write_varint [] v = Inr code"
    using write_varint_fits [OF assms] by blast
  have "read_varint (take k code) = Inl ERR_H3_FRAME_ERROR" if "k < length code" for k
    using varint.dec_truncated [OF c append_take_drop_id [symmetric], of k] that read_varint_Inl
    by (metis drop_eq_Nil linorder_not_less)
  with varint.enc_prefix [OF c, of buf] length_write_varint [OF c] varint.dec_enc [OF c, of rest]
  show ?thesis by auto
qed

theorem varint_roundtrip_witness:
  "(16384 :: u64) \<le> QUIC_VARINT_LIMIT
   \<and> (\<exists>code. write_varint [7] 16384 = Inr ([7] @ code) \<and> length code = 4
      \<and> read_varint (code @ [9, 9]) = Inr (16384, [9, 9]))"
proof -
  have "(16384 :: u64) \<le> QUIC_VARINT_LIMIT" "varint_size 16384 = 4"
    by (simp_all add: const_defs varint_size_def)
  with varint_roundtrip [of 16384 "[7]" "[9, 9]"] show ?thesis by auto
qed

text \<open>
  A value of more than 62 bits is never written: the only error of the writer is the
  library's internal error, raised exactly for those values, so the length announced by
  \<open>varint_size\<close> is that of everything the writer accepts.
\<close>

theorem varint_write_total:
  "(write_varint buf v = Inl ERR_LIB_INTERNAL_ERROR \<longleftrightarrow> v > QUIC_VARINT_LIMIT)
   \<and> (case write_varint buf v of
        Inl e \<Rightarrow> e = ERR_LIB_INTERNAL_ERROR
      | Inr out \<Rightarrow> take (length buf) out = buf \<and> length out = length buf + varint_size v)"
  by (auto simp: write_varint_eq varint_size_def const_defs word_le_nat_alt word_less_nat_alt split: sum.splits)

end
