(* ===== verification/Codes.thy ===== *)
theory Codes
  imports Constants
begin

text \<open>
  Error-code mapping and stream-identifier classification of \<open>protocol/utils.rs\<close>, and the
  enumeration \<open>StreamDirection\<close> of \<open>common/types.rs\<close>.  The 32-bit application error codes
  of WebTransport are spread over a range of HTTP/3 codes that skips the reserved code
  points (those of the form 31 n + 33); the arithmetic is on 64-bit words.
\<close>

type_synonym StreamId = u64
type_synonym SessionId = u64
type_synonym RequestId = u64
type_synonym ConnectionHandle = u64
type_synonym ErrorCode = u64

datatype StreamDirection = Bidirectional | SendOnly | ReceiveOnly

definition H3_ERROR_RESERVED_MODULO :: u64 where
  [const_defs]: "H3_ERROR_RESERVED_MODULO = 0x1F"

definition H3_ERROR_RESERVED_OFFSET :: u64 where
  [const_defs]: "H3_ERROR_RESERVED_OFFSET = 0x21"

definition WT_ERROR_MAP_DIVISOR :: u64 where
  [const_defs]: "WT_ERROR_MAP_DIVISOR = 0x1E"

definition http_code_to_webtransport_code :: "ErrorCode \<Rightarrow> u32 option" where
  "http_code_to_webtransport_code http_error_code =
    (if \<not> (ERR_WT_APPLICATION_ERROR_FIRST \<le> http_error_code
         \<and> http_error_code \<le> ERR_WT_APPLICATION_ERROR_LAST) then None
     else if (http_error_code - H3_ERROR_RESERVED_OFFSET) mod H3_ERROR_RESERVED_MODULO = 0 then None
     else
       (let shifted = http_error_code - ERR_WT_APPLICATION_ERROR_FIRST;
            result = shifted - (shifted div H3_ERROR_RESERVED_MODULO)
        in u32_try_from result))"

definition webtransport_code_to_http_code :: "u32 \<Rightarrow> ErrorCode" where
  "webtransport_code_to_http_code code =
    (let application_error_code = ucast code :: u64;
         base = ERR_WT_APPLICATION_ERROR_FIRST;
         divisor = WT_ERROR_MAP_DIVISOR;
         shifted = base + application_error_code;
         offset = application_error_code div divisor
     in shifted + offset)"

definition is_peer_initiated_stream :: "StreamId \<Rightarrow> bool \<Rightarrow> bool" where
  "is_peer_initiated_stream stream_id is_client =
    (let is_client_initiated = (stream_id AND QUIC_STREAM_INITIATOR_MASK) = 0
     in is_client_initiated \<noteq> is_client)"

definition is_unidirectional_stream :: "StreamId \<Rightarrow> bool" where
  "is_unidirectional_stream stream_id \<longleftrightarrow> (stream_id AND QUIC_STREAM_DIRECTION_MASK) \<noteq> 0"

definition is_valid_session_id :: "SessionId \<Rightarrow> bool" where
  "is_valid_session_id session_id \<longleftrightarrow>
    (session_id AND (QUIC_STREAM_DIRECTION_MASK OR QUIC_STREAM_INITIATOR_MASK)) = 0"

definition stream_direction_from_id :: "StreamId \<Rightarrow> bool \<Rightarrow> StreamDirection" where
  "stream_direction_from_id stream_id is_client =
    (case (is_unidirectional_stream stream_id, is_peer_initiated_stream stream_id is_client) of
       (False, _) \<Rightarrow> Bidirectional
     | (True, False) \<Rightarrow> SendOnly
     | (True, True) \<Rightarrow> ReceiveOnly)"

subsection \<open>The error-code mapping in natural numbers\<close>

text \<open>A code point is reserved when it is one of those \<open>31 n + 33\<close>.\<close>

definition h3_reserved :: "ErrorCode \<Rightarrow> bool" where
  "h3_reserved c \<longleftrightarrow> (\<exists>n. unat c = 31 * n + 33)"

lemma unat_webtransport_code:
  "unat (webtransport_code_to_http_code c) = 0x52E4A40FA8DB + unat c + unat c div 30"
proof -
  have c: "unat c < 2 ^ 32"
    using unsigned_less [of c, where ?'a = nat] by simp
  have u: "unat (ucast c :: u64) = unat c"
    using c by (simp add: unsigned_ucast_eq take_bit_nat_eq_self)
  have d: "unat (ucast c div (0x1E :: u64)) = unat c div 30"
    by (simp add: unat_div_distrib u)
  have "unat ((0x52E4A40FA8DB :: u64) + ucast c) = 0x52E4A40FA8DB + unat c"
    using c by (subst unat_add_small) (simp_all add: u)
  with c show ?thesis
    unfolding webtransport_code_to_http_code_def Let_def const_defs
    by (subst unat_add_small) (simp_all add: d)
qed

lemma u32_try_from_unat: "unat w \<le> 0xFFFFFFFF \<Longrightarrow> u32_try_from w = Some (of_nat (unat w))"
  by (simp add: u32_try_from_def word_le_nat_alt word_unat_eq_iff unsigned_ucast_eq unat_of_nat take_bit_eq_mod)

lemma unat_http_code:
  assumes "0x52E4A40FA8DB \<le> unat h" "unat h \<le> 0x52E5AC983162"
  shows "http_code_to_webtransport_code h =
    (if (unat h - 33) mod 31 = 0 then None
     else let s = unat h - 0x52E4A40FA8DB in Some (of_nat (s - s div 31)))"
proof -
  let ?s = "unat h - 0x52E4A40FA8DB"
  have s: "unat (h - 0x52E4A40FA8DB) = ?s"
    using assms(1) by (subst unat_sub_small) simp_all
  have m: "(h - 0x21) mod 0x1F = 0 \<longleftrightarrow> (unat h - 33) mod 31 = 0"
  proof -
    have "unat (h - 0x21) = unat h - 33"
      using assms(1) by (subst unat_sub_small) simp_all
    then show ?thesis by (simp add: word_unat_eq_iff unat_mod_distrib)
  qed
  have r: "unat (h - 0x52E4A40FA8DB - (h - 0x52E4A40FA8DB) div 0x1F) = ?s - ?s div 31"
    by (subst unat_sub_small) (simp_all add: unat_div_distrib s)
  have "31 * (t - t div 31) \<le> 30 * t + 30" for t :: nat
    using div_mult_mod_eq [of t 31] by (simp add: diff_mult_distrib2)
  from this [of ?s] have f: "?s - ?s div 31 \<le> 0xFFFFFFFF"
    using assms by linarith
  have "u32_try_from (h - 0x52E4A40FA8DB - (h - 0x52E4A40FA8DB) div 0x1F) = Some (of_nat (?s - ?s div 31))"
    using f u32_try_from_unat [of "h - 0x52E4A40FA8DB - (h - 0x52E4A40FA8DB) div 0x1F"] by (simp only: r)
  with assms show ?thesis
    by (simp add: http_code_to_webtransport_code_def const_defs word_le_nat_alt m Let_def)
qed

lemma spread_div: "(n + n div 30) div 31 = n div 30" "(n + n div 30) mod 31 = n mod 30" for n :: nat
proof -
  have e: "n + n div 30 = n mod 30 + n div 30 * 31"
    using div_mult_mod_eq [of n 30] by linarith
  show "(n + n div 30) div 31 = n div 30"
    unfolding e by (subst div_mult_self1) auto
  show "(n + n div 30) mod 31 = n mod 30"
    unfolding e by (subst mod_mult_self1) auto
qed

lemma squeeze_div: "(s + 1) mod 31 \<noteq> 0 \<Longrightarrow> (s - s div 31) + (s - s div 31) div 30 = s" for s :: nat
proof -
  assume a: "(s + 1) mod 31 \<noteq> 0"
  define q r where "q = s div 31" and "r = s mod 31"
  have s: "s = 31 * q + r" and "r < 31"
    by (auto simp: q_def r_def)
  moreover have "r \<noteq> 30"
  proof
    assume "r = 30"
    then have "s + 1 = 31 * (q + 1)" using s by simp
    with a show False by (metis mod_mult_self1_is_0)
  qed
  ultimately have e: "s - s div 31 = 30 * q + r" "r < 30"
    by (auto simp: q_def [symmetric])
  then have "(s - s div 31) div 30 = q" by simp
  with e s show ?thesis by simp
qed

lemma first_offset:
  "(0x52E4A40FA8DB + s - 33) mod 31 = 0 \<longleftrightarrow> (s + 1) mod 31 = 0" for s :: nat
proof -
  have "0x52E4A40FA8DB + s - 33 = (s + 1) + 31 * 2940063177767"
    by simp
  then show ?thesis by (metis mod_mult_self2)
qed

lemma h3_reserved_iff: "h3_reserved c \<longleftrightarrow> 33 \<le> unat c \<and> (unat c - 33) mod 31 = 0"
  unfolding h3_reserved_def
  by (metis add.commute add_diff_cancel_right' dvd_def le_add1 le_add_diff_inverse mod_eq_0_iff_dvd)

lemma http_of_webtransport: "http_code_to_webtransport_code (webtransport_code_to_http_code c) = Some c"
proof -
  let ?h = "webtransport_code_to_http_code c" and ?n = "unat c"
  have n: "?n \<le> 0xFFFFFFFF"
    using unsigned_less [of c, where ?'a = nat] by simp
  then have h: "unat ?h = 0x52E4A40FA8DB + (?n + ?n div 30)" "unat ?h \<le> 0x52E5AC983162"
    using div_le_mono [OF n, of 30] by (simp_all add: unat_webtransport_code)
  have "?n mod 30 \<noteq> 30"
    by (metis less_irrefl mod_less_divisor zero_less_numeral)
  then have "(?n + ?n div 30 + 1) mod 31 \<noteq> 0"
    using spread_div(2) [of ?n] mod_Suc [of "?n + ?n div 30" 31] by simp
  then have "(unat ?h - 33) mod 31 \<noteq> 0"
    by (simp only: h(1) first_offset not_False_eq_True)
  then show ?thesis
    using unat_http_code [of ?h] h spread_div(1) [of ?n] by (simp add: Let_def)
qed

text \<open>
  C33. Every 32-bit application error code survives the trip over HTTP/3: the code put on the
  wire for it is mapped back to it, and is never one of the reserved code points.
\<close>

theorem error_code_roundtrip:
  "http_code_to_webtransport_code (webtransport_code_to_http_code c) = Some c
   \<and> \<not> h3_reserved (webtransport_code_to_http_code c)"
proof -
  have "h3_reserved h \<Longrightarrow> http_code_to_webtransport_code h = None" for h
  proof (cases "0x52E4A40FA8DB \<le> unat h \<and> unat h \<le> 0x52E5AC983162")
    case True
    assume "h3_reserved h"
    with True show ?thesis by (simp add: unat_http_code h3_reserved_iff)
  next
    case False
    then show ?thesis by (auto simp: http_code_to_webtransport_code_def const_defs word_le_nat_alt)
  qed
  from this [of "webtransport_code_to_http_code c"] show ?thesis
    using http_of_webtransport [of c] by auto
qed

text \<open>
  The mapping loses nothing in the other direction either: an HTTP/3 code that the receiver
  accepts as an application error is exactly the code a sender produces for the result.
\<close>

theorem error_code_inverse:
  assumes "http_code_to_webtransport_code h = Some c"
  shows "webtransport_code_to_http_code c = h"
proof -
  have r: "0x52E4A40FA8DB \<le> unat h" "unat h \<le> 0x52E5AC983162"
    using assms by (auto simp: http_code_to_webtransport_code_def const_defs word_le_nat_alt split: if_splits)
  define s where "s = unat h - 0x52E4A40FA8DB"
  have h: "unat h = 0x52E4A40FA8DB + s"
    using r by (simp add: s_def)
  have m: "(s + 1) mod 31 \<noteq> 0" and c: "c = of_nat (s - s div 31)"
    using assms unat_http_code [OF r] first_offset [of s]
    by (simp_all only: h diff_add_inverse Let_def option.inject option.distinct simp_thms split: if_splits)
  have "31 * (s - s div 31) \<le> 30 * s + 30"
    using div_mult_mod_eq [of s 31] by (simp add: diff_mult_distrib2)
  with r h have "s - s div 31 < 2 ^ 32" by simp
  then have "unat c = s - s div 31"
    unfolding c by (simp add: unat_of_nat del: of_nat_diff)
  then have "unat (webtransport_code_to_http_code c) = unat h"
    using squeeze_div [OF m] by (simp only: unat_webtransport_code h add.assoc)
  then show ?thesis by (simp add: word_unat_eq_iff)
qed

theorem error_code_inverse_witness:
  "http_code_to_webtransport_code 0x52E4A40FA8FA = Some 30 \<and> webtransport_code_to_http_code 30 = 0x52E4A40FA8FA"
  using error_code_inverse [of "0x52E4A40FA8FA" 30] by (simp add: http_code_to_webtransport_code_def const_defs u32_try_from_def)

text \<open>
  The two ends of a connection classify a stream identifier consistently: exactly one of
  them sees it as initiated by the peer, one end may only send on it exactly when the other may
  only receive, and it is bidirectional for both or for neither.
\<close>

theorem stream_direction_dual:
  "is_peer_initiated_stream sid True = (\<not> is_peer_initiated_stream sid False)
   \<and> (stream_direction_from_id sid True = SendOnly \<longleftrightarrow> stream_direction_from_id sid False = ReceiveOnly)
   \<and> (stream_direction_from_id sid True = ReceiveOnly \<longleftrightarrow> stream_direction_from_id sid False = SendOnly)
   \<and> (stream_direction_from_id sid b = Bidirectional \<longleftrightarrow> \<not> is_unidirectional_stream sid)"
  by (auto simp: stream_direction_from_id_def is_peer_initiated_stream_def Let_def split: bool.splits)

end
