(* ===== verification/Utf8.thy ===== *)
theory Utf8
  imports Prelude
begin

text \<open>
  The part of the standard library's string handling the protocol code calls:
  \<open>str::from_utf8\<close> (well-formedness of a byte sequence), \<open>str::is_char_boundary\<close> and
  \<open>str::floor_char_boundary\<close>.  The close reason of a session is cut with the last one,
  and the peer decodes it with the first.
\<close>

definition utf8_cont :: "u8 \<Rightarrow> bool" where
  "utf8_cont b \<longleftrightarrow> 0x80 \<le> b \<and> b \<le> 0xBF"

definition utf8_second3 :: "u8 \<Rightarrow> u8 \<Rightarrow> bool" where
  "utf8_second3 b0 b1 \<longleftrightarrow>
    (if b0 = 0xE0 then 0xA0 \<le> b1 \<and> b1 \<le> 0xBF
     else if b0 = 0xED then 0x80 \<le> b1 \<and> b1 \<le> 0x9F
     else utf8_cont b1)"

definition utf8_second4 :: "u8 \<Rightarrow> u8 \<Rightarrow> bool" where
  "utf8_second4 b0 b1 \<longleftrightarrow>
    (if b0 = 0xF0 then 0x90 \<le> b1 \<and> b1 \<le> 0xBF
     else if b0 = 0xF4 then 0x80 \<le> b1 \<and> b1 \<le> 0x8F
     else utf8_cont b1)"

text \<open>The length of the well-formed character at the front of a byte sequence.\<close>

definition utf8_head :: "bytes \<Rightarrow> nat option" where
  "utf8_head bs =
    (case bs of
       [] \<Rightarrow> None
     | b0 # r \<Rightarrow>
         if b0 < 0x80 then Some 1
         else if 0xC2 \<le> b0 \<and> b0 \<le> 0xDF then
           (case r of b1 # _ \<Rightarrow> if utf8_cont b1 then Some 2 else None | _ \<Rightarrow> None)
         else if 0xE0 \<le> b0 \<and> b0 \<le> 0xEF then
           (case r of b1 # b2 # _ \<Rightarrow> if utf8_second3 b0 b1 \<and> utf8_cont b2 then Some 3 else None
            | _ \<Rightarrow> None)
         else if 0xF0 \<le> b0 \<and> b0 \<le> 0xF4 then
           (case r of
              b1 # b2 # b3 # _ \<Rightarrow>
                if utf8_second4 b0 b1 \<and> utf8_cont b2 \<and> utf8_cont b3 then Some 4 else None
            | _ \<Rightarrow> None)
         else None)"

lemma utf8_head_bounds: "utf8_head bs = Some n \<Longrightarrow> 0 < n \<and> n \<le> 4 \<and> n \<le> length bs"
  by (auto simp: utf8_head_def split: list.splits if_splits)

function utf8_valid :: "bytes \<Rightarrow> bool" where
  "utf8_valid bs =
    (if bs = [] then True
     else case utf8_head bs of None \<Rightarrow> False | Some n \<Rightarrow> utf8_valid (drop n bs))"
  by pat_completeness auto
termination
  by (relation "measure length") (auto dest: utf8_head_bounds)

declare utf8_valid.simps [simp del]

text \<open>A position is a boundary unless it points at a continuation byte.\<close>

definition is_char_boundary :: "bytes \<Rightarrow> nat \<Rightarrow> bool" where
  "is_char_boundary bs i \<longleftrightarrow>
    (if i = 0 then True
     else if length bs \<le> i then i = length bs
     else \<not> utf8_cont (bs ! i))"

fun floor_boundary_from :: "bytes \<Rightarrow> nat \<Rightarrow> nat" where
  "floor_boundary_from bs 0 = 0"
| "floor_boundary_from bs (Suc i) =
    (if is_char_boundary bs (Suc i) then Suc i else floor_boundary_from bs i)"

definition floor_char_boundary :: "bytes \<Rightarrow> nat \<Rightarrow> nat" where
  "floor_char_boundary bs index =
    (if length bs \<le> index then length bs else floor_boundary_from bs index)"

subsection \<open>Cutting a well-formed text at a boundary keeps it well-formed\<close>

lemma utf8_valid_Nil [simp]: "utf8_valid []"
  by (simp add: utf8_valid.simps)

lemma bytes_shape:
  obtains "bs = []" | a where "bs = [a]" | a b where "bs = [a, b]" | a b c where "bs = [a, b, c]"
  | a b c d r where "bs = a # b # c # d # (r :: bytes)"
  by (metis neq_Nil_conv)

lemma utf8_head_prefix: "utf8_head bs = Some n \<Longrightarrow> utf8_head (take n bs @ rest) = Some n"
  by (cases bs rule: bytes_shape) (auto simp: utf8_head_def split: if_splits)

lemma utf8_second_cont:
  "utf8_second3 b0 b1 \<Longrightarrow> utf8_cont b1" "utf8_second4 b0 b1 \<Longrightarrow> utf8_cont b1"
  by (auto simp: utf8_second3_def utf8_second4_def utf8_cont_def word_le_nat_alt split: if_splits)

lemma utf8_head_cont:
  assumes "utf8_head bs = Some n" "0 < i" "i < n"
  shows "utf8_cont (bs ! i)"
proof -
  have "i = 1 \<or> i = 2 \<or> i = 3"
    using utf8_head_bounds [OF assms(1)] assms(2,3) by linarith
  with assms(1,3) show ?thesis
    by (cases bs rule: bytes_shape) (auto simp: utf8_head_def dest: utf8_second_cont split: if_splits)
qed

lemma utf8_valid_step: "utf8_head bs = Some n \<Longrightarrow> utf8_valid bs \<longleftrightarrow> utf8_valid (drop n bs)"
  by (subst utf8_valid.simps) (auto dest: utf8_head_bounds)

lemma is_char_boundary_drop:
  assumes "n \<le> i" "n \<le> length bs"
  shows "is_char_boundary bs i \<Longrightarrow> is_char_boundary (drop n bs) (i - n)"
  using assms by (auto simp: is_char_boundary_def split: if_splits)

lemma utf8_valid_take:
  assumes "utf8_valid bs" and "is_char_boundary bs i"
  shows "utf8_valid (take i bs)"
  using assms
proof (induction bs arbitrary: i rule: utf8_valid.induct)
  case (1 bs)
  show ?case
  proof (cases "bs = [] \<or> i = 0")
    case True
    then show ?thesis by auto
  next
    case False
    then obtain n where n: "utf8_head bs = Some n" and rest: "utf8_valid (drop n bs)"
      using "1.prems"(1) by (subst (asm) utf8_valid.simps) (auto split: option.splits)
    note nb = utf8_head_bounds [OF n]
    have "n \<le> i"
    proof (rule ccontr)
      assume "\<not> n \<le> i"
      then have "utf8_cont (bs ! i)" "i < length bs"
        using utf8_head_cont [OF n] False nb by auto
      with "1.prems"(2) False show False by (simp add: is_char_boundary_def)
    qed
    then have "utf8_valid (take (i - n) (drop n bs))"
      using "1.IH" [of n "i - n"] False n rest "1.prems"(2) nb is_char_boundary_drop by simp
    moreover have split: "take i bs = take n bs @ take (i - n) (drop n bs)"
      using \<open>n \<le> i\<close> by (metis take_add le_add_diff_inverse)
    moreover have "drop n (take i bs) = take (i - n) (drop n bs)"
      by (simp add: drop_take)
    ultimately show ?thesis
      using utf8_valid_step utf8_head_prefix [OF n] by metis
  qed
qed

lemma floor_boundary_from_le: "floor_boundary_from bs i \<le> i"
  by (induction i) auto

lemma floor_boundary_from_boundary: "is_char_boundary bs (floor_boundary_from bs i)"
  by (induction i) (auto simp: is_char_boundary_def)

lemma is_char_boundary_length [simp]: "is_char_boundary bs (length bs)"
  by (simp add: is_char_boundary_def)

lemma floor_char_boundary_le: "floor_char_boundary bs i \<le> i" "floor_char_boundary bs i \<le> length bs"
  using floor_boundary_from_le [of bs i] by (auto simp: floor_char_boundary_def)

lemma floor_char_boundary_valid: "utf8_valid bs \<Longrightarrow> utf8_valid (take (floor_char_boundary bs i) bs)"
  using utf8_valid_take floor_boundary_from_boundary by (auto simp: floor_char_boundary_def)

end
