(* ===== verification/Header_Fields.thy ===== *)
theory Header_Fields
  imports Constants Utf8
begin

text \<open>
  Header fields and the structured-field syntax of the \<open>wt-available-protocols\<close> and
  \<open>wt-protocol\<close> headers (\<open>protocol/utils.rs\<close>).  A \<open>Cursor\<close> is the list of the bytes that
  remain: every parser takes it and returns what is left of it; \<open>None\<close> is the source's
  early return, after which no caller reads the cursor again.  The ASCII character
  literals of the source are written as hexadecimal bytes.
\<close>

definition is_ascii_lowercase :: "u8 \<Rightarrow> bool" where
  "is_ascii_lowercase b \<longleftrightarrow> 0x61 \<le> b \<and> b \<le> 0x7A"

definition is_ascii_uppercase :: "u8 \<Rightarrow> bool" where
  "is_ascii_uppercase b \<longleftrightarrow> 0x41 \<le> b \<and> b \<le> 0x5A"

definition is_ascii_digit :: "u8 \<Rightarrow> bool" where
  "is_ascii_digit b \<longleftrightarrow> 0x30 \<le> b \<and> b \<le> 0x39"

definition is_ascii_alphanumeric :: "u8 \<Rightarrow> bool" where
  "is_ascii_alphanumeric b \<longleftrightarrow> is_ascii_lowercase b \<or> is_ascii_uppercase b \<or> is_ascii_digit b"

definition to_ascii_lowercase :: "u8 \<Rightarrow> u8" where
  "to_ascii_lowercase b = (if is_ascii_uppercase b then b + 0x20 else b)"

definition eq_ignore_ascii_case :: "bytes \<Rightarrow> bytes \<Rightarrow> bool" where
  "eq_ignore_ascii_case a b \<longleftrightarrow> map to_ascii_lowercase a = map to_ascii_lowercase b"

subsection \<open>Header lookup and validation\<close>

fun join_bytes :: "bytes list \<Rightarrow> bytes \<Rightarrow> bytes" where
  "join_bytes [] sep = []"
| "join_bytes [v] sep = v"
| "join_bytes (v # w # vs) sep = v @ sep @ join_bytes (w # vs) sep"

definition combine_header :: "Headers \<Rightarrow> bytes \<Rightarrow> bytes option" where
  "combine_header headers key =
    (case map snd (filter (\<lambda>(header_key, _). header_key = key) headers) of
       [] \<Rightarrow> None
     | [value] \<Rightarrow> Some value
     | values \<Rightarrow> Some (join_bytes values (bstr '', '')))"

fun find_header :: "Headers \<Rightarrow> bytes \<Rightarrow> bytes option" where
  "find_header [] key = None"
| "find_header ((header_key, header_value) # headers) key =
    (if header_key = key then Some header_value else find_header headers key)"

definition is_connection_specific_header :: "bytes \<Rightarrow> bytes \<Rightarrow> bool \<Rightarrow> bool" where
  "is_connection_specific_header key value is_request =
    (if key = bstr ''te'' then
       \<not> (is_request \<and> eq_ignore_ascii_case value (bstr ''trailers''))
     else
       key \<in> {bstr ''connection'', bstr ''keep-alive'', bstr ''proxy-connection'',
              bstr ''transfer-encoding'', bstr ''upgrade''})"

definition is_header_name_byte :: "u8 \<Rightarrow> bool" where
  "is_header_name_byte byte \<longleftrightarrow>
    is_ascii_lowercase byte \<or> is_ascii_digit byte
    \<or> byte \<in> {0x21, 0x23, 0x24, 0x25, 0x26, 0x27, 0x2A, 0x2B, 0x2D, 0x2E, 0x5E, 0x5F, 0x60, 0x7C, 0x7E}"

definition is_header_value_byte :: "u8 \<Rightarrow> bool" where
  "is_header_value_byte byte \<longleftrightarrow> byte = 0x09 \<or> (0x20 \<le> byte \<and> byte \<le> 0x7E) \<or> 0x80 \<le> byte"

definition is_blank :: "u8 \<Rightarrow> bool" where
  "is_blank byte \<longleftrightarrow> byte = 0x20 \<or> byte = 0x09"

definition is_valid_header :: "bytes \<Rightarrow> bytes \<Rightarrow> bool" where
  "is_valid_header key value =
    (let name = (case key of b # rest \<Rightarrow> if b = 0x3A then rest else key | [] \<Rightarrow> key)
     in name \<noteq> [] \<and> list_all is_header_name_byte name
        \<and> \<not> (value \<noteq> [] \<and> (is_blank (hd value) \<or> is_blank (last value)))
        \<and> list_all is_header_value_byte value)"

definition is_valid_user_headers :: "Headers \<Rightarrow> bool \<Rightarrow> bool" where
  "is_valid_user_headers headers is_request =
    list_all (\<lambda>(key, value).
      is_valid_header key value
      \<and> \<not> ((key \<noteq> [] \<and> hd key = 0x3A)
           \<or> is_connection_specific_header key value is_request
           \<or> (is_request \<and> key = bstr ''host'')
           \<or> key \<in> {bstr ''content-length'', WT_AVAILABLE_PROTOCOLS, WT_PROTOCOL})) headers"

subsection \<open>Structured fields\<close>

fun encode_wt_string :: "bytes \<Rightarrow> bytes \<Rightarrow> string + bytes" where
  "encode_wt_string [] buffer = Inr (buffer @ [0x22])"
| "encode_wt_string (byte # rest) buffer =
    (let buffer = (if byte = 0x5C \<or> byte = 0x22 then buffer @ [0x5C] else buffer)
     in if 0x20 \<le> byte \<and> byte \<le> 0x7E then encode_wt_string rest (buffer @ [byte])
        else Inl ''wt_protocol validate invalid'')"

fun encode_wt_items :: "nat \<Rightarrow> string list \<Rightarrow> bytes \<Rightarrow> string + bytes" where
  "encode_wt_items index [] buffer = Inr buffer"
| "encode_wt_items index (protocol # protocols) buffer =
    (let buffer = (if index > 0 then buffer @ bstr '', '' else buffer);
         buffer = buffer @ [0x22]
     in case encode_wt_string (as_bytes protocol) buffer of
          Inl e \<Rightarrow> Inl e
        | Inr buffer \<Rightarrow> encode_wt_items (index + 1) protocols buffer)"

definition encode_wt_protocol_list :: "string list \<Rightarrow> string + bytes" where
  "encode_wt_protocol_list protocols = encode_wt_items 0 protocols []"

definition first_is :: "u8 \<Rightarrow> bytes \<Rightarrow> bool" where
  "first_is b cursor \<longleftrightarrow> cursor \<noteq> [] \<and> hd cursor = b"

fun parse_string_loop :: "bytes \<Rightarrow> bytes \<Rightarrow> (string \<times> bytes) option" where
  "parse_string_loop [] value = None"
| "parse_string_loop (byte # cursor) value =
    (if byte = 0x5C \<and> cursor \<noteq> [] then
       (case cursor of
          [] \<Rightarrow> None
        | escaped # cursor' \<Rightarrow>
            if escaped = 0x22 \<or> escaped = 0x5C then parse_string_loop cursor' (value @ [escaped])
            else None)
     else if byte = 0x22 then Some (from_bytes value, cursor)
     else if 0x20 \<le> byte \<and> byte \<le> 0x7E then parse_string_loop cursor (value @ [byte])
     else None)"

definition parse_string :: "bytes \<Rightarrow> (string \<times> bytes) option" where
  "parse_string cursor = (if \<not> first_is 0x22 cursor then None else parse_string_loop (tl cursor) [])"

definition discard_number :: "bytes \<Rightarrow> (bool \<times> bytes) option" where
  "discard_number cursor =
    (let cursor = (if first_is 0x2D cursor then tl cursor else cursor);
         integer_len = length (takeWhile is_ascii_digit cursor)
     in if integer_len = 0 then None
        else let cursor = drop integer_len cursor in
          if \<not> first_is 0x2E cursor then (if integer_len \<le> 15 then Some (False, cursor) else None)
          else
            (let cursor = tl cursor;
                 fraction_len = length (takeWhile is_ascii_digit cursor);
                 cursor = drop fraction_len cursor
             in if integer_len \<le> 12 \<and> 1 \<le> fraction_len \<and> fraction_len \<le> 3
                then Some (True, cursor) else None))"

definition is_key_byte :: "u8 \<Rightarrow> bool" where
  "is_key_byte byte \<longleftrightarrow>
    is_ascii_lowercase byte \<or> is_ascii_digit byte \<or> byte \<in> {0x5F, 0x2D, 0x2E, 0x2A}"

definition is_token_byte :: "u8 \<Rightarrow> bool" where
  "is_token_byte byte \<longleftrightarrow>
    is_ascii_alphanumeric byte
    \<or> byte \<in> set ([0x21, 0x23, 0x24, 0x25, 0x26, 0x27, 0x2A, 0x2B, 0x2D, 0x2E, 0x5E, 0x5F, 0x60,
                   0x7C, 0x7E, 0x3A, 0x2F] :: bytes)"

text \<open>A byte sequence \<open>:base64:\<close>; the cursor is after the first colon.\<close>

definition discard_byte_sequence :: "bytes \<Rightarrow> bytes option" where
  "discard_byte_sequence cursor =
    (if 0x3A \<notin> set cursor then None
     else
       (let content_len = length (takeWhile (\<lambda>byte. byte \<noteq> 0x3A) cursor);
            content = take content_len cursor;
            data_len = length (dropWhile (\<lambda>byte. byte = 0x3D) (rev content));
            padding_len = content_len - data_len;
            is_valid = list_all (\<lambda>byte. is_ascii_alphanumeric byte \<or> byte \<in> {0x2B, 0x2F}) (take data_len content)
              \<and> padding_len \<le> 2 \<and> data_len mod 4 \<noteq> 1 \<and> (padding_len = 0 \<or> content_len mod 4 = 0)
        in if \<not> is_valid then None else Some (drop (content_len + 1) cursor)))"

definition hex_digit :: "u8 \<Rightarrow> u8 option" where
  "hex_digit byte =
    (if 0x30 \<le> byte \<and> byte \<le> 0x39 then Some (byte - 0x30)
     else if 0x61 \<le> byte \<and> byte \<le> 0x66 then Some (byte - 0x61 + 10)
     else None)"

definition percent_octet :: "bytes \<Rightarrow> (u8 \<times> bytes) option" where
  "percent_octet cursor =
    (case cursor of
       d1 # d2 # cursor \<Rightarrow>
         (case (hex_digit d1, hex_digit d2) of
            (Some h, Some l) \<Rightarrow> Some ((0 * 16 + h) * 16 + l, cursor)
          | _ \<Rightarrow> None)
     | _ \<Rightarrow> None)"

lemma percent_octet_length: "percent_octet cursor = Some (octet, rest) \<Longrightarrow> length rest < length cursor"
  by (auto simp: percent_octet_def split: list.splits option.splits)

text \<open>A display string; the cursor is after the opening quote.\<close>

function discard_display_string :: "bytes \<Rightarrow> bytes \<Rightarrow> bytes option" where
  "discard_display_string cursor value =
    (case cursor of
       [] \<Rightarrow> None
     | byte # cursor' \<Rightarrow>
         if byte = 0x25 then
           (case percent_octet cursor' of
              None \<Rightarrow> None
            | Some (octet, cursor'') \<Rightarrow> discard_display_string cursor'' (value @ [octet]))
         else if byte = 0x22 then (if utf8_valid value then Some cursor' else None)
         else if 0x20 \<le> byte \<and> byte \<le> 0x7E then discard_display_string cursor' (value @ [byte])
         else None)"
  by pat_completeness auto
termination
  by (relation "measure (\<lambda>(cursor, _). length cursor)") (auto dest: percent_octet_length)

declare discard_display_string.simps [simp del]

text \<open>The value of a parameter, after the equals sign.\<close>

definition discard_value :: "bytes \<Rightarrow> bytes option" where
  "discard_value cursor =
    (case cursor of
       [] \<Rightarrow> None
     | byte # rest \<Rightarrow>
         if byte = 0x2D \<or> is_ascii_digit byte then
           (case discard_number cursor of None \<Rightarrow> None | Some (_, cursor) \<Rightarrow> Some cursor)
         else if byte = 0x22 then
           (case parse_string cursor of None \<Rightarrow> None | Some (_, cursor) \<Rightarrow> Some cursor)
         else if byte = 0x2A \<or> is_ascii_uppercase byte \<or> is_ascii_lowercase byte then
           Some (dropWhile is_token_byte cursor)
         else if byte = 0x3A then discard_byte_sequence rest
         else if byte = 0x3F then
           (if first_is 0x30 rest \<or> first_is 0x31 rest then Some (tl rest) else None)
         else if byte = 0x40 then
           (case discard_number rest of
              None \<Rightarrow> None
            | Some (is_decimal, cursor) \<Rightarrow> if is_decimal then None else Some cursor)
         else if byte = 0x25 then
           (if \<not> first_is 0x22 rest then None else discard_display_string (tl rest) [])
         else None)"

text \<open>No parser moves the cursor backwards, which makes the loops below terminate.\<close>

lemma parse_string_loop_length: "parse_string_loop cursor value = Some (s, rest) \<Longrightarrow> length rest < length cursor"
  by (induction cursor "value" rule: parse_string_loop.induct) (auto split: if_splits list.splits)

lemma parse_string_length: "parse_string cursor = Some (s, rest) \<Longrightarrow> length rest < length cursor"
  by (cases cursor) (auto simp: parse_string_def first_is_def dest!: parse_string_loop_length split: if_splits)

lemma discard_number_length: "discard_number cursor = Some (d, rest) \<Longrightarrow> length rest \<le> length cursor"
  by (cases cursor) (auto simp: discard_number_def Let_def split: if_splits)

lemma discard_display_string_length:
  "discard_display_string cursor value = Some rest \<Longrightarrow> length rest \<le> length cursor"
proof (induction cursor "value" rule: discard_display_string.induct)
  case (1 cursor val)
  note eq = "1.prems" [unfolded discard_display_string.simps [of cursor]]
  then obtain b c where c: "cursor = b # c" by (cases cursor) auto
  show ?case
  proof (cases "b = 0x25")
    case True
    with eq c obtain octet d where d: "percent_octet c = Some (octet, d)"
      and r: "discard_display_string d (val @ [octet]) = Some rest"
      by (auto split: option.splits)
    from "1.IH"(1) [OF c True d refl r] percent_octet_length [OF d] show ?thesis
      by (simp add: c)
  next
    case False
    with eq c show ?thesis
      using "1.IH"(2) [OF c False] by (auto split: if_splits)
  qed
qed

lemma discard_value_length: "discard_value cursor = Some rest \<Longrightarrow> length rest \<le> length cursor"
  by (auto simp: discard_value_def discard_byte_sequence_def Let_def length_dropWhile_le le_SucI
      split: list.splits if_splits option.splits
      dest!: discard_number_length parse_string_length discard_display_string_length)

function discard_parameters :: "bytes \<Rightarrow> bytes option" where
  "discard_parameters cursor =
    (if \<not> first_is 0x3B cursor then Some cursor
     else
       (let cursor1 = dropWhile (\<lambda>byte. byte = 0x20) (tl cursor)
        in if \<not> (cursor1 \<noteq> [] \<and> (is_ascii_lowercase (hd cursor1) \<or> hd cursor1 = 0x2A)) then None
           else
             (let cursor2 = dropWhile is_key_byte cursor1
              in if \<not> first_is 0x3D cursor2 then discard_parameters cursor2
                 else case discard_value (tl cursor2) of
                        None \<Rightarrow> None
                      | Some cursor3 \<Rightarrow> discard_parameters cursor3)))"
  by pat_completeness auto
termination
proof (relation "measure length")
  fix cursor cursor1 cursor2 cursor3 :: bytes
  assume a: "\<not> \<not> first_is 0x3B cursor" "cursor1 = dropWhile (\<lambda>byte. byte = 0x20) (tl cursor)"
    "cursor2 = dropWhile is_key_byte cursor1"
  have "length cursor2 \<le> length (tl cursor)"
    using a(2,3) length_dropWhile_le le_trans by blast
  moreover have "length (tl cursor) < length cursor"
    using a(1) by (auto simp: first_is_def)
  ultimately show "(cursor2, cursor) \<in> measure length" by simp
  show "(cursor3, cursor) \<in> measure length" if "discard_value (tl cursor2) = Some cursor3"
    using discard_value_length [OF that] \<open>(cursor2, cursor) \<in> measure length\<close> by simp
qed simp

declare discard_parameters.simps [simp del]

lemma discard_parameters_length: "discard_parameters cursor = Some rest \<Longrightarrow> length rest \<le> length cursor"
proof (induction cursor rule: discard_parameters.induct)
  case (1 cursor)
  let ?c1 = "dropWhile (\<lambda>byte. byte = 0x20) (tl cursor)"
  let ?c2 = "dropWhile is_key_byte ?c1"
  have c2: "length ?c2 \<le> length cursor"
    using length_dropWhile_le [of is_key_byte ?c1] length_dropWhile_le [of "\<lambda>byte. byte = 0x20" "tl cursor"]
    by (simp add: le_diff_conv)
  note eq = "1.prems" [unfolded discard_parameters.simps [of cursor] Let_def]
  show ?case
  proof (cases "first_is 0x3B cursor")
    case False
    with eq show ?thesis by simp
  next
    case True
    with eq have ok: "\<not> \<not> first_is 0x3B cursor"
      "\<not> \<not> (?c1 \<noteq> [] \<and> (is_ascii_lowercase (hd ?c1) \<or> hd ?c1 = 0x2A))"
      by (auto split: if_splits)
    show ?thesis
    proof (cases "first_is 0x3D ?c2")
      case False
      then have "discard_parameters ?c2 = Some rest"
        using eq ok by (simp split: if_splits)
      from "1.IH"(1) [OF ok(1) refl ok(2) refl False this] c2 show ?thesis by simp
    next
      case val: True
      then obtain c3 where c3: "discard_value (tl ?c2) = Some c3" "discard_parameters c3 = Some rest"
        using eq ok by (auto split: option.splits if_splits)
      from "1.IH"(2) [OF ok(1) refl ok(2) refl _ c3] val c2 discard_value_length [OF c3(1)]
      show ?thesis by simp
    qed
  qed
qed

function parse_wt_items :: "bytes \<Rightarrow> string list \<Rightarrow> string list option" where
  "parse_wt_items cursor protocols =
    (if cursor = [] then (if protocols = [] then None else Some protocols)
     else
       case parse_string cursor of
         None \<Rightarrow> None
       | Some (protocol, cursor1) \<Rightarrow>
           (case discard_parameters cursor1 of
              None \<Rightarrow> None
            | Some cursor2 \<Rightarrow>
                (case dropWhile is_blank cursor2 of
                   [] \<Rightarrow> Some (protocols @ [protocol])
                 | byte # cursor3 \<Rightarrow>
                     if byte \<noteq> 0x2C then None
                     else
                       (case dropWhile is_blank cursor3 of
                          [] \<Rightarrow> None
                        | byte' # cursor4 \<Rightarrow>
                            parse_wt_items (byte' # cursor4) (protocols @ [protocol])))))"
  by pat_completeness auto
termination
proof (relation "measure (\<lambda>(cursor, _). length cursor)", goal_cases)
  case (2 cursor protocols x protocol cursor1 cursor2 byte cursor3 byte' cursor4)
  have "length cursor1 < length cursor"
    using parse_string_length [of cursor protocol cursor1] 2(2,3) by simp
  moreover have "length cursor2 \<le> length cursor1"
    using discard_parameters_length 2(4) by simp
  moreover have "length (byte # cursor3) \<le> length cursor2"
    using length_dropWhile_le [of is_blank cursor2] 2(5) by simp
  moreover have "length (byte' # cursor4) \<le> length cursor3"
    using length_dropWhile_le [of is_blank cursor3] 2(7) by simp
  ultimately show ?case by simp
qed simp

declare parse_wt_items.simps [simp del]

definition parse_wt_protocol_list :: "bytes \<Rightarrow> string list option" where
  "parse_wt_protocol_list header = parse_wt_items (dropWhile (\<lambda>byte. byte = 0x20) header) []"

definition parse_wt_protocol_string :: "bytes \<Rightarrow> string option" where
  "parse_wt_protocol_string header =
    (case parse_string (dropWhile (\<lambda>byte. byte = 0x20) header) of
       None \<Rightarrow> None
     | Some (protocol, cursor) \<Rightarrow>
         (case discard_parameters cursor of
            None \<Rightarrow> None
          | Some cursor \<Rightarrow>
              if dropWhile (\<lambda>byte. byte = 0x20) cursor = [] then Some protocol else None))"

subsection \<open>The wire form of a protocol list\<close>

definition printable :: "u8 \<Rightarrow> bool" where
  "printable b \<longleftrightarrow> 0x20 \<le> b \<and> b \<le> 0x7E"

definition escape :: "u8 \<Rightarrow> bytes" where
  "escape b = (if b = 0x5C \<or> b = 0x22 then [0x5C, b] else [b])"

definition quoted :: "bytes \<Rightarrow> bytes" where
  "quoted bs = 0x22 # concat (map escape bs) @ [0x22]"

definition further_items :: "string list \<Rightarrow> bytes" where
  "further_items ps = concat (map (\<lambda>p. bstr '', '' @ quoted (as_bytes p)) ps)"

lemma encode_wt_string_eq:
  "encode_wt_string bs buf =
    (if list_all printable bs then Inr (buf @ concat (map escape bs) @ [0x22])
     else Inl ''wt_protocol validate invalid'')"
  by (induction bs buf rule: encode_wt_string.induct) (auto simp: Let_def printable_def [abs_def] escape_def [abs_def])

lemma encode_wt_items_eq:
  "0 < i \<Longrightarrow> encode_wt_items i ps buf =
    (if list_all (\<lambda>p. list_all printable (as_bytes p)) ps then Inr (buf @ further_items ps)
     else Inl ''wt_protocol validate invalid'')"
  by (induction i ps buf rule: encode_wt_items.induct)
     (auto simp: Let_def encode_wt_string_eq further_items_def quoted_def)

lemma encode_wt_protocol_list_eq:
  "encode_wt_protocol_list ps =
    (if list_all (\<lambda>p. list_all printable (as_bytes p)) ps
     then Inr (case ps of [] \<Rightarrow> [] | p # ps \<Rightarrow> quoted (as_bytes p) @ further_items ps)
     else Inl ''wt_protocol validate invalid'')"
  by (cases ps) (auto simp: encode_wt_protocol_list_def Let_def encode_wt_string_eq encode_wt_items_eq quoted_def)

lemma parse_string_loop_escaped:
  "list_all printable bs \<Longrightarrow>
   parse_string_loop (concat (map escape bs) @ 0x22 # rest) val = Some (from_bytes (val @ bs), rest)"
  by (induction bs arbitrary: val) (auto simp: escape_def [abs_def] printable_def [abs_def])

lemma parse_string_quoted:
  "list_all printable (as_bytes p) \<Longrightarrow> parse_string (quoted (as_bytes p) @ rest) = Some (p, rest)"
  by (simp add: parse_string_def first_is_def quoted_def parse_string_loop_escaped)

lemma quoted_not_Nil [simp]: "quoted bs \<noteq> []"
  by (simp add: quoted_def)

lemma discard_parameters_none: "\<not> first_is 0x3B rest \<Longrightarrow> discard_parameters rest = Some rest"
  by (simp add: discard_parameters.simps)

lemma further_items_Cons:
  "further_items (p # ps) = 0x2C # 0x20 # quoted (as_bytes p) @ further_items ps"
  by (simp add: further_items_def as_bytes_def)

lemma parse_wt_items_quoted:
  assumes "list_all (\<lambda>p. list_all printable (as_bytes p)) (p # ps)"
  shows "parse_wt_items (quoted (as_bytes p) @ further_items ps) acc = Some (acc @ p # ps)"
  using assms
proof (induction ps arbitrary: p acc)
  case Nil
  then show ?case
    by (subst parse_wt_items.simps)
       (simp add: parse_string_quoted [where rest = "[]", simplified] discard_parameters_none first_is_def
         further_items_def)
next
  case (Cons q ps)
  have "parse_wt_items (quoted (as_bytes p) @ further_items (q # ps)) acc =
      parse_wt_items (quoted (as_bytes q) @ further_items ps) (acc @ [p])"
    using Cons.prems
    by (subst parse_wt_items.simps)
       (simp add: parse_string_quoted further_items_Cons discard_parameters_none first_is_def is_blank_def quoted_def [of "as_bytes q"])
  with Cons show ?case by simp
qed

lemma parse_wt_protocol_list_quoted:
  assumes "encode_wt_protocol_list ps = Inr b" "ps \<noteq> []"
  shows "parse_wt_protocol_list b = Some ps"
proof -
  obtain p qs where ps: "ps = p # qs"
    using assms(2) by (cases ps) auto
  with assms(1) have ok: "list_all (\<lambda>p. list_all printable (as_bytes p)) (p # qs)"
    and b: "b = quoted (as_bytes p) @ further_items qs"
    by (auto simp: encode_wt_protocol_list_eq split: if_splits)
  moreover have "dropWhile (\<lambda>byte. byte = 0x20) b = b"
    by (simp add: b quoted_def)
  ultimately show ?thesis
    using parse_wt_items_quoted [OF ok, of "[]"] by (simp add: parse_wt_protocol_list_def ps)
qed

lemma printable_value: "list_all printable bs \<Longrightarrow> list_all is_header_value_byte (concat (map escape bs))"
  by (induction bs) (auto simp: printable_def escape_def is_header_value_byte_def)

lemma quoted_value: "list_all printable bs \<Longrightarrow> list_all is_header_value_byte (quoted bs)"
  by (simp add: quoted_def printable_value) (simp add: is_header_value_byte_def)

lemma further_items_value:
  "list_all (\<lambda>p. list_all printable (as_bytes p)) ps \<Longrightarrow> list_all is_header_value_byte (further_items ps)"
proof (induction ps)
  case Nil
  then show ?case by (simp add: further_items_def)
next
  case (Cons p ps)
  then show ?case
    by (simp add: further_items_Cons quoted_value) (simp add: is_header_value_byte_def)
qed

lemma last_quoted [simp]: "last (quoted bs) = 0x22" "hd (quoted bs) = 0x22"
  by (simp_all add: quoted_def)

lemma last_further_items: "ps \<noteq> [] \<Longrightarrow> last (further_items ps) = 0x22"
proof (induction ps)
  case (Cons p ps)
  then show ?case by (cases "ps = []") (auto simp: further_items_Cons further_items_def last_append)
qed simp

lemma encoded_valid_header:
  assumes "encode_wt_protocol_list ps = Inr b" "key \<in> {WT_AVAILABLE_PROTOCOLS, WT_PROTOCOL}"
  shows "is_valid_header key b"
proof -
  have key: "is_valid_header key b \<longleftrightarrow>
      \<not> (b \<noteq> [] \<and> (is_blank (hd b) \<or> is_blank (last b))) \<and> list_all is_header_value_byte b"
    using assms(2) by (auto simp: is_valid_header_def const_defs as_bytes_def is_header_name_byte_def
        is_ascii_lowercase_def is_ascii_digit_def)
  show ?thesis
  proof (cases ps)
    case Nil
    with assms(1) key show ?thesis by (simp add: encode_wt_protocol_list_eq)
  next
    case (Cons p qs)
    with assms(1) have ok: "list_all (\<lambda>p. list_all printable (as_bytes p)) (p # qs)"
      and b: "b = quoted (as_bytes p) @ further_items qs"
      by (auto simp: encode_wt_protocol_list_eq split: if_splits)
    have "last b = 0x22"
      by (cases "qs = []") (auto simp: b last_append last_further_items, simp_all add: further_items_def)
    moreover have "list_all is_header_value_byte b" "hd b = 0x22"
      using ok by (auto simp: b quoted_value further_items_value)
    ultimately show ?thesis
      by (simp add: key is_blank_def)
  qed
qed

lemma parse_string_loop_printable:
  "parse_string_loop cursor val = Some (s, rest) \<Longrightarrow> list_all printable val \<Longrightarrow> list_all printable (as_bytes s)"
  by (induction cursor val rule: parse_string_loop.induct) (auto simp: printable_def split: if_splits list.splits)

lemma parse_string_printable: "parse_string cursor = Some (s, rest) \<Longrightarrow> list_all printable (as_bytes s)"
  by (auto simp: parse_string_def dest: parse_string_loop_printable split: if_splits)

lemma parse_wt_items_printable:
  assumes "parse_wt_items cursor acc = Some ps" "list_all (\<lambda>p. list_all printable (as_bytes p)) acc"
  shows "ps \<noteq> [] \<and> list_all (\<lambda>p. list_all printable (as_bytes p)) ps"
  using assms
proof (induction cursor acc rule: parse_wt_items.induct)
  case (1 cursor acc)
  note eq = "1.prems"(1) [unfolded parse_wt_items.simps [of cursor]]
  show ?case
  proof (cases "cursor = []")
    case True
    with eq "1.prems"(2) show ?thesis by (auto split: if_splits)
  next
    case False
    with eq obtain p c1 c2 where p: "parse_string cursor = Some (p, c1)" "discard_parameters c1 = Some c2"
      by (auto split: option.splits)
    have acc: "list_all (\<lambda>p. list_all printable (as_bytes p)) (acc @ [p])"
      using "1.prems"(2) parse_string_printable [OF p(1)] by simp
    show ?thesis
    proof (cases "dropWhile is_blank c2")
      case Nil
      with eq False p acc show ?thesis by auto
    next
      case (Cons byte c3)
      with eq False p obtain b c4 where c: "byte = 0x2C" "dropWhile is_blank c3 = b # c4"
        "parse_wt_items (b # c4) (acc @ [p]) = Some ps"
        by (auto split: list.splits if_splits)
      with "1.IH" [OF False p(1) refl p(2) Cons _ c(2) c(3)] acc show ?thesis by simp
    qed
  qed
qed



text \<open>
  Whatever the parser accepts is a non-empty list of printable protocol names that the
  encoder can send again, and sending it again gives the same list: parsing is idempotent up to
  the parameters and blanks it discards.
\<close>

theorem wt_protocol_list_canonical:
  assumes "parse_wt_protocol_list header = Some ps"
  shows "ps \<noteq> [] \<and> (\<exists>b. encode_wt_protocol_list ps = Inr b \<and> parse_wt_protocol_list b = Some ps)"
proof -
  have ok: "ps \<noteq> []" "list_all (\<lambda>p. list_all printable (as_bytes p)) ps"
    using parse_wt_items_printable [of _ "[]" ps] assms by (auto simp: parse_wt_protocol_list_def)
  then obtain b where "encode_wt_protocol_list ps = Inr b"
    by (auto simp: encode_wt_protocol_list_eq)
  with ok parse_wt_protocol_list_quoted show ?thesis by blast
qed

theorem wt_protocol_list_canonical_witness:
  "parse_wt_protocol_list (bstr '' \"h3\";q=1.5 ,\"b\"'') = Some [''h3'', ''b'']
   \<and> (\<exists>b. encode_wt_protocol_list [''h3'', ''b''] = Inr b)"
proof -
  have "parse_wt_protocol_list (bstr '' \"h3\";q=1.5 ,\"b\"'') = Some [''h3'', ''b'']"
    by code_simp
  with wt_protocol_list_canonical show ?thesis by blast
qed

text \<open>
  A negotiated protocol name is a printable string; encoded as a one-element list it is read
  back by the parser of the \<open>wt-protocol\<close> header, which refuses a second item.
\<close>

theorem wt_protocol_string_roundtrip:
  assumes "encode_wt_protocol_list [p] = Inr b"
  shows "parse_wt_protocol_string b = Some p \<and> parse_wt_protocol_string (b @ bstr '', '' @ b) = None"
proof -
  have ok: "list_all printable (as_bytes p)" and b: "b = quoted (as_bytes p)"
    using assms by (auto simp: encode_wt_protocol_list_eq further_items_def split: if_splits)
  have skip: "dropWhile (\<lambda>byte. byte = 0x20) (b @ rest) = b @ rest" for rest
    by (simp add: b quoted_def)
  have "parse_string (b @ rest) = Some (p, rest)" for rest
    using parse_string_quoted [OF ok] by (simp add: b)
  with skip skip [of "[]"] this [of "[]"] show ?thesis
    by (simp add: parse_wt_protocol_string_def discard_parameters_none first_is_def as_bytes_def)
qed

theorem wt_protocol_string_roundtrip_witness:
  "\<exists>b. encode_wt_protocol_list [''chat''] = Inr b \<and> parse_wt_protocol_string b = Some ''chat''"
proof -
  have e: "encode_wt_protocol_list [''chat''] = Inr (quoted (as_bytes ''chat'') @ further_items [])"
    by (simp add: encode_wt_protocol_list_eq as_bytes_def printable_def)
  from wt_protocol_string_roundtrip [OF e] e show ?thesis by simp
qed

end
