(* ===== verification/Events.thy ===== *)
theory Events
  imports Codes
begin

text \<open>
  The data the components exchange: the enumerations of \<open>common/types.rs\<close>, the
  diagnostics snapshots, and the \<open>Effect\<close> and \<open>RequestResult\<close> enumerations of
  \<open>protocol/events.rs\<close>.  A method \<open>&mut self -> Vec<Effect>\<close> of the source is a
  function to a pair of the effects and the new state.  Constructors keep the source's
  names and the order of their fields; a constructor name that two enumerations share is
  written qualified.  The optional fields of \<open>EmitSessionEvent\<close> are a record whose default,
  \<open>no_fields\<close>, has every field \<open>None\<close>, as most call sites leave them.
\<close>

subsection \<open>Enumerations of common/types.rs\<close>

datatype ConnectionState = Closed | Closing | Connected | Connecting | Idle

datatype ErrorSource = Connection | Datagram | Session | Stream | Unspecified

datatype EventType =
    ConnectionClosed | ConnectionEstablished
  | SessionClosed | SessionDataBlocked | SessionDraining | SessionMaxDataUpdated
  | SessionMaxStreamsBidiUpdated | SessionMaxStreamsUniUpdated | SessionPending | SessionReady
  | SessionRequestReceived | SessionStreamsBlocked
  | StreamClosed | StreamOpened | StreamResetReceived | StreamStopSendingReceived

datatype SessionState = Closed | Closing | Connected | Connecting | Draining

datatype StreamReceiveState = DataRead | DataReceived | Receive | ResetRead

datatype StreamSendState = DataReceived | DataSent | Ready | ResetSent

subsection \<open>Diagnostics\<close>

record StreamDiagnostics =
  sd_created_at :: f64
  sd_direction :: StreamDirection
  sd_is_peer_initiated :: bool
  sd_receive_error_code :: "ErrorCode option"
  sd_receive_state :: "StreamReceiveState option"
  sd_send_error_code :: "ErrorCode option"
  sd_send_state :: "StreamSendState option"
  sd_session_id :: SessionId
  sd_stream_id :: StreamId

record SessionDiagnostics =
  ssd_close_code :: "ErrorCode option"
  ssd_close_reason :: "string option"
  ssd_closed_at :: "f64 option"
  ssd_created_at :: f64
  ssd_data_consumed :: u64
  ssd_data_received :: u64
  ssd_data_sent :: u64
  ssd_flow_control_negotiated :: bool
  ssd_headers :: Headers
  ssd_is_client :: bool
  ssd_local_max_data :: u64
  ssd_local_max_streams_bidi :: u64
  ssd_local_max_streams_uni :: u64
  ssd_local_streams_bidi_opened :: u64
  ssd_local_streams_uni_opened :: u64
  ssd_path :: string
  ssd_peer_max_data :: u64
  ssd_peer_max_streams_bidi :: u64
  ssd_peer_max_streams_uni :: u64
  ssd_peer_streams_bidi_closed :: u64
  ssd_peer_streams_bidi_opened :: u64
  ssd_peer_streams_uni_closed :: u64
  ssd_peer_streams_uni_opened :: u64
  ssd_ready_at :: "f64 option"
  ssd_session_id :: SessionId
  ssd_state :: SessionState
  ssd_wt_available_protocols :: "string list option"
  ssd_wt_protocol :: "string option"

record ConnectionDiagnostics =
  cd_close_code :: "ErrorCode option"
  cd_close_reason :: "string option"
  cd_closed_at :: "f64 option"
  cd_connected_at :: "f64 option"
  cd_connection_handle :: ConnectionHandle
  cd_handshake_completed :: bool
  cd_is_client :: bool
  cd_local_goaway_sent :: bool
  cd_peer_goaway_received :: bool
  cd_peer_initial_max_data :: u64
  cd_peer_initial_max_streams_bidi :: u64
  cd_peer_initial_max_streams_uni :: u64
  cd_peer_max_datagram_frame_size :: "u64 option"
  cd_peer_settings_received :: bool
  cd_state :: ConnectionState

subsection \<open>Effects\<close>

datatype RequestResult =
    ConnectionDiagnostics ConnectionDiagnostics
  | ConnectionHandle ConnectionHandle
  | Datagram bytes
  | KeyingMaterial bytes
  | ResultNone
  | ReadData bytes
  | SessionDiagnostics SessionDiagnostics
  | SessionId SessionId
  | StreamDiagnostics StreamDiagnostics
  | StreamId StreamId

record SessionEventFields =
  ev_path :: "string option"
  ev_headers :: "Headers option"
  ev_wt_available_protocols :: "string list option"
  ev_wt_protocol :: "string option"
  ev_data :: "bytes option"
  ev_is_unidirectional :: "bool option"
  ev_max_data :: "u64 option"
  ev_max_streams :: "u64 option"
  ev_ready_at :: "f64 option"
  ev_status_code :: "u16 option"
  ev_error_code :: "ErrorCode option"
  ev_reason :: "string option"

definition no_fields :: SessionEventFields where
  "no_fields = \<lparr>ev_path = None, ev_headers = None, ev_wt_available_protocols = None,
    ev_wt_protocol = None, ev_data = None, ev_is_unidirectional = None, ev_max_data = None,
    ev_max_streams = None, ev_ready_at = None, ev_status_code = None, ev_error_code = None,
    ev_reason = None\<rparr>"

datatype Effect =
    CloseQuicConnection ErrorCode "string option"
  | CreateH3ConnectStream RequestId string string Headers
  | CreateH3LocalStreams
  | CreateQuicStream RequestId SessionId bool
  | EmitConnectionEvent ConnectionHandle EventType "ErrorCode option" "string option"
  | EmitSessionEvent SessionId EventType SessionEventFields
  | EmitStreamEvent StreamId EventType "SessionId option" "StreamDirection option" "bool option" "ErrorCode option"
  | ExportTlsKeyingMaterial RequestId string bytes u32
  | NotifyRequestDone RequestId RequestResult
  | NotifyRequestFailed RequestId ErrorSource "ErrorCode option" string
  | ReceiveQuicData StreamId u64
  | ResetQuicStream StreamId ErrorCode
  | SendH3Capsule StreamId u64 bytes bool
  | SendH3Datagram SessionId bytes
  | SendH3Goaway u64
  | SendH3Headers StreamId Headers bool
  | SendQuicData StreamId bytes bool
  | SendQuicDatagram bytes bytes
  | StopQuicStream StreamId ErrorCode

type_synonym effects = "Effect list"

subsection \<open>Observations on effects\<close>

text \<open>The requests an effect answers, and the bytes it puts on a stream.\<close>

fun answers :: "Effect \<Rightarrow> RequestId list" where
  "answers (NotifyRequestDone r _) = [r]"
| "answers (NotifyRequestFailed r _ _ _) = [r]"
| "answers _ = []"

definition answered :: "effects \<Rightarrow> RequestId list" where
  "answered es = concat (map answers es)"

fun stream_bytes :: "StreamId \<Rightarrow> Effect \<Rightarrow> bytes" where
  "stream_bytes sid (SendQuicData sid' d _) = (if sid' = sid then d else [])"
| "stream_bytes sid _ = []"

definition sent_bytes :: "StreamId \<Rightarrow> effects \<Rightarrow> bytes" where
  "sent_bytes sid es = concat (map (stream_bytes sid) es)"

fun is_fin :: "StreamId \<Rightarrow> Effect \<Rightarrow> bool" where
  "is_fin sid (SendQuicData sid' _ e) \<longleftrightarrow> sid' = sid \<and> e"
| "is_fin sid _ \<longleftrightarrow> False"

lemma answered_simps [simp]:
  "answered [] = []" "answered (e # es) = answers e @ answered es" "answered (es @ fs) = answered es @ answered fs"
  by (simp_all add: answered_def)

lemma sent_bytes_simps [simp]:
  "sent_bytes sid [] = []" "sent_bytes sid (e # es) = stream_bytes sid e @ sent_bytes sid es"
  "sent_bytes sid (es @ fs) = sent_bytes sid es @ sent_bytes sid fs"
  by (simp_all add: sent_bytes_def)

end
