(* ===== verification/Machines.thy ===== *)
theory Machines
  imports Prelude "HOL-Library.Sublist"
begin

text \<open>
  The protocol components are machines: a call takes the state to a new state and a list of
  effects.  This theory runs sequences of calls and states the three contracts the component
  proofs use, each as a locale whose lemmas lift a property of one call to every sequence of
  calls: an invariant that each call keeps, the conservation of requests (every request
  submitted is answered once or still held), and the order of a byte pipe (what is emitted is
  a prefix of what was accepted, and all of it unless the pipe is broken).
\<close>

fun run_calls :: "('c \<Rightarrow> 's \<Rightarrow> 'e list \<times> 's) \<Rightarrow> 's \<Rightarrow> 'c list \<Rightarrow> 'e list \<times> 's" where
  "run_calls step s [] = ([], s)"
| "run_calls step s (c # cs) =
    (let (es, s) = step c s; (fs, s) = run_calls step s cs in (es @ fs, s))"

text \<open>Every call of the sequence is admissible in the state it reaches.\<close>

fun calls_ok :: "('c \<Rightarrow> 's \<Rightarrow> 'e list \<times> 's) \<Rightarrow> ('c \<Rightarrow> 's \<Rightarrow> bool) \<Rightarrow> 's \<Rightarrow> 'c list \<Rightarrow> bool" where
  "calls_ok step ok s [] \<longleftrightarrow> True"
| "calls_ok step ok s (c # cs) \<longleftrightarrow> ok c s \<and> calls_ok step ok (snd (step c s)) cs"

text \<open>What the calls of a sequence accept, each in the state it reaches.\<close>

fun run_accepts :: "('c \<Rightarrow> 's \<Rightarrow> 'e list \<times> 's) \<Rightarrow> ('c \<Rightarrow> 's \<Rightarrow> 'b list) \<Rightarrow> 's \<Rightarrow> 'c list \<Rightarrow> 'b list" where
  "run_accepts step accepts s [] = []"
| "run_accepts step accepts s (c # cs) = accepts c s @ run_accepts step accepts (snd (step c s)) cs"

lemma run_calls_Cons:
  "fst (run_calls step s (c # cs)) = fst (step c s) @ fst (run_calls step (snd (step c s)) cs)"
  "snd (run_calls step s (c # cs)) = snd (run_calls step (snd (step c s)) cs)"
  by (simp_all add: Let_def split: prod.splits)

declare run_calls.simps(2) [simp del]
declare run_calls_Cons [simp]

lemma run_calls_append:
  "fst (run_calls step s (cs @ ds)) = fst (run_calls step s cs) @ fst (run_calls step (snd (run_calls step s cs)) ds)"
  "snd (run_calls step s (cs @ ds)) = snd (run_calls step (snd (run_calls step s cs)) ds)"
  by (induction cs arbitrary: s) simp_all

lemma calls_ok_append:
  "calls_ok step ok s (cs @ ds) \<longleftrightarrow> calls_ok step ok s cs \<and> calls_ok step ok (snd (run_calls step s cs)) ds"
  by (induction cs arbitrary: s) simp_all

subsection \<open>Invariants\<close>

locale invariant_machine =
  fixes step :: "'c \<Rightarrow> 's \<Rightarrow> 'e list \<times> 's"
    and ok :: "'c \<Rightarrow> 's \<Rightarrow> bool"
    and inv :: "'s \<Rightarrow> bool"
  assumes step_inv: "inv s \<Longrightarrow> ok c s \<Longrightarrow> inv (snd (step c s))"
begin

lemma run_inv: "inv s \<Longrightarrow> calls_ok step ok s cs \<Longrightarrow> inv (snd (run_calls step s cs))"
  by (induction cs arbitrary: s) (simp_all add: step_inv)

end

subsection \<open>Requests\<close>

locale request_machine = invariant_machine step ok inv
  for step :: "'c \<Rightarrow> 's \<Rightarrow> 'e list \<times> 's" and ok :: "'c \<Rightarrow> 's \<Rightarrow> bool" and inv :: "'s \<Rightarrow> bool" +
  fixes submits :: "'c \<Rightarrow> 'r list"
    and answers :: "'e list \<Rightarrow> 'r list"
    and holds :: "'s \<Rightarrow> 'r multiset"
  assumes answers_append: "answers (es @ fs) = answers es @ answers fs"
    and answers_Nil: "answers [] = []"
    and conserve: "inv s \<Longrightarrow> ok c s \<Longrightarrow>
      mset (answers (fst (step c s))) + holds (snd (step c s)) = holds s + mset (submits c)"
begin

lemma run_conserve:
  assumes "inv s" and "calls_ok step ok s cs"
  shows "mset (answers (fst (run_calls step s cs))) + holds (snd (run_calls step s cs)) =
    holds s + mset (concat (map submits cs))"
  using assms
proof (induction cs arbitrary: s)
  case Nil
  then show ?case by (simp add: answers_Nil)
next
  case (Cons c cs)
  let ?s = "snd (step c s)"
  have "mset (answers (fst (run_calls step ?s cs))) + holds (snd (run_calls step ?s cs)) =
      holds ?s + mset (concat (map submits cs))"
    using Cons step_inv by simp
  moreover have "mset (answers (fst (step c s))) + holds ?s = holds s + mset (submits c)"
    using Cons.prems by (simp add: conserve)
  ultimately show ?case
    by (simp add: answers_append) (metis add.assoc add.commute)
qed

lemma run_once:
  assumes "inv s" "calls_ok step ok s cs" "holds s = {#}" "distinct (concat (map submits cs))"
  shows "distinct (answers (fst (run_calls step s cs)))"
    and "set (answers (fst (run_calls step s cs))) \<inter> set_mset (holds (snd (run_calls step s cs))) = {}"
    and "set (concat (map submits cs)) =
      set (answers (fst (run_calls step s cs))) \<union> set_mset (holds (snd (run_calls step s cs)))"
proof -
  let ?A = "answers (fst (run_calls step s cs))" and ?H = "holds (snd (run_calls step s cs))"
  have eq: "mset ?A + ?H = mset (concat (map submits cs))"
    using run_conserve [OF assms(1,2)] assms(3) by simp
  have one: "count (mset ?A) x + count ?H x \<le> 1" for x
    using eq assms(4) by (metis count_union distinct_count_atmost_1 le_eq_less_or_eq nat_le_linear zero_le_one)
  show "distinct ?A"
    unfolding distinct_count_atmost_1
  proof
    fix x
    show "count (mset ?A) x = (if x \<in> set ?A then 1 else 0)"
    proof (cases "x \<in> set ?A")
      case True
      then have "0 < count (mset ?A) x"
        by (metis count_greater_zero_iff in_multiset_in_set)
      with one [of x] have "count (mset ?A) x = 1" by linarith
      with True show ?thesis by simp
    qed (simp add: count_mset_0_iff)
  qed
  show "set ?A \<inter> set_mset ?H = {}"
  proof (rule ccontr)
    assume "set ?A \<inter> set_mset ?H \<noteq> {}"
    then obtain x where "x \<in># mset ?A" "x \<in># ?H" by auto
    then have "count (mset ?A) x \<ge> 1" "count ?H x \<ge> 1" by simp_all
    with one [of x] show False by simp
  qed
  show "set (concat (map submits cs)) = set ?A \<union> set_mset ?H"
    using eq by (metis set_mset_mset set_mset_union)
qed

end

subsection \<open>Byte pipes\<close>

locale pipe_machine = invariant_machine step ok inv
  for step :: "'c \<Rightarrow> 's \<Rightarrow> 'e list \<times> 's" and ok :: "'c \<Rightarrow> 's \<Rightarrow> bool" and inv :: "'s \<Rightarrow> bool" +
  fixes accepts :: "'c \<Rightarrow> 's \<Rightarrow> 'b list"
    and emits :: "'s \<Rightarrow> 'e list \<Rightarrow> 'b list"
    and buffered :: "'s \<Rightarrow> 'b list"
    and broken :: "'s \<Rightarrow> bool"
  assumes emits_append: "emits s (es @ fs) = emits s es @ emits s fs"
    and emits_Nil: "emits s [] = []"
    and emits_step: "inv s \<Longrightarrow> ok c s \<Longrightarrow> emits (snd (step c s)) = emits s"
    and flow: "inv s \<Longrightarrow> ok c s \<Longrightarrow> \<not> broken (snd (step c s)) \<Longrightarrow>
      emits s (fst (step c s)) @ buffered (snd (step c s)) = buffered s @ accepts c s"
    and break_silent: "inv s \<Longrightarrow> ok c s \<Longrightarrow> broken (snd (step c s)) \<Longrightarrow> emits s (fst (step c s)) = []"
    and broken_stays: "inv s \<Longrightarrow> ok c s \<Longrightarrow> broken s \<Longrightarrow> broken (snd (step c s))"
begin

lemma run_broken:
  assumes "inv s" "calls_ok step ok s cs" "broken s"
  shows "broken (snd (run_calls step s cs)) \<and> emits s (fst (run_calls step s cs)) = []"
  using assms
proof (induction cs arbitrary: s)
  case Nil
  then show ?case by (simp add: emits_Nil)
next
  case (Cons c cs)
  have "emits (snd (step c s)) = emits s"
    using Cons.prems by (simp add: emits_step)
  with Cons.IH [of "snd (step c s)"] Cons.prems show ?case
    by (simp add: step_inv broken_stays break_silent emits_append)
qed

lemma run_flow:
  assumes "inv s" "calls_ok step ok s cs" "\<not> broken (snd (run_calls step s cs))"
  shows "emits s (fst (run_calls step s cs)) @ buffered (snd (run_calls step s cs)) =
    buffered s @ run_accepts step accepts s cs"
  using assms
proof (induction cs arbitrary: s)
  case Nil
  then show ?case by (simp add: emits_Nil)
next
  case (Cons c cs)
  let ?s = "snd (step c s)"
  have s: "inv ?s" "calls_ok step ok ?s cs" "emits ?s = emits s"
    using Cons.prems by (simp_all add: step_inv emits_step)
  have "\<not> broken ?s"
    using run_broken [OF s(1,2)] Cons.prems(3) by auto
  then have "emits s (fst (step c s)) @ buffered ?s = buffered s @ accepts c s"
    using Cons.prems flow by simp
  moreover have "emits s (fst (run_calls step ?s cs)) @ buffered (snd (run_calls step ?s cs)) =
      buffered ?s @ run_accepts step accepts ?s cs"
    using Cons.IH [OF s(1,2)] s(3) Cons.prems(3) by simp
  ultimately show ?case
    by (simp add: emits_append)
qed

lemma run_prefix:
  assumes "inv s" "calls_ok step ok s cs"
  shows "prefix (emits s (fst (run_calls step s cs))) (buffered s @ run_accepts step accepts s cs)"
  using assms
proof (induction cs arbitrary: s)
  case Nil
  then show ?case by (simp add: emits_Nil)
next
  case (Cons c cs)
  let ?s = "snd (step c s)"
  have s: "inv ?s" "calls_ok step ok ?s cs" "emits ?s = emits s"
    using Cons.prems by (simp_all add: step_inv emits_step)
  show ?case
  proof (cases "broken ?s")
    case True
    then have "emits s (fst (run_calls step ?s cs)) = []"
      using run_broken [OF s(1,2)] s(3) by simp
    with True Cons.prems show ?thesis by (simp add: emits_append break_silent)
  next
    case False
    then have "emits s (fst (step c s)) @ buffered ?s = buffered s @ accepts c s"
      using Cons.prems flow by simp
    moreover have "prefix (emits s (fst (run_calls step ?s cs))) (buffered ?s @ run_accepts step accepts ?s cs)"
      using Cons.IH [OF s(1,2)] s(3) by simp
    ultimately have "prefix (emits s (fst (step c s)) @ emits s (fst (run_calls step ?s cs)))
        ((buffered s @ accepts c s) @ run_accepts step accepts ?s cs)"
      by (metis append.assoc same_prefix_prefix)
    then show ?thesis by (simp add: emits_append)
  qed
qed

end

end
