(* ===== verification/WtStream.thy ===== *)
theory WtStream
  imports Events Machines
begin

text \<open>
  The state machine of one WebTransport stream (\<open>protocol/stream.rs\<close>): the send side with its
  bounded write buffer and the single write in flight, the receive side with its queue of
  pending reads, and the transitions on acknowledgements, resets and stop requests.
  \<open>flush_writes\<close>, \<open>complete_write\<close> and \<open>write\<close> also return the bytes they sent, which the
  session charges to its flow-control credit.
\<close>

record StreamParameters =
  sp_max_write_buffer_size :: u64

record Stream =
  stm_created_at :: f64
  stm_direction :: StreamDirection
  stm_id :: StreamId
  stm_is_peer_initiated :: bool
  stm_max_write_buffer_size :: u64
  stm_pending_read_requests :: "(RequestId \<times> u64) list"
  stm_pending_write_request :: "RequestId option"
  stm_receive_error_code :: "ErrorCode option"
  stm_receive_state :: "StreamReceiveState option"
  stm_send_error_code :: "ErrorCode option"
  stm_send_state :: "StreamSendState option"
  stm_session_id :: SessionId
  stm_write_buffer :: "(bytes \<times> RequestId \<times> bool) list"
  stm_write_buffer_size :: u64

definition stream_new ::
    "StreamId \<Rightarrow> SessionId \<Rightarrow> StreamDirection \<Rightarrow> bool \<Rightarrow> StreamParameters \<Rightarrow> f64 \<Rightarrow> Stream" where
  "stream_new stream_id session_id direction is_peer_initiated parameters created_at =
    \<lparr>stm_created_at = created_at,
     stm_direction = direction,
     stm_id = stream_id,
     stm_is_peer_initiated = is_peer_initiated,
     stm_max_write_buffer_size = sp_max_write_buffer_size parameters,
     stm_pending_read_requests = [],
     stm_pending_write_request = None,
     stm_receive_error_code = None,
     stm_receive_state = (if direction \<noteq> SendOnly then Some Receive else None),
     stm_send_error_code = None,
     stm_send_state = (if direction \<noteq> ReceiveOnly then Some Ready else None),
     stm_session_id = session_id,
     stm_write_buffer = [],
     stm_write_buffer_size = 0\<rparr>"

definition write_front_is :: "(bytes \<times> RequestId \<times> bool) list \<Rightarrow> RequestId \<Rightarrow> bool" where
  "write_front_is buffer request_id =
    (case buffer of [] \<Rightarrow> False | (_, write_request_id, _) # _ \<Rightarrow> write_request_id = request_id)"

definition stream_abort_failure :: "ErrorCode option \<Rightarrow> RequestId \<Rightarrow> Effect" where
  "stream_abort_failure error_code request_id =
    NotifyRequestFailed request_id ErrorSource.Stream error_code ''wt_stream abort''"

definition stream_send_reset :: "Stream \<Rightarrow> ErrorCode option \<Rightarrow> ErrorCode \<Rightarrow> effects \<times> Stream" where
  "stream_send_reset self error_code http_error_code =
    (if stm_send_state self \<in> {None, Some StreamSendState.DataReceived, Some ResetSent} then ([], self)
     else
       ([ResetQuicStream (stm_id self) http_error_code]
        @ (case stm_pending_write_request self of
             None \<Rightarrow> []
           | Some request_id \<Rightarrow>
               if \<not> write_front_is (stm_write_buffer self) request_id
               then [stream_abort_failure error_code request_id] else [])
        @ map (\<lambda>(_, request_id, _). stream_abort_failure error_code request_id) (stm_write_buffer self),
        self\<lparr>stm_send_error_code := error_code,
             stm_send_state := Some ResetSent,
             stm_write_buffer_size := 0,
             stm_pending_write_request := None,
             stm_write_buffer := []\<rparr>))"

definition stream_send_stop :: "Stream \<Rightarrow> ErrorCode option \<Rightarrow> ErrorCode \<Rightarrow> effects \<times> Stream" where
  "stream_send_stop self error_code http_error_code =
    (if stm_receive_state self \<notin> {Some Receive, Some StreamReceiveState.DataReceived} then ([], self)
     else
       ((if stm_receive_state self = Some Receive then [StopQuicStream (stm_id self) http_error_code] else [])
        @ map (\<lambda>(request_id, _). stream_abort_failure error_code request_id) (stm_pending_read_requests self),
        self\<lparr>stm_receive_error_code := error_code,
             stm_receive_state := Some ResetRead,
             stm_pending_read_requests := []\<rparr>))"

definition stream_abort :: "Stream \<Rightarrow> ErrorCode \<Rightarrow> effects \<times> Stream" where
  "stream_abort self error_code =
    (let (reset_effects, self) = stream_send_reset self (Some error_code) error_code;
         (stop_effects, self) = stream_send_stop self (Some error_code) error_code
     in (reset_effects @ stop_effects, self))"

definition stream_flush_writes :: "Stream \<Rightarrow> u64 \<Rightarrow> effects \<times> u64 \<times> Stream" where
  "stream_flush_writes self available_credit =
    (if stm_pending_write_request self \<noteq> None \<or> stm_send_state self \<noteq> Some Ready then ([], 0, self)
     else
       case stm_write_buffer self of
         [] \<Rightarrow> ([], 0, self)
       | (data, request_id, end_stream) # write_buffer \<Rightarrow>
           (let data_len = len64 data in
            if data_len > 0 \<and> available_credit = 0 then ([], 0, self)
            else
              (let is_request_complete = data_len \<le> available_credit;
                   sendable = unat available_credit;
                   write_buffer = (if is_request_complete then write_buffer
                     else (drop sendable data, request_id, end_stream) # write_buffer);
                   data = (if is_request_complete then data else take sendable data);
                   sent = len64 data;
                   is_finished = is_request_complete \<and> end_stream
               in ([SendQuicData (stm_id self) data is_finished],
                   sent,
                   self\<lparr>stm_write_buffer := write_buffer,
                        stm_write_buffer_size := stm_write_buffer_size self - sent,
                        stm_pending_write_request := Some request_id,
                        stm_send_state := (if is_finished then Some DataSent else stm_send_state self)\<rparr>))))"

definition stream_complete_write :: "Stream \<Rightarrow> u64 \<Rightarrow> effects \<times> u64 \<times> Stream" where
  "stream_complete_write self available_credit =
    (case stm_pending_write_request self of
       None \<Rightarrow> ([], 0, self)
     | Some request_id \<Rightarrow>
         (let self = self\<lparr>stm_pending_write_request := None\<rparr>;
              is_request_complete = \<not> write_front_is (stm_write_buffer self) request_id;
              effects = (if is_request_complete then [NotifyRequestDone request_id ResultNone] else []);
              (flush_effects, sent, self) = stream_flush_writes self available_credit
          in (effects @ flush_effects, sent, self)))"

definition stream_diagnostics_snapshot :: "Stream \<Rightarrow> StreamDiagnostics" where
  "stream_diagnostics_snapshot self =
    \<lparr>sd_created_at = stm_created_at self,
     sd_direction = stm_direction self,
     sd_is_peer_initiated = stm_is_peer_initiated self,
     sd_receive_error_code = stm_receive_error_code self,
     sd_receive_state = stm_receive_state self,
     sd_send_error_code = stm_send_error_code self,
     sd_send_state = stm_send_state self,
     sd_session_id = stm_session_id self,
     sd_stream_id = stm_id self\<rparr>"

definition stream_diagnose :: "Stream \<Rightarrow> RequestId \<Rightarrow> effects" where
  "stream_diagnose self request_id =
    [NotifyRequestDone request_id (RequestResult.StreamDiagnostics (stream_diagnostics_snapshot self))]"

definition stream_handle_data_acknowledged :: "Stream \<Rightarrow> Stream" where
  "stream_handle_data_acknowledged self =
    (if stm_send_state self = Some DataSent
     then self\<lparr>stm_send_state := Some StreamSendState.DataReceived\<rparr> else self)"

definition stream_is_blocked :: "Stream \<Rightarrow> bool" where
  "stream_is_blocked self \<longleftrightarrow> stm_pending_write_request self = None \<and> stm_write_buffer self \<noteq> []"

definition stream_is_closed :: "Stream \<Rightarrow> bool" where
  "stream_is_closed self =
    (let is_receive_terminated = (case stm_receive_state self of
           None \<Rightarrow> True | Some receive_state \<Rightarrow> receive_state \<in> {DataRead, ResetRead});
         is_send_terminated = (case stm_send_state self of
           None \<Rightarrow> True | Some send_state \<Rightarrow> send_state \<in> {StreamSendState.DataReceived, ResetSent})
     in is_receive_terminated \<and> is_send_terminated)"

definition stream_request_failure :: "RequestId \<Rightarrow> ErrorCode option \<Rightarrow> string \<Rightarrow> Effect" where
  "stream_request_failure request_id error_code reason =
    NotifyRequestFailed request_id ErrorSource.Stream error_code reason"

definition stream_read :: "Stream \<Rightarrow> RequestId \<Rightarrow> u64 \<Rightarrow> effects \<times> Stream" where
  "stream_read self request_id max_size =
    (case stm_receive_state self of
       None \<Rightarrow>
         ([stream_request_failure request_id (Some ERR_LIB_STREAM_STATE_ERROR) ''wt_stream validate invalid''], self)
     | Some receive_state \<Rightarrow>
         if receive_state = Receive \<and> max_size > 0 then
           (let self = self\<lparr>stm_pending_read_requests := stm_pending_read_requests self @ [(request_id, max_size)]\<rparr>
            in if length (stm_pending_read_requests self) = 1
               then ([ReceiveQuicData (stm_id self) max_size], self) else ([], self))
         else if receive_state = ResetRead then
           ([stream_request_failure request_id (stm_receive_error_code self) ''wt_stream validate failed''], self)
         else
           ([NotifyRequestDone request_id (ReadData [])],
            if receive_state = StreamReceiveState.DataReceived \<and> max_size > 0
            then self\<lparr>stm_receive_state := Some DataRead\<rparr> else self))"

text \<open>\<open>recv_data\<close>: the front request takes the data, then the end of the stream answers the
  remaining ones with an empty read.\<close>

definition stream_deliver :: "Stream \<Rightarrow> bytes \<Rightarrow> bool \<Rightarrow> effects \<times> Stream" where
  "stream_deliver self data end_stream =
    (case stm_pending_read_requests self of
       [] \<Rightarrow> ([], self)
     | (request_id, _) # pending \<Rightarrow>
         (let is_data_delivered = data \<noteq> [];
              self = self\<lparr>stm_pending_read_requests := pending\<rparr>
          in ([NotifyRequestDone request_id (ReadData data)],
              if end_stream \<and> \<not> is_data_delivered
              then self\<lparr>stm_receive_state := Some DataRead\<rparr> else self)))"

definition stream_deliver_end :: "Stream \<Rightarrow> effects \<times> Stream" where
  "stream_deliver_end self =
    (let self = (if stm_receive_state self = Some Receive
                 then self\<lparr>stm_receive_state := Some StreamReceiveState.DataReceived\<rparr> else self);
         pending = stm_pending_read_requests self
     in (map (\<lambda>(request_id, _). NotifyRequestDone request_id (ReadData [])) pending,
         self\<lparr>stm_pending_read_requests := [],
              stm_receive_state := (if pending \<noteq> [] then Some DataRead else stm_receive_state self)\<rparr>))"

definition stream_recv_data :: "Stream \<Rightarrow> bytes \<Rightarrow> bool \<Rightarrow> effects \<times> Stream" where
  "stream_recv_data self data end_stream =
    (if stm_receive_state self \<noteq> Some Receive then ([], self)
     else
       (let (effects, self) = stream_deliver self data end_stream
        in if end_stream then
             (let (end_effects, self) = stream_deliver_end self in (effects @ end_effects, self))
           else
             (case stm_pending_read_requests self of
                [] \<Rightarrow> (effects, self)
              | (_, max_size) # _ \<Rightarrow> (effects @ [ReceiveQuicData (stm_id self) max_size], self))))"

definition stream_recv_reset :: "Stream \<Rightarrow> ErrorCode \<Rightarrow> effects \<times> Stream" where
  "stream_recv_reset self error_code =
    (if stm_receive_state self \<in> {None, Some DataRead, Some ResetRead} then ([], self)
     else
       (let application_error_code = map_option ucast (http_code_to_webtransport_code error_code)
        in (EmitStreamEvent (stm_id self) StreamResetReceived None None None application_error_code
            # map (\<lambda>(request_id, _). stream_abort_failure application_error_code request_id)
                (stm_pending_read_requests self),
            self\<lparr>stm_receive_error_code := application_error_code,
                 stm_receive_state := Some ResetRead,
                 stm_pending_read_requests := []\<rparr>)))"

definition stream_recv_stop_sending :: "Stream \<Rightarrow> ErrorCode \<Rightarrow> effects \<times> Stream" where
  "stream_recv_stop_sending self error_code =
    (if stm_send_state self \<in> {None, Some StreamSendState.DataReceived, Some ResetSent} then ([], self)
     else
       (let application_error_code = map_option ucast (http_code_to_webtransport_code error_code);
            (reset_effects, self') = stream_send_reset self application_error_code error_code
        in (EmitStreamEvent (stm_id self) StreamStopSendingReceived None None None application_error_code
            # reset_effects, self')))"

text \<open>The application error code of a user reset or stop as an HTTP/3 code.\<close>

definition user_http_error_code :: "ErrorCode \<Rightarrow> ErrorCode" where
  "user_http_error_code error_code =
    (case u32_try_from error_code of
       Some code \<Rightarrow> webtransport_code_to_http_code code
     | None \<Rightarrow> ERR_WT_APPLICATION_ERROR_FIRST)"

definition stream_reset :: "Stream \<Rightarrow> RequestId \<Rightarrow> ErrorCode \<Rightarrow> effects \<times> Stream" where
  "stream_reset self request_id error_code =
    (case stm_send_state self of
       None \<Rightarrow>
         ([stream_request_failure request_id (Some ERR_LIB_STREAM_STATE_ERROR) ''wt_stream validate invalid''], self)
     | Some send_state \<Rightarrow>
         (let (effects, self) =
                (if send_state \<notin> {StreamSendState.DataReceived, ResetSent}
                 then stream_send_reset self (Some error_code) (user_http_error_code error_code)
                 else ([], self))
          in (effects @ [NotifyRequestDone request_id ResultNone], self)))"

definition stream_stop :: "Stream \<Rightarrow> RequestId \<Rightarrow> ErrorCode \<Rightarrow> effects \<times> Stream" where
  "stream_stop self request_id error_code =
    (case stm_receive_state self of
       None \<Rightarrow>
         ([stream_request_failure request_id (Some ERR_LIB_STREAM_STATE_ERROR) ''wt_stream validate invalid''], self)
     | Some receive_state \<Rightarrow>
         (let (effects, self) =
                (if receive_state \<notin> {DataRead, ResetRead}
                 then stream_send_stop self (Some error_code) (user_http_error_code error_code)
                 else ([], self))
          in (effects @ [NotifyRequestDone request_id ResultNone], self)))"

definition write_finish_pending :: "Stream \<Rightarrow> bool" where
  "write_finish_pending self \<longleftrightarrow>
    stm_write_buffer self \<noteq> [] \<and> snd (snd (last (stm_write_buffer self)))"

definition stream_write :: "Stream \<Rightarrow> RequestId \<Rightarrow> bytes \<Rightarrow> bool \<Rightarrow> u64 \<Rightarrow> effects \<times> u64 \<times> Stream" where
  "stream_write self request_id data end_stream available_credit =
    (case stm_send_state self of
       None \<Rightarrow>
         ([stream_request_failure request_id (Some ERR_LIB_STREAM_STATE_ERROR) ''wt_stream validate invalid''], 0, self)
     | Some send_state \<Rightarrow>
         if send_state \<noteq> Ready \<or> write_finish_pending self then
           (if data = [] \<and> end_stream then ([NotifyRequestDone request_id ResultNone], 0, self)
            else ([stream_request_failure request_id (Some ERR_LIB_STREAM_STATE_ERROR) ''wt_stream validate failed''],
                  0, self))
         else
           (let data_len = len64 data in
            if stm_write_buffer_size self + data_len > stm_max_write_buffer_size self then
              ([stream_request_failure request_id (Some ERR_LIB_STREAM_STATE_ERROR) ''wt_stream validate exceeded''],
               0, self)
            else
              stream_flush_writes
                (self\<lparr>stm_write_buffer := stm_write_buffer self @ [(data, request_id, end_stream)],
                      stm_write_buffer_size := stm_write_buffer_size self + data_len\<rparr>)
                available_credit))"

subsection \<open>Calls, requests and the invariant\<close>

datatype StreamCall =
    StreamAbort ErrorCode
  | StreamCompleteWrite u64
  | StreamDiagnose RequestId
  | StreamFlush u64
  | StreamAcknowledged
  | StreamRead RequestId u64
  | StreamRecvData bytes bool
  | StreamRecvReset ErrorCode
  | StreamRecvStop ErrorCode
  | StreamReset RequestId ErrorCode
  | StreamStop RequestId ErrorCode
  | StreamWrite RequestId bytes bool u64

definition drop_sent :: "effects \<times> u64 \<times> 's \<Rightarrow> effects \<times> 's" where
  "drop_sent = (\<lambda>(es, _, s). (es, s))"

primrec stream_call :: "StreamCall \<Rightarrow> Stream \<Rightarrow> effects \<times> Stream" where
  "stream_call (StreamAbort e) s = stream_abort s e"
| "stream_call (StreamCompleteWrite credit) s = drop_sent (stream_complete_write s credit)"
| "stream_call (StreamDiagnose r) s = (stream_diagnose s r, s)"
| "stream_call (StreamFlush credit) s = drop_sent (stream_flush_writes s credit)"
| "stream_call StreamAcknowledged s = ([], stream_handle_data_acknowledged s)"
| "stream_call (StreamRead r n) s = stream_read s r n"
| "stream_call (StreamRecvData d e) s = stream_recv_data s d e"
| "stream_call (StreamRecvReset e) s = stream_recv_reset s e"
| "stream_call (StreamRecvStop e) s = stream_recv_stop_sending s e"
| "stream_call (StreamReset r e) s = stream_reset s r e"
| "stream_call (StreamStop r e) s = stream_stop s r e"
| "stream_call (StreamWrite r d e credit) s = drop_sent (stream_write s r d e credit)"

primrec stream_submits :: "StreamCall \<Rightarrow> RequestId list" where
  "stream_submits (StreamAbort e) = []"
| "stream_submits (StreamCompleteWrite credit) = []"
| "stream_submits (StreamDiagnose r) = [r]"
| "stream_submits (StreamFlush credit) = []"
| "stream_submits StreamAcknowledged = []"
| "stream_submits (StreamRead r n) = [r]"
| "stream_submits (StreamRecvData d e) = []"
| "stream_submits (StreamRecvReset e) = []"
| "stream_submits (StreamRecvStop e) = []"
| "stream_submits (StreamReset r e) = [r]"
| "stream_submits (StreamStop r e) = [r]"
| "stream_submits (StreamWrite r d e credit) = [r]"

text \<open>The write requests a stream holds: the one in flight, unless its remainder is at the
  front of the buffer, and those of the buffer.\<close>

definition stream_write_requests :: "Stream \<Rightarrow> RequestId list" where
  "stream_write_requests s =
    (case stm_pending_write_request s of
       None \<Rightarrow> []
     | Some r \<Rightarrow> if write_front_is (stm_write_buffer s) r then [] else [r])
    @ map (fst \<circ> snd) (stm_write_buffer s)"

definition stream_holds :: "Stream \<Rightarrow> RequestId multiset" where
  "stream_holds s = mset (map fst (stm_pending_read_requests s)) + mset (stream_write_requests s)"

definition buffered_bytes :: "Stream \<Rightarrow> bytes" where
  "buffered_bytes s = concat (map fst (stm_write_buffer s))"

definition stream_inv :: "Stream \<Rightarrow> bool" where
  "stream_inv s \<longleftrightarrow>
    (stm_receive_state s = None \<longleftrightarrow> stm_direction s = SendOnly)
    \<and> (stm_send_state s = None \<longleftrightarrow> stm_direction s = ReceiveOnly)
    \<and> unat (stm_write_buffer_size s) = length (buffered_bytes s)
    \<and> stm_write_buffer_size s \<le> stm_max_write_buffer_size s
    \<and> unat (stm_max_write_buffer_size s) < 2 ^ 63
    \<and> (stm_write_buffer s \<noteq> [] \<longrightarrow> stm_send_state s = Some Ready)
    \<and> (\<forall>(d, r, e) \<in> set (butlast (stm_write_buffer s)). \<not> e)
    \<and> (stm_pending_read_requests s \<noteq> [] \<longrightarrow> stm_receive_state s = Some Receive)
    \<and> (\<forall>(r, n) \<in> set (stm_pending_read_requests s). 0 < n)
    \<and> (stm_pending_write_request s \<noteq> None \<longrightarrow>
         stm_send_state s \<in> {Some Ready, Some DataSent, Some StreamSendState.DataReceived})
    \<and> distinct (stream_write_requests s)"

text \<open>A call is admissible when a write comes with a fresh request and a buffer that fits
  in memory (Rust allocations are below 2^63 bytes).\<close>

definition stream_call_ok :: "StreamCall \<Rightarrow> Stream \<Rightarrow> bool" where
  "stream_call_ok c s =
    (case c of
       StreamWrite r d e credit \<Rightarrow> r \<notin> set (stream_write_requests s) \<and> length d < 2 ^ 63
     | _ \<Rightarrow> True)"

lemmas stream_inv_defs = stream_inv_def buffered_bytes_def stream_write_requests_def write_front_is_def

subsection \<open>Flushing the write buffer\<close>

lemma flush_cases:
  obtains (idle) "stream_flush_writes s c = ([], 0, s)"
  | (full) d r e rest where "stm_pending_write_request s = None" "stm_send_state s = Some Ready"
      "stm_write_buffer s = (d, r, e) # rest" "len64 d \<le> c"
      "stream_flush_writes s c = ([SendQuicData (stm_id s) d e], len64 d,
        s\<lparr>stm_write_buffer := rest, stm_write_buffer_size := stm_write_buffer_size s - len64 d,
          stm_pending_write_request := Some r, stm_send_state := Some (if e then DataSent else Ready)\<rparr>)"
  | (part) d r e rest where "stm_pending_write_request s = None" "stm_send_state s = Some Ready"
      "stm_write_buffer s = (d, r, e) # rest" "0 < c" "c < len64 d"
      "stream_flush_writes s c = ([SendQuicData (stm_id s) (take (unat c) d) False], len64 (take (unat c) d),
        s\<lparr>stm_write_buffer := (drop (unat c) d, r, e) # rest,
          stm_write_buffer_size := stm_write_buffer_size s - len64 (take (unat c) d),
          stm_pending_write_request := Some r\<rparr>)"
proof (cases "stm_pending_write_request s \<noteq> None \<or> stm_send_state s \<noteq> Some Ready \<or> stm_write_buffer s = []")
  case True
  then have "stream_flush_writes s c = ([], 0, s)"
    by (auto simp: stream_flush_writes_def)
  with idle show ?thesis .
next
  case False
  then obtain d r e rest where s: "stm_pending_write_request s = None" "stm_send_state s = Some Ready"
    "stm_write_buffer s = (d, r, e) # rest"
    by (metis list.exhaust prod_cases3)
  consider "len64 d \<le> c" | "c = 0" "0 < len64 d" | "0 < c" "c < len64 d"
    by (metis not_less word_neq_0_conv)
  then show ?thesis
  proof cases
    case 1
    then have "\<not> (0 < len64 d \<and> c = 0)" by auto
    with 1 s show ?thesis
      by (intro full [OF s 1]) (simp add: stream_flush_writes_def Let_def)
  next
    case 2
    with s idle show ?thesis by (simp add: stream_flush_writes_def Let_def)
  next
    case 3
    then have "\<not> len64 d \<le> c" "c \<noteq> 0" by auto
    with s show ?thesis
      by (intro part [OF s 3]) (simp add: stream_flush_writes_def Let_def)
  qed
qed

lemma stream_inv_front:
  assumes "stream_inv s" "stm_write_buffer s = (d, r, e) # rest"
  shows "unat (len64 d) = length d" "length d + length (concat (map fst rest)) = unat (stm_write_buffer_size s)"
    "e \<Longrightarrow> rest = []" "\<forall>(d, r, e) \<in> set (butlast rest). \<not> e"
proof -
  have size: "length d + length (concat (map fst rest)) = unat (stm_write_buffer_size s)"
    using assms by (simp add: stream_inv_def buffered_bytes_def)
  moreover have "unat (stm_write_buffer_size s) < 2 ^ 63"
    using assms(1) by (simp add: stream_inv_def word_le_nat_alt)
  ultimately show "unat (len64 d) = length d" by (simp add: unat_len64)
  show "length d + length (concat (map fst rest)) = unat (stm_write_buffer_size s)" by (fact size)
  show "e \<Longrightarrow> rest = []" "\<forall>(d, r, e) \<in> set (butlast rest). \<not> e"
    using assms by (auto simp: stream_inv_def split: if_splits)
qed

lemma stream_inv_size: "stream_inv s \<Longrightarrow> unat (stm_write_buffer_size s) \<le> unat (stm_max_write_buffer_size s)"
  by (simp add: stream_inv_def word_le_nat_alt)

lemma flush_inv:
  assumes "stream_inv s"
  shows "stream_inv (snd (snd (stream_flush_writes s c)))"
proof (cases rule: flush_cases [of s c])
  case idle
  with assms show ?thesis by simp
next
  case (full d r e rest)
  note f = stream_inv_front [OF assms full(3)]
  have size: "unat (stm_write_buffer_size s - len64 d) = length (concat (map fst rest))"
    using f(1,2) by (simp add: unat_sub_small)
  moreover have "stm_write_buffer_size s - len64 d \<le> stm_max_write_buffer_size s"
    using stream_inv_size [OF assms] f(2) size by (simp add: word_le_nat_alt)
  ultimately show ?thesis
    using assms full f(3,4) by (auto simp: stream_inv_defs split: list.splits)
next
  case (part d r e rest)
  note f = stream_inv_front [OF assms part(3)]
  have t: "unat (len64 (take (unat c) d)) = unat c" "unat c < length d"
    using f(1) part(5) by (simp_all add: word_less_nat_alt unat_len64 min_def)
  have size: "unat (stm_write_buffer_size s - len64 (take (unat c) d)) =
      length (drop (unat c) d) + length (concat (map fst rest))"
    using f(2) t by (simp add: unat_sub_small)
  moreover have "stm_write_buffer_size s - len64 (take (unat c) d) \<le> stm_max_write_buffer_size s"
    using stream_inv_size [OF assms] f(2) size t by (simp add: word_le_nat_alt)
  ultimately show ?thesis
    using assms part f(3,4) by (auto simp: stream_inv_defs split: if_splits)
qed

lemma flush_holds:
  assumes "stream_inv s"
  shows "stream_holds (snd (snd (stream_flush_writes s c))) = stream_holds s"
    and "answered (fst (stream_flush_writes s c)) = []"
proof -
  show "stream_holds (snd (snd (stream_flush_writes s c))) = stream_holds s"
    using assms
    by (cases rule: flush_cases [of s c])
       (auto simp: stream_holds_def stream_inv_defs split: list.splits)
  show "answered (fst (stream_flush_writes s c)) = []"
    by (cases rule: flush_cases [of s c]) auto
qed

lemma flush_sent:
  assumes "stream_inv s"
  shows "fst (snd (stream_flush_writes s c)) \<le> c"
    and "unat (fst (snd (stream_flush_writes s c))) = length (sent_bytes (stm_id s) (fst (stream_flush_writes s c)))"
  using stream_inv_front(1) [OF assms]
  by (cases rule: flush_cases [of s c]; fastforce simp: word_le_nat_alt word_less_nat_alt unat_len64)+

lemma flush_flow:
  "sent_bytes (stm_id s) (fst (stream_flush_writes s c)) @ buffered_bytes (snd (snd (stream_flush_writes s c))) =
    buffered_bytes s"
  by (cases rule: flush_cases [of s c]) (auto simp: buffered_bytes_def)

lemma flush_frame [simp]:
  "stm_id (snd (snd (stream_flush_writes s c))) = stm_id s"
  "stm_direction (snd (snd (stream_flush_writes s c))) = stm_direction s"
  "stm_receive_state (snd (snd (stream_flush_writes s c))) = stm_receive_state s"
  "stm_pending_read_requests (snd (snd (stream_flush_writes s c))) = stm_pending_read_requests s"
  by (cases rule: flush_cases [of s c]; simp)+

text \<open>A blocked stream that is given credit sends at once, so it is not blocked any more.\<close>

lemma flush_unblocks:
  assumes "stream_inv s" "0 < c"
  shows "\<not> stream_is_blocked (snd (snd (stream_flush_writes s c)))"
proof (cases rule: flush_cases [of s c])
  case idle
  with assms show ?thesis
    by (auto simp: stream_flush_writes_def stream_is_blocked_def stream_inv_def Let_def split: list.splits if_splits)
qed (simp_all add: stream_is_blocked_def)

subsection \<open>Every call keeps the invariant\<close>

lemma in_set_tl: "x \<in> set (tl xs) \<Longrightarrow> x \<in> set xs"
  by (cases xs) auto

lemma write_side_frame [simp]:
  "stream_write_requests (s\<lparr>stm_receive_error_code := ec\<rparr>) = stream_write_requests s"
  "stream_write_requests (s\<lparr>stm_receive_state := rs\<rparr>) = stream_write_requests s"
  "stream_write_requests (s\<lparr>stm_pending_read_requests := rr\<rparr>) = stream_write_requests s"
  "stream_write_requests (s\<lparr>stm_send_error_code := ec\<rparr>) = stream_write_requests s"
  "stream_write_requests (s\<lparr>stm_send_state := ss\<rparr>) = stream_write_requests s"
  "stream_write_requests (s\<lparr>stm_write_buffer_size := n\<rparr>) = stream_write_requests s"
  "buffered_bytes (s\<lparr>stm_receive_error_code := ec\<rparr>) = buffered_bytes s"
  "buffered_bytes (s\<lparr>stm_receive_state := rs\<rparr>) = buffered_bytes s"
  "buffered_bytes (s\<lparr>stm_pending_read_requests := rr\<rparr>) = buffered_bytes s"
  "buffered_bytes (s\<lparr>stm_pending_write_request := pw\<rparr>) = buffered_bytes s"
  "buffered_bytes (s\<lparr>stm_send_error_code := ec\<rparr>) = buffered_bytes s"
  "buffered_bytes (s\<lparr>stm_send_state := ss\<rparr>) = buffered_bytes s"
  "buffered_bytes (s\<lparr>stm_write_buffer_size := n\<rparr>) = buffered_bytes s"
  by (simp_all add: stream_write_requests_def buffered_bytes_def split: option.split)

lemma write_side_empty [simp]:
  "stm_pending_write_request s = None \<Longrightarrow> stm_write_buffer s = [] \<Longrightarrow> stream_write_requests s = []"
  "stm_write_buffer s = [] \<Longrightarrow> buffered_bytes s = []"
  by (simp_all add: stream_write_requests_def buffered_bytes_def split: option.split)

lemma send_reset_inv: "stream_inv s \<Longrightarrow> stream_inv (snd (stream_send_reset s ec h))"
  by (simp add: stream_send_reset_def) (auto simp: stream_inv_def)

lemma send_stop_inv: "stream_inv s \<Longrightarrow> stream_inv (snd (stream_send_stop s ec h))"
  by (simp add: stream_send_stop_def) (auto simp: stream_inv_def)

lemma stream_abort_inv: "stream_inv s \<Longrightarrow> stream_inv (snd (stream_abort s e))"
  by (simp add: stream_abort_def case_prod_beta Let_def send_reset_inv send_stop_inv)

lemma pending_cleared_inv: "stream_inv s \<Longrightarrow> stream_inv (s\<lparr>stm_pending_write_request := None\<rparr>)"
  by (auto simp: stream_inv_def stream_write_requests_def)

lemma stream_complete_write_inv: "stream_inv s \<Longrightarrow> stream_inv (snd (snd (stream_complete_write s c)))"
  by (simp add: stream_complete_write_def case_prod_beta Let_def flush_inv pending_cleared_inv split: option.splits)

lemma stream_acknowledged_inv: "stream_inv s \<Longrightarrow> stream_inv (stream_handle_data_acknowledged s)"
  by (simp add: stream_handle_data_acknowledged_def) (auto simp: stream_inv_def)

lemma receive_done_inv:
  "stream_inv s \<Longrightarrow> stm_receive_state s = Some StreamReceiveState.DataReceived \<Longrightarrow>
   stream_inv (s\<lparr>stm_receive_state := Some DataRead\<rparr>)"
  by (simp add: stream_inv_def)

lemma receive_push_inv:
  assumes "stream_inv s" "stm_receive_state s = Some Receive" "0 < n"
  shows "stream_inv (s\<lparr>stm_pending_read_requests := stm_pending_read_requests s @ [(r, n)]\<rparr>)"
    and "stm_pending_read_requests s = [] \<Longrightarrow> stream_inv (s\<lparr>stm_pending_read_requests := [(r, n)]\<rparr>)"
  using assms by (simp_all add: stream_inv_def)

lemma stream_read_inv: "stream_inv s \<Longrightarrow> stream_inv (snd (stream_read s r n))"
  by (simp add: stream_read_def Let_def receive_done_inv receive_push_inv split: option.split)

lemma receive_side_inv:
  assumes "stream_inv s" "stm_receive_state s = Some Receive" "rs = Receive \<or> pend = []"
    "set pend \<subseteq> set (stm_pending_read_requests s)"
  shows "stream_inv (s\<lparr>stm_pending_read_requests := pend, stm_receive_state := Some rs\<rparr>)"
  using assms by (simp add: stream_inv_def) blast

lemma stream_recv_data_state:
  assumes "stm_receive_state s = Some Receive"
  shows "snd (stream_recv_data s d e) =
    s\<lparr>stm_pending_read_requests := if e then [] else tl (stm_pending_read_requests s),
      stm_receive_state := Some
       (if \<not> e then Receive
        else if length (stm_pending_read_requests s) \<ge> 2 \<or> (stm_pending_read_requests s \<noteq> [] \<and> d = []) then DataRead
        else StreamReceiveState.DataReceived)\<rparr>"
proof (cases "stm_pending_read_requests s")
  case Nil
  with assms show ?thesis
    by (cases s) (simp add: stream_recv_data_def stream_deliver_def stream_deliver_end_def Let_def)
next
  case (Cons p ps)
  with assms show ?thesis
    by (cases s; cases p; cases ps)
       (simp_all add: stream_recv_data_def stream_deliver_def stream_deliver_end_def Let_def case_prod_beta)
qed

lemma stream_recv_data_inv: "stream_inv s \<Longrightarrow> stream_inv (snd (stream_recv_data s d e))"
proof (cases "stm_receive_state s = Some Receive")
  case True
  assume "stream_inv s"
  with True show ?thesis
    by (simp only: stream_recv_data_state) (rule receive_side_inv, auto dest: in_set_tl)
qed (simp add: stream_recv_data_def)

lemma stream_recv_reset_inv: "stream_inv s \<Longrightarrow> stream_inv (snd (stream_recv_reset s e))"
  by (simp add: stream_recv_reset_def Let_def) (auto simp: stream_inv_def)

lemma stream_recv_stop_inv: "stream_inv s \<Longrightarrow> stream_inv (snd (stream_recv_stop_sending s e))"
  by (simp add: stream_recv_stop_sending_def Let_def case_prod_beta send_reset_inv)

lemma stream_reset_inv: "stream_inv s \<Longrightarrow> stream_inv (snd (stream_reset s r e))"
  by (simp add: stream_reset_def Let_def case_prod_beta send_reset_inv split: option.splits)

lemma stream_stop_inv: "stream_inv s \<Longrightarrow> stream_inv (snd (stream_stop s r e))"
  by (simp add: stream_stop_def Let_def case_prod_beta send_stop_inv split: option.splits)

text \<open>When a write is accepted it is appended to the buffer, which is then flushed.\<close>

definition write_accepted :: "Stream \<Rightarrow> bytes \<Rightarrow> bool" where
  "write_accepted s d \<longleftrightarrow>
    stm_send_state s = Some Ready \<and> \<not> write_finish_pending s
    \<and> stm_write_buffer_size s + len64 d \<le> stm_max_write_buffer_size s"

definition enqueue_write :: "Stream \<Rightarrow> RequestId \<Rightarrow> bytes \<Rightarrow> bool \<Rightarrow> Stream" where
  "enqueue_write s r d e =
    s\<lparr>stm_write_buffer := stm_write_buffer s @ [(d, r, e)],
      stm_write_buffer_size := stm_write_buffer_size s + len64 d\<rparr>"

lemma stream_write_accepted:
  "write_accepted s d \<Longrightarrow> stream_write s r d e c = stream_flush_writes (enqueue_write s r d e) c"
  by (auto simp: write_accepted_def stream_write_def enqueue_write_def Let_def simp flip: not_less)

lemma stream_write_refused:
  assumes "\<not> write_accepted s d"
  shows "\<exists>f. stream_write s r d e c = ([f], 0, s) \<and> answers f = [r]"
  using assms
  by (cases "stm_send_state s")
     (auto simp: write_accepted_def stream_write_def stream_request_failure_def Let_def not_le)

lemma enqueue_requests:
  "r \<notin> set (stream_write_requests s) \<Longrightarrow>
   stream_write_requests (enqueue_write s r d e) = stream_write_requests s @ [r]"
  by (auto simp: stream_write_requests_def enqueue_write_def write_front_is_def split: option.splits list.splits)

lemma enqueue_inv:
  assumes "stream_inv s" "write_accepted s d" "r \<notin> set (stream_write_requests s)" "length d < 2 ^ 63"
  shows "stream_inv (enqueue_write s r d e)"
proof -
  have "unat (stm_write_buffer_size s) + length d < 2 ^ 64"
    using stream_inv_size [OF assms(1)] assms(1,4) by (simp add: stream_inv_def)
  then have size: "unat (stm_write_buffer_size s + len64 d) = unat (stm_write_buffer_size s) + length d"
    using assms(4) by (simp add: unat_add_small unat_len64)
  have "\<forall>(d, r, e) \<in> set (stm_write_buffer s). \<not> e"
  proof (cases "stm_write_buffer s" rule: rev_cases)
    case (snoc ys y)
    then show ?thesis
      using assms(1,2) by (auto simp: stream_inv_def write_accepted_def write_finish_pending_def)
  qed simp
  moreover have "distinct (stream_write_requests (enqueue_write s r d e))"
    using assms(1,3) by (simp add: stream_inv_def enqueue_requests)
  ultimately show ?thesis
    using assms(1,2) size by (auto simp: stream_inv_def write_accepted_def enqueue_write_def buffered_bytes_def)
qed

lemma stream_write_inv:
  assumes "stream_inv s" "r \<notin> set (stream_write_requests s)" "length d < 2 ^ 63"
  shows "stream_inv (snd (snd (stream_write s r d e c)))"
proof (cases "write_accepted s d")
  case True
  then show ?thesis
    using assms by (simp add: stream_write_accepted flush_inv enqueue_inv)
next
  case False
  with assms(1) show ?thesis
    using stream_write_refused [OF False, of r e c] by auto
qed

lemmas stream_invs = stream_abort_inv stream_complete_write_inv flush_inv stream_acknowledged_inv
  stream_read_inv stream_recv_data_inv stream_recv_reset_inv stream_recv_stop_inv stream_reset_inv
  stream_stop_inv stream_write_inv

lemma drop_sent_simps [simp]: "fst (drop_sent x) = fst x" "snd (drop_sent x) = snd (snd x)"
  by (simp_all add: drop_sent_def case_prod_beta)

lemma stream_call_inv: "stream_inv s \<Longrightarrow> stream_call_ok c s \<Longrightarrow> stream_inv (snd (stream_call c s))"
  by (cases c) (simp_all add: stream_invs stream_call_ok_def)

lemma stream_new_inv:
  "unat (sp_max_write_buffer_size p) < 2 ^ 63 \<Longrightarrow> stream_inv (stream_new i sid dir peer p t)"
  by (auto simp: stream_inv_defs stream_new_def)

subsection \<open>Requests are answered exactly once\<close>

lemma answered_failures [simp]:
  "answered (map (\<lambda>(_, request_id, _). stream_abort_failure ec request_id) ws) = map (fst \<circ> snd) ws"
  "answered (map (\<lambda>(request_id, _). stream_abort_failure ec request_id) rs) = map fst rs"
  "answered (map (\<lambda>(request_id, _). NotifyRequestDone request_id (ReadData [])) rs) = map fst rs"
  by (induction ws; auto simp: stream_abort_failure_def)
     (induction rs; auto simp: stream_abort_failure_def)+

lemma answers_failure [simp]:
  "answers (stream_abort_failure ec r) = [r]" "answers (stream_request_failure r ec m) = [r]"
  by (simp_all add: stream_abort_failure_def stream_request_failure_def)

lemma send_reset_answers:
  "stm_send_state s \<notin> {None, Some StreamSendState.DataReceived, Some ResetSent} \<Longrightarrow>
   answered (fst (stream_send_reset s ec h)) = stream_write_requests s"
  by (auto simp: stream_send_reset_def stream_write_requests_def split: option.split)

lemma send_reset_holds:
  "mset (answered (fst (stream_send_reset s ec h))) + stream_holds (snd (stream_send_reset s ec h)) = stream_holds s"
proof (cases "stm_send_state s \<in> {None, Some StreamSendState.DataReceived, Some ResetSent}")
  case True
  then show ?thesis by (simp add: stream_send_reset_def)
next
  case False
  then have "stream_holds (snd (stream_send_reset s ec h)) = mset (map fst (stm_pending_read_requests s))"
    by (auto simp: stream_send_reset_def stream_holds_def)
  then show ?thesis
    by (simp only: send_reset_answers [OF False]) (simp add: stream_holds_def)
qed

lemma send_stop_holds:
  assumes "stream_inv s"
  shows "mset (answered (fst (stream_send_stop s ec h))) + stream_holds (snd (stream_send_stop s ec h)) = stream_holds s"
  by (simp add: stream_send_stop_def stream_holds_def)

lemma stream_abort_holds:
  assumes "stream_inv s"
  shows "mset (answered (fst (stream_abort s e))) + stream_holds (snd (stream_abort s e)) = stream_holds s"
  using send_reset_holds [of s "Some e" e] send_stop_holds [OF send_reset_inv [OF assms], of "Some e" e "Some e" e]
  by (simp add: stream_abort_def Let_def case_prod_beta add.assoc)

lemma complete_write_holds:
  assumes "stream_inv s"
  shows "mset (answered (fst (stream_complete_write s c))) + stream_holds (snd (snd (stream_complete_write s c))) = stream_holds s"
proof (cases "stm_pending_write_request s")
  case None
  then show ?thesis by (simp add: stream_complete_write_def)
next
  case (Some r)
  let ?t = "s\<lparr>stm_pending_write_request := None\<rparr>"
  have "stream_holds ?t + (if write_front_is (stm_write_buffer s) r then {#} else {#r#}) = stream_holds s"
    using Some by (simp add: stream_holds_def stream_write_requests_def)
  with Some flush_holds [OF pending_cleared_inv [OF assms], of c] show ?thesis
    by (simp add: stream_complete_write_def Let_def case_prod_beta split: if_splits)
qed

lemma stream_read_holds:
  "mset (answered (fst (stream_read s r n))) + stream_holds (snd (stream_read s r n)) = stream_holds s + {#r#}"
  by (simp add: stream_read_def stream_holds_def Let_def split: option.split)

lemma stream_recv_data_holds:
  assumes "stream_inv s"
  shows "mset (answered (fst (stream_recv_data s d e))) + stream_holds (snd (stream_recv_data s d e)) = stream_holds s"
proof (cases "stm_receive_state s = Some Receive")
  case True
  then show ?thesis
    by (subst stream_recv_data_state [OF True])
       (simp add: stream_recv_data_def stream_deliver_def stream_deliver_end_def Let_def stream_holds_def case_prod_beta
         split: list.split)
qed (simp add: stream_recv_data_def)

lemma stream_recv_reset_holds:
  "mset (answered (fst (stream_recv_reset s e))) + stream_holds (snd (stream_recv_reset s e)) = stream_holds s"
  by (simp add: stream_recv_reset_def stream_holds_def Let_def)

lemma stream_recv_stop_holds:
  "mset (answered (fst (stream_recv_stop_sending s e))) + stream_holds (snd (stream_recv_stop_sending s e)) = stream_holds s"
  by (simp add: stream_recv_stop_sending_def Let_def case_prod_beta send_reset_holds)

lemma stream_reset_holds:
  "mset (answered (fst (stream_reset s r e))) + stream_holds (snd (stream_reset s r e)) = stream_holds s + {#r#}"
  using send_reset_holds [of s "Some e" "user_http_error_code e"]
  by (simp add: stream_reset_def Let_def case_prod_beta split: option.split)

lemma stream_stop_holds:
  assumes "stream_inv s"
  shows "mset (answered (fst (stream_stop s r e))) + stream_holds (snd (stream_stop s r e)) = stream_holds s + {#r#}"
  using send_stop_holds [OF assms, of "Some e" "user_http_error_code e"]
  by (simp add: stream_stop_def Let_def case_prod_beta split: option.split)

lemma stream_write_holds:
  assumes "stream_inv s" "r \<notin> set (stream_write_requests s)" "length d < 2 ^ 63"
  shows "mset (answered (fst (stream_write s r d e c))) + stream_holds (snd (snd (stream_write s r d e c))) =
    stream_holds s + {#r#}"
proof (cases "write_accepted s d")
  case True
  have "stream_holds (enqueue_write s r d e) = stream_holds s + {#r#}"
    using enqueue_requests [OF assms(2)] by (simp add: stream_holds_def) (simp add: enqueue_write_def)
  with True assms show ?thesis
    by (simp add: stream_write_accepted flush_holds enqueue_inv)
next
  case False
  then show ?thesis
    using stream_write_refused [OF False, of r e c] by auto
qed

lemma stream_call_conserve:
  assumes "stream_inv s" "stream_call_ok c s"
  shows "mset (answered (fst (stream_call c s))) + stream_holds (snd (stream_call c s)) =
    stream_holds s + mset (stream_submits c)"
  using assms
  by (cases c)
     (simp_all add: stream_abort_holds complete_write_holds flush_holds stream_read_holds stream_recv_data_holds
       stream_recv_reset_holds stream_recv_stop_holds stream_reset_holds stream_stop_holds stream_write_holds
       stream_call_ok_def, simp_all add: stream_diagnose_def stream_handle_data_acknowledged_def stream_holds_def)

interpretation stream_requests: request_machine stream_call stream_call_ok stream_inv stream_submits answered stream_holds
  by unfold_locales (simp_all add: stream_call_inv stream_call_conserve)

subsection \<open>Bytes are sent in order\<close>

definition stream_accepts :: "StreamCall \<Rightarrow> Stream \<Rightarrow> bytes" where
  "stream_accepts c s =
    (case c of StreamWrite r d e credit \<Rightarrow> if write_accepted s d then d else [] | _ \<Rightarrow> [])"

definition stream_emits :: "Stream \<Rightarrow> effects \<Rightarrow> bytes" where
  "stream_emits s es = sent_bytes (stm_id s) es"

definition stream_broken :: "Stream \<Rightarrow> bool" where
  "stream_broken s \<longleftrightarrow> stm_send_state s = Some ResetSent"

lemma no_bytes_failures [simp]:
  "sent_bytes i (map (\<lambda>(_, request_id, _). stream_abort_failure ec request_id) ws) = []"
  "sent_bytes i (map (\<lambda>(request_id, _). stream_abort_failure ec request_id) rs) = []"
  "sent_bytes i (map (\<lambda>(request_id, _). NotifyRequestDone request_id (ReadData [])) rs) = []"
  "stream_bytes i (stream_abort_failure ec r) = []" "stream_bytes i (stream_request_failure r ec m) = []"
  by (induction ws; auto simp: stream_abort_failure_def stream_request_failure_def)
     (induction rs; auto simp: stream_abort_failure_def stream_request_failure_def)+

text \<open>The send side of each operation: the identifier is kept, and the operations other than
  \<open>write\<close>, \<open>flush_writes\<close> and \<open>complete_write\<close> emit no data and keep the buffer or reset it.\<close>

definition send_side_kept :: "Stream \<Rightarrow> effects \<Rightarrow> Stream \<Rightarrow> bool" where
  "send_side_kept s es s' \<longleftrightarrow> stm_id s' = stm_id s \<and> sent_bytes (stm_id s) es = []
    \<and> (stm_send_state s' \<noteq> Some ResetSent \<longrightarrow> buffered_bytes s' = buffered_bytes s)
    \<and> (stm_send_state s = Some ResetSent \<longrightarrow> stm_send_state s' = Some ResetSent)
    \<and> (stm_send_state s \<noteq> Some Ready \<longrightarrow> stm_send_state s' \<noteq> Some Ready)"

lemma send_reset_kept: "send_side_kept s (fst (stream_send_reset s ec h)) (snd (stream_send_reset s ec h))"
  by (auto simp: send_side_kept_def stream_send_reset_def split: option.split)

lemma send_stop_kept: "send_side_kept s (fst (stream_send_stop s ec h)) (snd (stream_send_stop s ec h))"
  by (auto simp: send_side_kept_def stream_send_stop_def)

lemma send_side_kept_trans:
  "send_side_kept s es t \<Longrightarrow> send_side_kept t fs u \<Longrightarrow> send_side_kept s (es @ fs) u"
  by (auto simp: send_side_kept_def)

lemma send_side_kept_refl: "send_side_kept s [] s"
  by (simp add: send_side_kept_def)

lemma stream_call_kept:
  assumes "\<forall>r d e k. c \<noteq> StreamWrite r d e k" "\<forall>k. c \<noteq> StreamFlush k" "\<forall>k. c \<noteq> StreamCompleteWrite k"
  shows "send_side_kept s (fst (stream_call c s)) (snd (stream_call c s))"
proof (cases c)
  case (StreamAbort x1)
  then show ?thesis
    using send_side_kept_trans [OF send_reset_kept send_stop_kept] by (simp add: stream_abort_def Let_def case_prod_beta)
next
  case (StreamRead r n)
  then show ?thesis
    by (auto simp: send_side_kept_def stream_read_def Let_def split: option.split)
next
  case (StreamRecvData d e)
  then show ?thesis
    by (cases "stm_receive_state s = Some Receive")
       (auto simp: stream_recv_data_state send_side_kept_def, 
        auto simp: stream_recv_data_def stream_deliver_def stream_deliver_end_def Let_def case_prod_beta split: list.split)
next
  case (StreamRecvStop e)
  then show ?thesis
    using send_reset_kept [of s "map_option ucast (http_code_to_webtransport_code e)" e]
    by (auto simp: stream_recv_stop_sending_def Let_def case_prod_beta send_side_kept_def)
next
  case (StreamReset r e)
  then show ?thesis
    using send_reset_kept [of s "Some e" "user_http_error_code e"]
    by (auto simp: stream_reset_def Let_def case_prod_beta send_side_kept_def split: option.split)
next
  case (StreamStop r e)
  then show ?thesis
    using send_stop_kept [of s "Some e" "user_http_error_code e"]
    by (auto simp: stream_stop_def Let_def case_prod_beta send_side_kept_def split: option.split)
qed (use assms in \<open>auto simp: send_side_kept_def stream_diagnose_def stream_handle_data_acknowledged_def
       stream_recv_reset_def Let_def\<close>)


text \<open>The three operations that flush.\<close>

lemma flush_state:
  "stm_send_state s = Some ResetSent \<Longrightarrow> stream_flush_writes s c = ([], 0, s)"
  "stm_send_state s \<noteq> Some Ready \<Longrightarrow> stream_flush_writes s c = ([], 0, s)"
  by (simp_all add: stream_flush_writes_def)

lemma flush_not_reset: "stm_send_state s \<noteq> Some ResetSent \<Longrightarrow>
    stm_send_state (snd (snd (stream_flush_writes s c))) \<noteq> Some ResetSent"
  by (cases rule: flush_cases [of s c]) auto

lemma complete_write_eq:
  "snd (snd (stream_complete_write s c)) =
    (if stm_pending_write_request s = None then s
     else snd (snd (stream_flush_writes (s\<lparr>stm_pending_write_request := None\<rparr>) c)))"
  "sent_bytes i (fst (stream_complete_write s c)) =
    (if stm_pending_write_request s = None then []
     else sent_bytes i (fst (stream_flush_writes (s\<lparr>stm_pending_write_request := None\<rparr>) c)))"
  by (simp_all add: stream_complete_write_def Let_def case_prod_beta split: option.split)

lemma complete_write_flow:
  "sent_bytes (stm_id s) (fst (stream_complete_write s c)) @ buffered_bytes (snd (snd (stream_complete_write s c))) =
    buffered_bytes s"
  using flush_flow [of "s\<lparr>stm_pending_write_request := None\<rparr>" c] by (simp add: complete_write_eq)

lemma stream_write_flow:
  "sent_bytes (stm_id s) (fst (stream_write s r d e c)) @ buffered_bytes (snd (snd (stream_write s r d e c))) =
    buffered_bytes s @ (if write_accepted s d then d else [])"
proof (cases "write_accepted s d")
  case True
  then show ?thesis
    using flush_flow [of "enqueue_write s r d e" c]
    by (simp add: stream_write_accepted) (simp add: enqueue_write_def buffered_bytes_def)
next
  case False
  obtain f where f: "stream_write s r d e c = ([f], 0, s)" "answers f = [r]"
    using stream_write_refused [OF False] by blast
  have "stream_bytes (stm_id s) f = []"
    using f(2) by (cases f) auto
  with False f(1) show ?thesis by simp
qed

lemma stream_write_state:
  "stm_id (snd (snd (stream_write s r d e c))) = stm_id s"
  "stm_send_state s = Some ResetSent \<Longrightarrow> stm_send_state (snd (snd (stream_write s r d e c))) = Some ResetSent"
  "stm_send_state s \<noteq> Some ResetSent \<Longrightarrow> stm_send_state (snd (snd (stream_write s r d e c))) \<noteq> Some ResetSent"
  "stm_send_state s \<noteq> Some Ready \<Longrightarrow> snd (snd (stream_write s r d e c)) = s"
proof -
  show "stm_id (snd (snd (stream_write s r d e c))) = stm_id s"
    "stm_send_state s \<noteq> Some ResetSent \<Longrightarrow> stm_send_state (snd (snd (stream_write s r d e c))) \<noteq> Some ResetSent"
    using stream_write_refused [of s d r e c] flush_not_reset [of "enqueue_write s r d e" c]
    by (cases "write_accepted s d"; auto simp: stream_write_accepted enqueue_write_def)+
  show "stm_send_state s = Some ResetSent \<Longrightarrow> stm_send_state (snd (snd (stream_write s r d e c))) = Some ResetSent"
    "stm_send_state s \<noteq> Some Ready \<Longrightarrow> snd (snd (stream_write s r d e c)) = s"
    using stream_write_refused [of s d r e c] by (auto simp: write_accepted_def)
qed

lemma stream_call_id: "stm_id (snd (stream_call c s)) = stm_id s"
proof (cases c)
  case (StreamWrite r d e k)
  then show ?thesis by (simp add: stream_write_state)
next
  case (StreamFlush k)
  then show ?thesis by simp
next
  case (StreamCompleteWrite k)
  then show ?thesis by (simp add: complete_write_eq)
qed (use stream_call_kept [of c s] in \<open>simp_all add: send_side_kept_def\<close>)

lemma stream_call_flow:
  assumes "\<not> stream_broken (snd (stream_call c s))"
  shows "stream_emits s (fst (stream_call c s)) @ buffered_bytes (snd (stream_call c s)) =
    buffered_bytes s @ stream_accepts c s"
proof (cases c)
  case (StreamWrite r d e k)
  then show ?thesis by (simp add: stream_emits_def stream_accepts_def stream_write_flow)
next
  case (StreamFlush k)
  then show ?thesis by (simp add: stream_emits_def stream_accepts_def flush_flow)
next
  case (StreamCompleteWrite k)
  then show ?thesis by (simp add: stream_emits_def stream_accepts_def complete_write_flow)
qed (use assms stream_call_kept [of c s] in
       \<open>simp_all add: send_side_kept_def stream_emits_def stream_accepts_def stream_broken_def\<close>)

text \<open>Once the send side has left \<open>Ready\<close> it never sends or accepts data again.\<close>

lemma stream_call_not_ready:
  assumes "stm_send_state s \<noteq> Some Ready"
  shows "stm_send_state (snd (stream_call c s)) \<noteq> Some Ready \<and> stream_emits s (fst (stream_call c s)) = []
    \<and> stream_accepts c s = []"
proof (cases c)
  case (StreamWrite r d e k)
  have "\<not> write_accepted s d"
    using assms by (simp add: write_accepted_def)
  moreover obtain f where f: "stream_write s r d e k = ([f], 0, s)" "answers f = [r]"
    using stream_write_refused [OF calculation] by blast
  moreover have "stream_bytes (stm_id s) f = []"
    using f(2) by (cases f) auto
  ultimately show ?thesis
    using assms StreamWrite by (simp add: stream_emits_def stream_accepts_def)
next
  case (StreamFlush k)
  then show ?thesis using assms by (simp add: flush_state stream_emits_def stream_accepts_def)
next
  case (StreamCompleteWrite k)
  then show ?thesis
    using assms by (simp add: complete_write_eq flush_state stream_emits_def stream_accepts_def)
qed (use assms stream_call_kept [of c s] in \<open>simp_all add: send_side_kept_def stream_emits_def stream_accepts_def\<close>)

lemma stream_call_broken:
  assumes "stream_broken (snd (stream_call c s))"
  shows "stream_emits s (fst (stream_call c s)) = []"
proof (cases "stm_send_state s = Some Ready")
  case False
  then show ?thesis by (simp add: stream_call_not_ready)
next
  case True
  show ?thesis
  proof (cases c)
    case (StreamWrite r d e k)
    then show ?thesis using assms True stream_write_state(3) [of s r d e k] by (simp add: stream_broken_def)
  next
    case (StreamFlush k)
    then show ?thesis using assms True flush_not_reset [of s k] by (simp add: stream_broken_def)
  next
    case (StreamCompleteWrite k)
    then show ?thesis
      using assms True flush_not_reset [of "s\<lparr>stm_pending_write_request := None\<rparr>" k]
      by (simp add: stream_broken_def complete_write_eq split: if_splits)
  qed (use stream_call_kept [of c s] in \<open>simp_all add: send_side_kept_def stream_emits_def\<close>)
qed

lemma stream_broken_stays:
  assumes "stream_broken s"
  shows "stream_broken (snd (stream_call c s))"
proof (cases c)
  case (StreamWrite r d e k)
  then show ?thesis using assms by (simp add: stream_broken_def stream_write_state)
next
  case (StreamFlush k)
  then show ?thesis using assms by (simp add: stream_broken_def flush_state)
next
  case (StreamCompleteWrite k)
  then show ?thesis using assms by (simp add: stream_broken_def complete_write_eq flush_state)
qed (use assms stream_call_kept [of c s] in \<open>simp_all add: send_side_kept_def stream_broken_def\<close>)

interpretation stream_pipe: pipe_machine stream_call stream_call_ok stream_inv
  stream_accepts stream_emits buffered_bytes stream_broken
proof unfold_locales
  fix s :: Stream and c :: StreamCall
  show "stream_emits (snd (stream_call c s)) = stream_emits s"
    by (intro ext) (simp add: stream_emits_def stream_call_id)
qed (simp_all add: stream_call_flow stream_call_broken stream_broken_stays, simp_all add: stream_emits_def)

subsection \<open>End of stream and demands\<close>

definition has_fin :: "Stream \<Rightarrow> effects \<Rightarrow> bool" where
  "has_fin s es \<longleftrightarrow> list_ex (is_fin (stm_id s)) es"

lemma no_fin [simp]:
  "list_ex (is_fin i) (map (\<lambda>(_, request_id, _). stream_abort_failure ec request_id) ws) = False"
  "list_ex (is_fin i) (map (\<lambda>(request_id, _). stream_abort_failure ec request_id) rs) = False"
  "list_ex (is_fin i) (map (\<lambda>(request_id, _). NotifyRequestDone request_id (ReadData [])) rs) = False"
  "is_fin i (stream_abort_failure ec r) = False" "is_fin i (stream_request_failure r ec m) = False"
  by (induction ws; auto simp: stream_abort_failure_def stream_request_failure_def)
     (induction rs; auto simp: stream_abort_failure_def stream_request_failure_def)+

lemma flush_fin:
  assumes "stream_inv s" "has_fin s (fst (stream_flush_writes s c))"
  shows "buffered_bytes (snd (snd (stream_flush_writes s c))) = []
    \<and> stm_send_state (snd (snd (stream_flush_writes s c))) = Some DataSent"
proof (cases rule: flush_cases [of s c])
  case (full d r e rest)
  with assms(2) have e by (simp add: has_fin_def)
  with stream_inv_front(3) [OF assms(1) full(3)] full show ?thesis by simp
qed (use assms in \<open>simp_all add: has_fin_def\<close>)

lemma send_reset_no_fin [simp]: "list_ex (is_fin i) (fst (stream_send_reset s ec h)) = False"
  by (simp add: stream_send_reset_def split: option.split)

lemma send_stop_no_fin [simp]: "list_ex (is_fin i) (fst (stream_send_stop s ec h)) = False"
  by (simp add: stream_send_stop_def)

lemma stream_call_fin:
  assumes "stream_inv s" "stream_call_ok c s" "has_fin s (fst (stream_call c s))"
  shows "buffered_bytes (snd (stream_call c s)) = [] \<and> stm_send_state (snd (stream_call c s)) = Some DataSent"
proof (cases c)
  case (StreamWrite r d e k)
  have "write_accepted s d"
  proof (rule ccontr)
    assume "\<not> write_accepted s d"
    from stream_write_refused [OF this] obtain f where f: "stream_write s r d e k = ([f], 0, s)" "answers f = [r]"
      by blast
    then have "\<not> is_fin (stm_id s) f" by (cases f) auto
    with f assms(3) StreamWrite show False by (simp add: has_fin_def)
  qed
  moreover have "stm_id (enqueue_write s r d e) = stm_id s"
    by (simp add: enqueue_write_def)
  ultimately show ?thesis
    using StreamWrite assms flush_fin [OF enqueue_inv]
    by (simp add: stream_call_ok_def stream_write_accepted has_fin_def)
next
  case (StreamFlush k)
  then show ?thesis using assms flush_fin by simp
next
  case (StreamCompleteWrite k)
  then show ?thesis
    using assms(3) flush_fin [OF pending_cleared_inv [OF assms(1)], of k]
    by (auto simp: stream_complete_write_def Let_def case_prod_beta has_fin_def split: option.splits if_splits)
qed (use assms(3) in \<open>auto simp: has_fin_def stream_abort_def stream_diagnose_def stream_read_def
       stream_recv_data_def stream_deliver_def stream_deliver_end_def stream_recv_reset_def stream_recv_stop_sending_def
       stream_reset_def stream_stop_def Let_def case_prod_beta split: option.splits list.splits if_splits\<close>)

lemma not_ready_silent:
  assumes "stream_inv s" "calls_ok stream_call stream_call_ok s cs" "stm_send_state s \<noteq> Some Ready"
  shows "stream_emits s (fst (run_calls stream_call s cs)) = [] \<and> run_accepts stream_call stream_accepts s cs = []"
  using assms
proof (induction cs arbitrary: s)
  case Nil
  then show ?case by (simp add: stream_emits_def)
next
  case (Cons c cs)
  let ?s = "snd (stream_call c s)"
  have "stream_emits ?s (fst (run_calls stream_call ?s cs)) = [] \<and> run_accepts stream_call stream_accepts ?s cs = []"
    using Cons stream_call_inv stream_call_not_ready by simp
  moreover have "stream_emits ?s = stream_emits s"
    by (intro ext) (simp add: stream_emits_def stream_call_id)
  ultimately show ?case
    using stream_call_not_ready [OF Cons.prems(3), of c] by (simp add: stream_emits_def)
qed

lemma fin_not_broken:
  "has_fin t (fst (run_calls stream_call t ds)) \<Longrightarrow> stream_inv t \<Longrightarrow>
   calls_ok stream_call stream_call_ok t ds \<Longrightarrow> \<not> stream_broken t"
proof (induction ds arbitrary: t)
  case (Cons d ds)
  then show ?case
    using stream_call_fin [of t d] stream_broken_stays [of t d] stream_call_inv [of t d] stream_call_id [of d t]
    by (auto simp: has_fin_def stream_broken_def)
qed (simp add: has_fin_def)

lemma run_fin:
  assumes "stream_inv s" "calls_ok stream_call stream_call_ok s cs"
    "has_fin s (fst (run_calls stream_call s cs))"
  shows "stream_emits s (fst (run_calls stream_call s cs)) = buffered_bytes s @ run_accepts stream_call stream_accepts s cs"
  using assms
proof (induction cs arbitrary: s)
  case Nil
  then show ?case by (simp add: has_fin_def)
next
  case (Cons c cs)
  let ?s = "snd (stream_call c s)"
  have s: "stream_inv ?s" "calls_ok stream_call stream_call_ok ?s cs" "stm_id ?s = stm_id s"
    using Cons.prems stream_call_inv by (simp_all add: stream_call_id)
  consider (now) "has_fin s (fst (stream_call c s))" | (later) "has_fin ?s (fst (run_calls stream_call ?s cs))"
    using Cons.prems(3) s(3) by (auto simp: has_fin_def)
  then show ?case
  proof cases
    case now
    with Cons.prems(1,2) have fin: "buffered_bytes ?s = []" "stm_send_state ?s = Some DataSent"
      using stream_call_fin by auto
    then have "stream_emits s (fst (stream_call c s)) = buffered_bytes s @ stream_accepts c s"
      using stream_call_flow [of c s] by (simp add: stream_broken_def)
    with not_ready_silent [OF s(1,2)] fin(2) s(3) show ?thesis
      by (simp add: stream_emits_def)
  next
    case later
    then have "\<not> stream_broken ?s"
      using fin_not_broken s(1,2) by blast
    then show ?thesis
      using stream_call_flow [of c s] Cons.IH [OF s(1,2) later] s(3)
      by (simp add: stream_emits_def)
  qed
qed


text \<open>A read asks the transport for data once; the transport answers a demand with one
  delivery.  The ghost flag says whether a demand is outstanding.\<close>

fun is_demand :: "Effect \<Rightarrow> bool" where
  "is_demand (ReceiveQuicData _ _) = True"
| "is_demand _ = False"

definition demand_call :: "StreamCall \<Rightarrow> bool \<times> Stream \<Rightarrow> effects \<times> bool \<times> Stream" where
  "demand_call c = (\<lambda>(d, s).
    let (es, s') = stream_call c s;
        d = (case c of StreamRecvData _ _ \<Rightarrow> False | _ \<Rightarrow> d)
    in (es, d \<or> list_ex is_demand es, s'))"

definition demand_ok :: "StreamCall \<Rightarrow> bool \<times> Stream \<Rightarrow> bool" where
  "demand_ok c = (\<lambda>(d, s). stream_call_ok c s \<and> (case c of StreamRecvData _ _ \<Rightarrow> d | _ \<Rightarrow> True))"

definition demand_inv :: "bool \<times> Stream \<Rightarrow> bool" where
  "demand_inv = (\<lambda>(d, s). stream_inv s
    \<and> (stm_receive_state s = Some Receive \<longrightarrow> (d \<longleftrightarrow> stm_pending_read_requests s \<noteq> [])))"

lemma no_demand [simp]:
  "list_ex is_demand (map (\<lambda>(_, request_id, _). stream_abort_failure ec request_id) ws) = False"
  "list_ex is_demand (map (\<lambda>(request_id, _). stream_abort_failure ec request_id) rs) = False"
  "is_demand (stream_abort_failure ec r) = False" "is_demand (stream_request_failure r ec m) = False"
  by (induction ws; auto simp: stream_abort_failure_def stream_request_failure_def)
     (induction rs; auto simp: stream_abort_failure_def stream_request_failure_def)+

lemma flush_no_demand [simp]: "list_ex is_demand (fst (stream_flush_writes s c)) = False"
  by (cases rule: flush_cases [of s c]) simp_all

lemma send_reset_receive [simp]:
  "list_ex is_demand (fst (stream_send_reset s ec h)) = False"
  "stm_receive_state (snd (stream_send_reset s ec h)) = stm_receive_state s"
  "stm_pending_read_requests (snd (stream_send_reset s ec h)) = stm_pending_read_requests s"
  by (simp_all add: stream_send_reset_def split: option.split)

lemma send_stop_receive [simp]:
  "list_ex is_demand (fst (stream_send_stop s ec h)) = False"
  "stm_receive_state (snd (stream_send_stop s ec h)) \<noteq> Some Receive"
  by (simp_all add: stream_send_stop_def)

definition receive_side_kept :: "Stream \<Rightarrow> effects \<Rightarrow> Stream \<Rightarrow> bool" where
  "receive_side_kept s es s' \<longleftrightarrow> \<not> list_ex is_demand es
    \<and> (stm_receive_state s' = Some Receive \<longrightarrow>
        stm_receive_state s = Some Receive \<and> stm_pending_read_requests s' = stm_pending_read_requests s)"

lemma write_receive_kept: "receive_side_kept s (fst (stream_write s r d e c)) (snd (snd (stream_write s r d e c)))"
proof (cases "write_accepted s d")
  case True
  then show ?thesis
    by (simp add: stream_write_accepted receive_side_kept_def) (simp add: enqueue_write_def)
next
  case False
  from stream_write_refused [OF this] obtain f where f: "stream_write s r d e c = ([f], 0, s)" "answers f = [r]"
    by blast
  then have "\<not> is_demand f" by (cases f) auto
  with f show ?thesis by (simp add: receive_side_kept_def)
qed

lemma stream_call_receive_kept:
  assumes "\<forall>r n. c \<noteq> StreamRead r n" "\<forall>d e. c \<noteq> StreamRecvData d e"
  shows "receive_side_kept s (fst (stream_call c s)) (snd (stream_call c s))"
proof (cases c)
  case (StreamCompleteWrite k)
  then show ?thesis
    by (simp add: stream_complete_write_def Let_def case_prod_beta receive_side_kept_def split: option.split)
next
  case (StreamWrite r d e k)
  then show ?thesis by (simp add: write_receive_kept)
next
  case (StreamFlush k)
  then show ?thesis by (simp add: receive_side_kept_def)
qed (use assms in \<open>auto simp: receive_side_kept_def stream_abort_def stream_diagnose_def
       stream_handle_data_acknowledged_def stream_recv_reset_def stream_recv_stop_sending_def stream_reset_def
       stream_stop_def Let_def case_prod_beta split: option.splits\<close>)

lemma demand_call_inv:
  assumes "demand_inv ds" "demand_ok c ds"
  shows "demand_inv (snd (demand_call c ds))"
proof -
  obtain d s where ds: "ds = (d, s)" by (cases ds)
  have inv: "stream_inv (snd (stream_call c s))"
    using assms by (simp add: ds demand_inv_def demand_ok_def stream_call_inv)
  show ?thesis
  proof (cases c)
    case (StreamRead r n)
    with assms inv show ?thesis
      by (auto simp: ds demand_inv_def demand_call_def case_prod_beta Let_def stream_read_def split: option.splits if_splits)
  next
    case (StreamRecvData b e)
    show ?thesis
    proof (cases "stm_receive_state s = Some Receive")
      case True
      with inv StreamRecvData show ?thesis
        by (simp add: ds demand_inv_def demand_call_def case_prod_beta Let_def stream_recv_data_state [OF True])
           (auto simp: stream_recv_data_def stream_deliver_def Let_def True split: list.split)
    next
      case False
      with inv StreamRecvData show ?thesis
        by (simp add: ds demand_inv_def demand_call_def stream_recv_data_def)
    qed
  qed (use assms inv stream_call_receive_kept [of c s] in
         \<open>auto simp: ds demand_inv_def demand_call_def receive_side_kept_def case_prod_beta Let_def\<close>)
qed

interpretation stream_demand: invariant_machine demand_call demand_ok demand_inv
  by unfold_locales (rule demand_call_inv)

subsection \<open>Properties of the stream\<close>

lemma complete_write_sent:
  assumes "stream_inv s"
  shows "fst (snd (stream_complete_write s c)) \<le> c"
    and "unat (fst (snd (stream_complete_write s c))) = length (sent_bytes (stm_id s) (fst (stream_complete_write s c)))"
  using flush_sent [OF pending_cleared_inv [OF assms], of c]
  by (simp_all add: stream_complete_write_def Let_def case_prod_beta split: option.split)

lemma stream_write_sent:
  assumes "stream_inv s" "r \<notin> set (stream_write_requests s)" "length d < 2 ^ 63"
  shows "fst (snd (stream_write s r d e c)) \<le> c"
    and "unat (fst (snd (stream_write s r d e c))) = length (sent_bytes (stm_id s) (fst (stream_write s r d e c)))"
proof -
  have "fst (snd (stream_write s r d e c)) \<le> c \<and>
    unat (fst (snd (stream_write s r d e c))) = length (sent_bytes (stm_id s) (fst (stream_write s r d e c)))"
  proof (cases "write_accepted s d")
    case True
    then show ?thesis
      using flush_sent [OF enqueue_inv [OF assms(1) True assms(2,3)], of e c]
      by (simp add: stream_write_accepted) (simp add: enqueue_write_def)
  next
    case False
    from stream_write_refused [OF this] obtain f where f: "stream_write s r d e c = ([f], 0, s)" "answers f = [r]"
      by blast
    then have "stream_bytes (stm_id s) f = []" by (cases f) auto
    with f show ?thesis by simp
  qed
  then show "fst (snd (stream_write s r d e c)) \<le> c"
    and "unat (fst (snd (stream_write s r d e c))) = length (sent_bytes (stm_id s) (fst (stream_write s r d e c)))"
    by simp_all
qed

definition receive_done :: "Stream \<Rightarrow> bool" where
  "receive_done s \<longleftrightarrow> stm_receive_state s \<in> {None, Some DataRead, Some ResetRead}"

definition send_done :: "Stream \<Rightarrow> bool" where
  "send_done s \<longleftrightarrow> stm_send_state s \<in> {None, Some StreamSendState.DataReceived, Some ResetSent}"

lemma stream_is_closed_iff: "stream_is_closed s \<longleftrightarrow> receive_done s \<and> send_done s"
  by (auto simp: stream_is_closed_def receive_done_def send_done_def split: option.splits)

lemma send_done_reset: "send_done s \<Longrightarrow> stream_send_reset s ec h = ([], s)"
  by (simp add: send_done_def stream_send_reset_def)

lemma receive_done_stop: "receive_done s \<Longrightarrow> stream_send_stop s ec h = ([], s)"
  by (auto simp: receive_done_def stream_send_stop_def)

lemma send_done_flush: "send_done s \<Longrightarrow> stream_flush_writes s c = ([], 0, s)"
  by (auto simp: send_done_def stream_flush_writes_def)

lemma closed_stays:
  assumes "stream_inv s" "stream_is_closed s"
  shows "stream_is_closed (snd (stream_call c s))"
proof -
  have d: "receive_done s" "send_done s"
    using assms(2) by (simp_all add: stream_is_closed_iff)
  have "\<not> write_accepted s x" for x
    using d(2) by (auto simp: send_done_def write_accepted_def)
  then have w: "snd (snd (stream_write s r x e k)) = s" for r x e k
    using stream_write_refused [of s x r e k] by auto
  have "send_done (s\<lparr>stm_pending_write_request := None\<rparr>)" "receive_done (s\<lparr>stm_pending_write_request := None\<rparr>)"
    using d by (simp_all add: send_done_def receive_done_def)
  then show ?thesis
    using d w unfolding stream_is_closed_iff
    by (cases c)
       (auto simp: complete_write_eq send_done_reset receive_done_stop send_done_flush stream_abort_def stream_read_def
         stream_recv_data_def stream_recv_reset_def stream_recv_stop_sending_def stream_reset_def stream_stop_def
         stream_handle_data_acknowledged_def Let_def receive_done_def send_done_def split: option.splits)
qed

text \<open>
  C36. However the calls of a stream interleave, its state stays consistent: the byte counter of
  the write buffer is exactly the buffered data and within the limit, only the last buffered
  write may finish the stream, data is buffered only while the send side is ready, reads wait
  only while the receive side is open, and the two sides exist exactly as the direction says.
\<close>

theorem stream_invariant:
  assumes "unat (sp_max_write_buffer_size p) < 2 ^ 63"
    and "calls_ok stream_call stream_call_ok (stream_new i sid dir peer p t) cs"
  shows "stream_inv (snd (run_calls stream_call (stream_new i sid dir peer p t) cs))"
  using stream_requests.run_inv stream_new_inv assms by blast

definition example_stream :: Stream where
  "example_stream = stream_new 4 0 Bidirectional False \<lparr>sp_max_write_buffer_size = 10\<rparr> 0"

definition example_calls :: "StreamCall list" where
  "example_calls = [StreamWrite 1 [7, 8, 9] False 2, StreamRead 2 100, StreamWrite 3 [5] True 0,
    StreamRecvData [1] False, StreamCompleteWrite 5, StreamCompleteWrite 5, StreamCompleteWrite 0]"

lemmas stream_eval [stream_defs] = stream_new_def stream_call_ok_def stream_write_def write_finish_pending_def
  stream_flush_writes_def stream_complete_write_def stream_read_def stream_recv_data_def stream_deliver_def
  stream_deliver_end_def stream_write_requests_def write_front_is_def len64_def drop_sent_def Let_def
  stream_accepts_def write_accepted_def

lemma example_ok: "calls_ok stream_call stream_call_ok example_stream example_calls"
  by (simp add: example_calls_def example_stream_def stream_defs)

theorem stream_invariant_witness:
  "stream_inv (snd (run_calls stream_call example_stream example_calls))"
  using stream_invariant [of "\<lparr>sp_max_write_buffer_size = 10\<rparr>" 4 0 Bidirectional False 0 example_calls] example_ok
  by (simp add: example_stream_def)

text \<open>
  C37. Every request submitted to a stream is answered at most once, and at any time each
  submitted request has either been answered or is still held by the stream (queued, buffered
  or in flight): none is lost and none is answered twice.
\<close>

theorem stream_requests_once:
  assumes "unat (sp_max_write_buffer_size p) < 2 ^ 63"
    and "calls_ok stream_call stream_call_ok (stream_new i sid dir peer p t) cs"
    and "distinct (concat (map stream_submits cs))"
    and "run_calls stream_call (stream_new i sid dir peer p t) cs = (es, s)"
  shows "distinct (answered es) \<and> set (answered es) \<inter> set_mset (stream_holds s) = {}
    \<and> set (concat (map stream_submits cs)) = set (answered es) \<union> set_mset (stream_holds s)"
proof -
  have "stream_holds (stream_new i sid dir peer p t) = {#}"
    by (simp add: stream_holds_def stream_new_def stream_write_requests_def)
  from stream_requests.run_once [OF stream_new_inv [OF assms(1)] assms(2) this assms(3)] assms(4)
  show ?thesis by auto
qed

theorem stream_requests_once_witness:
  "set (answered (fst (run_calls stream_call example_stream example_calls)))
     \<union> set_mset (stream_holds (snd (run_calls stream_call example_stream example_calls))) = {1, 2, 3}"
proof -
  have d: "distinct (concat (map stream_submits example_calls))"
    "set (concat (map stream_submits example_calls)) = {1, 2, 3}"
    by (auto simp: example_calls_def)
  show ?thesis
    using stream_requests_once [of "\<lparr>sp_max_write_buffer_size = 10\<rparr>" 4 0 Bidirectional False 0 example_calls
      "fst (run_calls stream_call example_stream example_calls)"
      "snd (run_calls stream_call example_stream example_calls)"] example_ok d
    by (simp add: example_stream_def)
qed

text \<open>
  C38. A stream is a byte pipe: what has been put on the wire is always a prefix of the data of
  the accepted writes in the order they were accepted, and as long as the stream has not been
  reset the rest is exactly what the write buffer holds.
\<close>

theorem stream_bytes_in_order:
  assumes "unat (sp_max_write_buffer_size p) < 2 ^ 63"
    and "calls_ok stream_call stream_call_ok (stream_new i sid dir peer p t) cs"
    and "run_calls stream_call (stream_new i sid dir peer p t) cs = (es, s)"
  shows "prefix (sent_bytes i es) (run_accepts stream_call stream_accepts (stream_new i sid dir peer p t) cs)
    \<and> (stm_send_state s \<noteq> Some ResetSent \<longrightarrow>
        sent_bytes i es @ buffered_bytes s =
        run_accepts stream_call stream_accepts (stream_new i sid dir peer p t) cs)"
proof -
  let ?n = "stream_new i sid dir peer p t"
  have n: "buffered_bytes ?n = []" "stm_id ?n = i"
    by (simp_all add: stream_new_def buffered_bytes_def)
  note inv = stream_new_inv [OF assms(1), of i sid dir peer t]
  from stream_pipe.run_prefix [OF inv assms(2)] stream_pipe.run_flow [OF inv assms(2)] assms(3) n
  show ?thesis by (auto simp: stream_emits_def stream_broken_def)
qed

theorem stream_bytes_in_order_witness:
  "prefix (sent_bytes 4 (fst (run_calls stream_call example_stream example_calls)))
    (run_accepts stream_call stream_accepts example_stream example_calls)"
  using stream_bytes_in_order [of "\<lparr>sp_max_write_buffer_size = 10\<rparr>" 4 0 Bidirectional False 0 example_calls
      "fst (run_calls stream_call example_stream example_calls)"
      "snd (run_calls stream_call example_stream example_calls)"] example_ok
  by (simp add: example_stream_def)

text \<open>
  C39. The end of a stream is announced only after all of its data: in a run in which the FIN
  has been put on the wire, the bytes sent are exactly the data of all accepted writes, whatever
  calls follow, resets included.
\<close>

theorem stream_fin_complete:
  assumes "unat (sp_max_write_buffer_size p) < 2 ^ 63"
    and "calls_ok stream_call stream_call_ok (stream_new i sid dir peer p t) cs"
    and "list_ex (is_fin i) (fst (run_calls stream_call (stream_new i sid dir peer p t) cs))"
  shows "sent_bytes i (fst (run_calls stream_call (stream_new i sid dir peer p t) cs)) =
    run_accepts stream_call stream_accepts (stream_new i sid dir peer p t) cs"
proof -
  have n: "buffered_bytes (stream_new i sid dir peer p t) = []" "stm_id (stream_new i sid dir peer p t) = i"
    by (simp_all add: stream_new_def buffered_bytes_def)
  from run_fin [OF stream_new_inv [OF assms(1)] assms(2)] assms(3) n show ?thesis
    by (simp add: has_fin_def stream_emits_def)
qed

theorem stream_fin_complete_witness:
  "sent_bytes 4 (fst (run_calls stream_call example_stream example_calls)) = [7, 8, 9, 5]"
proof -
  have e: "list_ex (is_fin 4) (fst (run_calls stream_call example_stream example_calls))"
    "run_accepts stream_call stream_accepts example_stream example_calls = [7, 8, 9, 5]"
    by (simp_all add: example_calls_def example_stream_def stream_defs)
  then show ?thesis
    using stream_fin_complete [of "\<lparr>sp_max_write_buffer_size = 10\<rparr>" 4 0 Bidirectional False 0 example_calls] example_ok
    by (simp add: example_stream_def)
qed


text \<open>
  No operation sends more than the credit it is given, and the amount it reports to the
  session, which charges it to the flow-control window, is exactly the number of bytes it put on
  the stream.
\<close>

theorem stream_credit:
  assumes "stream_inv s" "stream_call_ok (StreamWrite r d e c) s"
  shows "fst (snd (stream_write s r d e c)) \<le> c
    \<and> unat (fst (snd (stream_write s r d e c))) = length (sent_bytes (stm_id s) (fst (stream_write s r d e c)))
    \<and> fst (snd (stream_complete_write s c)) \<le> c
    \<and> unat (fst (snd (stream_complete_write s c))) = length (sent_bytes (stm_id s) (fst (stream_complete_write s c)))
    \<and> fst (snd (stream_flush_writes s c)) \<le> c
    \<and> unat (fst (snd (stream_flush_writes s c))) = length (sent_bytes (stm_id s) (fst (stream_flush_writes s c)))"
  using stream_write_sent [OF assms(1)] assms complete_write_sent flush_sent
  by (simp add: stream_call_ok_def)

theorem stream_credit_witness:
  "fst (snd (stream_write example_stream 1 [7, 8, 9] False 2)) \<le> 2
   \<and> length (sent_bytes 4 (fst (stream_write example_stream 1 [7, 8, 9] False 2))) = 2"
proof -
  have "stream_inv example_stream" "stream_call_ok (StreamWrite 1 [7, 8, 9] False 2) example_stream"
    by (simp_all add: example_stream_def stream_new_inv) (simp add: stream_defs)
  from stream_credit [OF this] show ?thesis
    by (simp add: example_stream_def stream_defs)
qed

text \<open>
  C40. No received data is lost: when the transport delivers data only in answer to a demand of
  the stream, a delivery on a stream whose receive side is open always finds a waiting read, and
  the oldest one is answered with exactly the bytes delivered.
\<close>

theorem stream_no_data_lost:
  assumes "unat (sp_max_write_buffer_size p) < 2 ^ 63"
    and "calls_ok demand_call demand_ok (False, stream_new i sid dir peer p t) cs"
    and "snd (run_calls demand_call (False, stream_new i sid dir peer p t) cs) = (True, s)"
    and "stm_receive_state s = Some Receive"
  shows "\<exists>r n rest. stm_pending_read_requests s = (r, n) # rest
    \<and> hd (fst (stream_recv_data s data fin)) = NotifyRequestDone r (ReadData data)"
proof -
  have "demand_inv (False, stream_new i sid dir peer p t)"
    using stream_new_inv [OF assms(1)] by (simp add: demand_inv_def) (simp add: stream_new_def)
  from stream_demand.run_inv [OF this assms(2)] assms(3,4) obtain r n rest
    where p: "stm_pending_read_requests s = (r, n) # rest"
    by (auto simp: demand_inv_def neq_Nil_conv)
  with assms(4) have "hd (fst (stream_recv_data s data fin)) = NotifyRequestDone r (ReadData data)"
    by (auto simp: stream_recv_data_def stream_deliver_def Let_def case_prod_beta split: list.split)
  with p show ?thesis by blast
qed

theorem stream_no_data_lost_witness:
  "\<exists>r n rest. stm_pending_read_requests (snd (snd (run_calls demand_call (False, example_stream) [StreamRead 2 100])))
      = (r, n) # rest"
proof -
  let ?run = "run_calls demand_call (False, example_stream) [StreamRead 2 100]"
  have ok: "calls_ok demand_call demand_ok (False, example_stream) [StreamRead 2 100]"
    "snd ?run = (True, snd (snd ?run))" "stm_receive_state (snd (snd ?run)) = Some Receive"
    by (simp_all add: example_stream_def demand_call_def demand_ok_def stream_defs)
  have "unat (sp_max_write_buffer_size \<lparr>sp_max_write_buffer_size = 10\<rparr>) < 2 ^ 63"
    by simp
  from stream_no_data_lost [OF this, of 4 0 Bidirectional False 0, folded example_stream_def, OF ok]
  show ?thesis by blast
qed

text \<open>
  Closing is final: a closed stream holds no read, has nothing left to send, and stays
  closed and silent on the wire whatever is called next; the only request it may still hold is
  the write in flight when the peer acknowledged the end of the stream.
\<close>

theorem stream_closed_final:
  assumes "stream_inv s" "stream_is_closed s"
  shows "stream_is_closed (snd (stream_call c s)) \<and> stream_emits s (fst (stream_call c s)) = []
    \<and> stm_pending_read_requests s = [] \<and> buffered_bytes s = []
    \<and> stream_holds s = mset_set (set_option (stm_pending_write_request s))"
proof -
  have w: "stm_send_state s \<noteq> Some Ready" "stm_receive_state s \<noteq> Some Receive"
    using assms(2) by (auto simp: stream_is_closed_def split: option.splits)
  then have e: "stm_write_buffer s = []" "stm_pending_read_requests s = []"
    using assms(1) by (auto simp: stream_inv_def)
  then have "stream_holds s = mset_set (set_option (stm_pending_write_request s))"
    by (cases "stm_pending_write_request s") (simp_all add: stream_holds_def stream_write_requests_def write_front_is_def)
  moreover have "stream_is_closed (snd (stream_call c s))"
    using closed_stays [OF assms] .
  ultimately show ?thesis
    using e stream_call_not_ready [OF w(1), of c] by simp
qed

theorem stream_closed_final_witness:
  "stream_is_closed (snd (stream_abort example_stream 9))
   \<and> stream_is_closed (snd (stream_call (StreamRead 5 1) (snd (stream_abort example_stream 9))))"
proof -
  have "stream_inv (snd (stream_abort example_stream 9))"
    by (simp add: example_stream_def stream_new_inv stream_abort_inv)
  moreover have "stream_is_closed (snd (stream_abort example_stream 9))"
    by (simp add: example_stream_def stream_new_def stream_abort_def stream_send_reset_def stream_send_stop_def
        stream_is_closed_def)
  ultimately show ?thesis
    using stream_closed_final by blast
qed

end
