(* ===== verification/Session_State.thy ===== *)
theory Session_State
  imports WtStream Header_Fields Varint
begin

text \<open>
  The state of one WebTransport session (\<open>protocol/session.rs\<close>) and the helpers that do not
  touch its streams: the credit towards the peer, the limits this end advertises and the blocked
  signals it sends.  \<open>HashMap\<close> and \<open>HashSet\<close> are finite maps and sets.
\<close>

record SessionParameters =
  ssp_flow_control_negotiated :: bool
  ssp_initial_max_data :: u64
  ssp_initial_max_streams_bidi :: u64
  ssp_initial_max_streams_uni :: u64
  ssp_max_pending_capsules :: u64
  ssp_max_pending_datagrams :: u64
  ssp_max_pending_streams :: u64
  ssp_max_write_buffer_size :: u64
  ssp_peer_max_data :: u64
  ssp_peer_max_streams_bidi :: u64
  ssp_peer_max_streams_uni :: u64
  ssp_receive_window :: u64

record Session =
  ses_blocked_stream_requests_bidi :: "RequestId list"
  ses_blocked_stream_requests_uni :: "RequestId list"
  ses_blocked_streams :: "StreamId set"
  ses_blocked_streams_queue :: "StreamId list"
  ses_close_code :: "ErrorCode option"
  ses_close_reason :: "string option"
  ses_closed_at :: "f64 option"
  ses_created_at :: f64
  ses_data_consumed :: u64
  ses_data_received :: u64
  ses_data_sent :: u64
  ses_flow_control_negotiated :: bool
  ses_headers :: Headers
  ses_id :: SessionId
  ses_initial_max_streams_bidi :: u64
  ses_initial_max_streams_uni :: u64
  ses_is_client :: bool
  ses_last_data_blocked_sent :: "u64 option"
  ses_last_streams_blocked_bidi_sent :: "u64 option"
  ses_last_streams_blocked_uni_sent :: "u64 option"
  ses_local_max_data :: u64
  ses_local_max_streams_bidi :: u64
  ses_local_max_streams_uni :: u64
  ses_local_streams_bidi_opened :: u64
  ses_local_streams_uni_opened :: u64
  ses_max_pending_capsules :: u64
  ses_max_pending_datagrams :: u64
  ses_max_pending_streams :: u64
  ses_max_write_buffer_size :: u64
  ses_path :: string
  ses_peer_max_data :: u64
  ses_peer_max_streams_bidi :: u64
  ses_peer_max_streams_uni :: u64
  ses_peer_streams_bidi_closed :: u64
  ses_peer_streams_bidi_opened :: u64
  ses_peer_streams_uni_closed :: u64
  ses_peer_streams_uni_opened :: u64
  ses_pending_capsules :: "(u64 \<times> bytes) list"
  ses_pending_datagram_requests :: "RequestId list"
  ses_pending_datagrams :: "bytes list"
  ses_pending_streams :: "StreamId list"
  ses_ready_at :: "f64 option"
  ses_receive_window :: u64
  ses_state :: SessionState
  ses_streams :: "(StreamId, Stream) fmap"
  ses_wt_available_protocols :: "string list option"
  ses_wt_protocol :: "string option"

definition session_new ::
    "SessionId \<Rightarrow> string \<Rightarrow> Headers \<Rightarrow> string list option \<Rightarrow> bool \<Rightarrow> SessionParameters \<Rightarrow> f64 \<Rightarrow> Session" where
  "session_new session_id path headers wt_available_protocols is_client parameters created_at =
    \<lparr>ses_blocked_stream_requests_bidi = [],
     ses_blocked_stream_requests_uni = [],
     ses_blocked_streams = {},
     ses_blocked_streams_queue = [],
     ses_close_code = None,
     ses_close_reason = None,
     ses_closed_at = None,
     ses_created_at = created_at,
     ses_data_consumed = 0,
     ses_data_received = 0,
     ses_data_sent = 0,
     ses_flow_control_negotiated = ssp_flow_control_negotiated parameters,
     ses_headers = headers,
     ses_id = session_id,
     ses_initial_max_streams_bidi = ssp_initial_max_streams_bidi parameters,
     ses_initial_max_streams_uni = ssp_initial_max_streams_uni parameters,
     ses_is_client = is_client,
     ses_last_data_blocked_sent = None,
     ses_last_streams_blocked_bidi_sent = None,
     ses_last_streams_blocked_uni_sent = None,
     ses_local_max_data = ssp_initial_max_data parameters,
     ses_local_max_streams_bidi = ssp_initial_max_streams_bidi parameters,
     ses_local_max_streams_uni = ssp_initial_max_streams_uni parameters,
     ses_local_streams_bidi_opened = 0,
     ses_local_streams_uni_opened = 0,
     ses_max_pending_capsules = ssp_max_pending_capsules parameters,
     ses_max_pending_datagrams = ssp_max_pending_datagrams parameters,
     ses_max_pending_streams = ssp_max_pending_streams parameters,
     ses_max_write_buffer_size = ssp_max_write_buffer_size parameters,
     ses_path = path,
     ses_peer_max_data = ssp_peer_max_data parameters,
     ses_peer_max_streams_bidi = ssp_peer_max_streams_bidi parameters,
     ses_peer_max_streams_uni = ssp_peer_max_streams_uni parameters,
     ses_peer_streams_bidi_closed = 0,
     ses_peer_streams_bidi_opened = 0,
     ses_peer_streams_uni_closed = 0,
     ses_peer_streams_uni_opened = 0,
     ses_pending_capsules = [],
     ses_pending_datagram_requests = [],
     ses_pending_datagrams = [],
     ses_pending_streams = [],
     ses_ready_at = None,
     ses_receive_window = ssp_receive_window parameters,
     ses_state = SessionState.Connecting,
     ses_streams = fmempty,
     ses_wt_available_protocols = wt_available_protocols,
     ses_wt_protocol = None\<rparr>"

subsection \<open>Helpers\<close>

definition session_failure :: "RequestId \<Rightarrow> ErrorCode option \<Rightarrow> string \<Rightarrow> Effect" where
  "session_failure request_id error_code reason =
    NotifyRequestFailed request_id ErrorSource.Session error_code reason"

definition is_open_state :: "SessionState \<Rightarrow> bool" where
  "is_open_state state \<longleftrightarrow> state \<in> {SessionState.Connected, SessionState.Connecting, SessionState.Draining}"

definition option_effect :: "Effect option \<Rightarrow> effects" where
  "option_effect e = (case e of None \<Rightarrow> [] | Some effect \<Rightarrow> [effect])"

fun is_stream_event :: "Effect \<Rightarrow> bool" where
  "is_stream_event (EmitStreamEvent _ _ _ _ _ _) = True"
| "is_stream_event _ = False"

definition suppress_pending_stream_events :: "Session \<Rightarrow> StreamId \<Rightarrow> effects \<Rightarrow> effects" where
  "suppress_pending_stream_events self stream_id stream_effects =
    (if stream_id \<notin> set (ses_pending_streams self) then stream_effects
     else filter (\<lambda>effect. \<not> is_stream_event effect) stream_effects)"

definition session_credit :: "Session \<Rightarrow> u64" where
  "session_credit self =
    (if ses_flow_control_negotiated self
     then saturating_sub (ses_peer_max_data self) (ses_data_sent self) else u64_MAX)"

text \<open>Limits this end advertises: the state and role in which it may send them, and the two
  replenishing helpers.\<close>

definition may_advertise :: "Session \<Rightarrow> bool" where
  "may_advertise self \<longleftrightarrow>
    ses_state self \<in> {SessionState.Connected, SessionState.Draining}
    \<or> ses_state self = SessionState.Connecting \<and> ses_is_client self"

definition replenish_data_credit :: "Session \<Rightarrow> bool \<Rightarrow> Effect option \<times> Session" where
  "replenish_data_credit self force_send =
    (if \<not> ses_flow_control_negotiated self then (None, self)
     else if \<not> may_advertise self then (None, self)
     else
       (let new_limit = saturating_add (ses_data_consumed self) (ses_receive_window self);
            threshold = (if force_send then 0 else ses_receive_window self div 2)
        in if new_limit \<le> saturating_add (ses_local_max_data self) threshold then (None, self)
           else case write_varint [] new_limit of
                  Inl _ \<Rightarrow> (None, self)
                | Inr buffer \<Rightarrow>
                    (Some (SendH3Capsule (ses_id self) WT_CAPSULE_TYPE_MAX_DATA buffer False),
                     self\<lparr>ses_local_max_data := new_limit\<rparr>)))"

definition replenish_streams_credit :: "Session \<Rightarrow> bool \<Rightarrow> bool \<Rightarrow> Effect option \<times> Session" where
  "replenish_streams_credit self is_unidirectional force_send =
    (if \<not> ses_flow_control_negotiated self then (None, self)
     else if \<not> may_advertise self then (None, self)
     else
       (let (current, closed, initial, capsule_type) =
              (if is_unidirectional
               then (ses_local_max_streams_uni self, ses_peer_streams_uni_closed self,
                     ses_initial_max_streams_uni self, WT_CAPSULE_TYPE_MAX_STREAMS_UNI)
               else (ses_local_max_streams_bidi self, ses_peer_streams_bidi_closed self,
                     ses_initial_max_streams_bidi self, WT_CAPSULE_TYPE_MAX_STREAMS_BIDI));
            new_limit = saturating_add closed initial;
            threshold = (if force_send then 0 else initial div 2)
        in if new_limit \<le> current \<or> new_limit < saturating_add current threshold then (None, self)
           else case write_varint [] new_limit of
                  Inl _ \<Rightarrow> (None, self)
                | Inr buffer \<Rightarrow>
                    (Some (SendH3Capsule (ses_id self) capsule_type buffer False),
                     if is_unidirectional then self\<lparr>ses_local_max_streams_uni := new_limit\<rparr>
                     else self\<lparr>ses_local_max_streams_bidi := new_limit\<rparr>)))"

text \<open>Blocked signals to the peer.\<close>

definition emit_data_blocked :: "Session \<Rightarrow> Effect option \<times> Session" where
  "emit_data_blocked self =
    (if \<not> ses_flow_control_negotiated self then (None, self)
     else if ses_data_sent self \<ge> ses_peer_max_data self
          \<and> ses_blocked_streams self \<noteq> {}
          \<and> (case ses_last_data_blocked_sent self of
               None \<Rightarrow> True | Some previous \<Rightarrow> ses_peer_max_data self > previous)
     then
       (let self = self\<lparr>ses_last_data_blocked_sent := Some (ses_peer_max_data self)\<rparr>
        in case write_varint [] (ses_peer_max_data self) of
             Inl _ \<Rightarrow> (None, self)
           | Inr buffer \<Rightarrow>
               (Some (SendH3Capsule (ses_id self) WT_CAPSULE_TYPE_DATA_BLOCKED buffer False), self))
     else (None, self))"

definition emit_streams_blocked :: "Session \<Rightarrow> bool \<Rightarrow> Effect option \<times> Session" where
  "emit_streams_blocked self is_unidirectional =
    (if \<not> ses_flow_control_negotiated self then (None, self)
     else
       (let (opened, limit, is_blocked, last_sent, capsule_type) =
              (if is_unidirectional
               then (ses_local_streams_uni_opened self, ses_peer_max_streams_uni self,
                     ses_blocked_stream_requests_uni self \<noteq> [], ses_last_streams_blocked_uni_sent self,
                     WT_CAPSULE_TYPE_STREAMS_BLOCKED_UNI)
               else (ses_local_streams_bidi_opened self, ses_peer_max_streams_bidi self,
                     ses_blocked_stream_requests_bidi self \<noteq> [], ses_last_streams_blocked_bidi_sent self,
                     WT_CAPSULE_TYPE_STREAMS_BLOCKED_BIDI))
        in if \<not> is_blocked \<or> opened < limit
              \<or> (case last_sent of None \<Rightarrow> False | Some previous \<Rightarrow> limit \<le> previous)
           then (None, self)
           else case write_varint [] limit of
                  Inl _ \<Rightarrow> (None, self)
                | Inr buffer \<Rightarrow>
                    (Some (SendH3Capsule (ses_id self) capsule_type buffer False),
                     if is_unidirectional then self\<lparr>ses_last_streams_blocked_uni_sent := Some limit\<rparr>
                     else self\<lparr>ses_last_streams_blocked_bidi_sent := Some limit\<rparr>)))"

end
