(* ===== verification/Map_Sums.thy ===== *)
theory Map_Sums
  imports Prelude
begin

text \<open>
  Sums over the values of a finite map, for the quantities a component holds in a table of
  subcomponents (the requests held by the streams of a session).  A sum is unfolded at one key:
  inserting or updating a key leaves the sum over the other keys.
\<close>

definition fm_sum :: "('k \<Rightarrow> 'v \<Rightarrow> 'a::comm_monoid_add) \<Rightarrow> ('k, 'v) fmap \<Rightarrow> 'a" where
  "fm_sum f m = (\<Sum>k \<in> fset (fmdom m). f k (the (fmlookup m k)))"

lemma fm_sum_empty [simp]: "fm_sum f fmempty = 0"
  by (simp add: fm_sum_def)

lemma fm_sum_cong:
  assumes "fmdom m = fmdom n" "\<And>k. k |\<in>| fmdom m \<Longrightarrow> f k (the (fmlookup m k)) = g k (the (fmlookup n k))"
  shows "fm_sum f m = fm_sum g n"
  unfolding fm_sum_def using assms by (intro sum.cong) auto

lemma fm_sum_upd: "fm_sum f (fmupd k v m) = f k v + fm_sum f (fmdrop k m)"
proof -
  let ?g = "\<lambda>j. f j (the (fmlookup (fmupd k v m) j))"
  have dom: "fset (fmdom (fmupd k v m)) = insert k (fset (fmdom m) - {k})"
    by auto
  have "fm_sum f (fmupd k v m) = sum ?g (insert k (fset (fmdom m) - {k}))"
    by (simp only: fm_sum_def dom)
  also have "\<dots> = f k v + sum ?g (fset (fmdom m) - {k})"
    by (subst sum.insert) simp_all
  also have "sum ?g (fset (fmdom m) - {k}) = fm_sum f (fmdrop k m)"
    unfolding fm_sum_def by (intro sum.cong) auto
  finally show ?thesis .
qed

lemma fmupd_same: "fmlookup m k = Some v \<Longrightarrow> fmupd k v m = m"
  by (rule fmap_ext) auto

lemma fm_sum_split: "fmlookup m k = Some v \<Longrightarrow> fm_sum f m = f k v + fm_sum f (fmdrop k m)"
  using fm_sum_upd [of f k v m] by (simp add: fmupd_same)

lemma fmdrop_idem [simp]: "fmlookup m k = None \<Longrightarrow> fmdrop k m = m"
  by (rule fmap_ext) auto

lemma fmdrop_fmupd_same [simp]: "fmdrop k (fmupd k v m) = fmdrop k m"
  by (rule fmap_ext) auto

lemma fmupd_upd_same [simp]: "fmupd k v (fmupd k w m) = fmupd k v m"
  by (rule fmap_ext) auto

lemma fm_sum_filter:
  assumes "\<And>k v. fmlookup m k = Some v \<Longrightarrow> \<not> P k \<Longrightarrow> f k v = 0"
  shows "fm_sum f (fmfilter P m) = fm_sum f m"
proof -
  have zero: "f k (the (fmlookup m k)) = 0" if "k |\<in>| fmdom m" "\<not> P k" for k
  proof -
    obtain v where "fmlookup m k = Some v" using \<open>k |\<in>| fmdom m\<close> by (rule fmdomE)
    with assms that show ?thesis by simp
  qed
  show ?thesis
    unfolding fm_sum_def using zero by (intro sum.mono_neutral_cong_left) auto
qed

end
