(* ===== verification/WtSession.thy ===== *)
theory WtSession
  imports Session_State Map_Sums
begin

text \<open>
  The operations of one WebTransport session (\<open>protocol/session.rs\<close>), in the order in which
  they call each other.  The only iteration over the map of streams, in \<open>abort_streams\<close>, sorts
  the keys first, as here.  Loops of the source that pop a queue are recursive functions; those
  of the replay, which call an operation of the session in their body, run on the length the
  queue has when they start.  The arms of \<open>recv_capsule\<close> are one definition each.
\<close>

subsection \<open>Closing streams\<close>

definition session_handle_closed :: "Session \<Rightarrow> StreamId \<Rightarrow> effects \<times> Session" where
  "session_handle_closed self stream_id =
    (if \<not> (case fmlookup (ses_streams self) stream_id of None \<Rightarrow> False | Some stream \<Rightarrow> stream_is_closed stream)
     then ([], self)
     else
       (let self = self\<lparr>ses_streams := fmdrop stream_id (ses_streams self),
                        ses_blocked_streams := ses_blocked_streams self - {stream_id}\<rparr>;
            effects = suppress_pending_stream_events self stream_id
              [EmitStreamEvent stream_id StreamClosed None None None None]
        in if is_peer_initiated_stream stream_id (ses_is_client self) then
             (if is_unidirectional_stream stream_id then
                (let self = self\<lparr>ses_peer_streams_uni_closed := ses_peer_streams_uni_closed self + 1\<rparr>;
                     (effect, self) = replenish_streams_credit self True False
                 in (effects @ option_effect effect, self))
              else
                (let self = self\<lparr>ses_peer_streams_bidi_closed := ses_peer_streams_bidi_closed self + 1\<rparr>;
                     (effect, self) = replenish_streams_credit self False False
                 in (effects @ option_effect effect, self)))
           else (effects, self)))"

fun abort_each_stream :: "StreamId list \<Rightarrow> Session \<Rightarrow> effects \<times> Session" where
  "abort_each_stream [] self = ([], self)"
| "abort_each_stream (stream_id # stream_ids) self =
    (let (abort_effects, self) =
           (case fmlookup (ses_streams self) stream_id of
              None \<Rightarrow> ([], self)
            | Some stream \<Rightarrow>
                (let (stream_effects, stream) = stream_abort stream ERR_WT_SESSION_GONE;
                     self = self\<lparr>ses_streams := fmupd stream_id stream (ses_streams self)\<rparr>
                 in (suppress_pending_stream_events self stream_id stream_effects, self)));
         (closed_effects, self) = session_handle_closed self stream_id;
         (effects, self) = abort_each_stream stream_ids self
     in (abort_effects @ closed_effects @ effects, self))"

definition session_abort_failure :: "RequestId \<Rightarrow> Effect" where
  "session_abort_failure request_id = session_failure request_id None ''wt_session abort''"

definition abort_streams :: "Session \<Rightarrow> effects \<times> Session" where
  "abort_streams self =
    (let stream_ids = sorted_list_of_fset (fmdom (ses_streams self));
         (effects, self) = abort_each_stream stream_ids self;
         bidi = ses_blocked_stream_requests_bidi self;
         uni = ses_blocked_stream_requests_uni self
     in (effects @ map session_abort_failure bidi @ map session_abort_failure uni,
         self\<lparr>ses_blocked_streams := {},
              ses_blocked_streams_queue := [],
              ses_pending_streams := [],
              ses_blocked_stream_requests_bidi := [],
              ses_blocked_stream_requests_uni := []\<rparr>))"

text \<open>The part of every way of closing: the close record, the new state, the streams and the
  waiting requests.\<close>

definition close_down ::
    "Session \<Rightarrow> ErrorCode option \<Rightarrow> string option \<Rightarrow> SessionState \<Rightarrow> f64 \<Rightarrow> effects \<times> Session" where
  "close_down self close_code close_reason state now =
    (let self = self\<lparr>ses_close_code := close_code,
                     ses_close_reason := close_reason,
                     ses_closed_at := Some now,
                     ses_state := state,
                     ses_pending_capsules := [],
                     ses_pending_datagrams := []\<rparr>;
         (effects, self) = abort_streams self;
         requests = ses_pending_datagram_requests self
     in (effects @ map session_abort_failure requests, self\<lparr>ses_pending_datagram_requests := []\<rparr>))"

definition session_closed_event :: "Session \<Rightarrow> ErrorCode option \<Rightarrow> string option \<Rightarrow> Effect" where
  "session_closed_event self error_code reason =
    EmitSessionEvent (ses_id self) SessionClosed
      (no_fields\<lparr>ev_error_code := error_code, ev_reason := reason\<rparr>)"

definition session_abort :: "Session \<Rightarrow> ErrorCode \<Rightarrow> string \<Rightarrow> f64 \<Rightarrow> effects \<times> Session" where
  "session_abort self error_code reason now =
    (if ses_state self \<in> {SessionState.Closed, SessionState.Closing} then ([], self)
     else
       (let (effects, self) = close_down self (Some error_code) (Some reason) SessionState.Closed now
        in (effects @ [ResetQuicStream (ses_id self) error_code,
                       session_closed_event self (Some error_code) (Some reason)], self)))"

subsection \<open>Writing\<close>

text \<open>Charging a write to the session and noting that the stream is blocked
  (\<open>complete_stream_write\<close> and \<open>write_stream\<close>).\<close>

definition account_write :: "Session \<Rightarrow> StreamId \<Rightarrow> effects \<times> u64 \<times> Stream \<Rightarrow> effects \<times> Session" where
  "account_write self stream_id = (\<lambda>(effects, sent, stream).
    (let self = self\<lparr>ses_streams := fmupd stream_id stream (ses_streams self),
                     ses_data_sent := ses_data_sent self + sent\<rparr>;
         self = (if stream_is_blocked stream \<and> stream_id \<notin> ses_blocked_streams self
                 then self\<lparr>ses_blocked_streams := insert stream_id (ses_blocked_streams self),
                           ses_blocked_streams_queue := ses_blocked_streams_queue self @ [stream_id]\<rparr>
                 else self);
         (effect, self) = emit_data_blocked self
     in (effects @ option_effect effect, self)))"

definition complete_stream_write :: "Session \<Rightarrow> StreamId \<Rightarrow> effects \<times> Session" where
  "complete_stream_write self stream_id =
    (case fmlookup (ses_streams self) stream_id of
       None \<Rightarrow> ([], self)
     | Some stream \<Rightarrow> account_write self stream_id (stream_complete_write stream (session_credit self)))"

definition stream_resolve_failure :: "RequestId \<Rightarrow> Effect" where
  "stream_resolve_failure request_id =
    NotifyRequestFailed request_id ErrorSource.Stream (Some ERR_LIB_STREAM_STATE_ERROR) ''wt_stream resolve failed''"

definition write_stream :: "Session \<Rightarrow> StreamId \<Rightarrow> RequestId \<Rightarrow> bytes \<Rightarrow> bool \<Rightarrow> effects \<times> Session" where
  "write_stream self stream_id request_id data end_stream =
    (case fmlookup (ses_streams self) stream_id of
       None \<Rightarrow>
         (if data = [] \<and> end_stream then ([NotifyRequestDone request_id ResultNone], self)
          else ([stream_resolve_failure request_id], self))
     | Some stream \<Rightarrow>
         account_write self stream_id (stream_write stream request_id data end_stream (session_credit self)))"

fun flush_blocked_loop :: "nat \<Rightarrow> Session \<Rightarrow> effects \<times> Session" where
  "flush_blocked_loop 0 self = ([], self)"
| "flush_blocked_loop (Suc n) self =
    (case ses_blocked_streams_queue self of
       [] \<Rightarrow> ([], self)
     | stream_id # queue \<Rightarrow>
         (let credit = session_credit self in
          if credit = 0 then
            ([], self\<lparr>ses_blocked_streams := insert stream_id (ses_blocked_streams self - {stream_id}),
                      ses_blocked_streams_queue := stream_id # queue\<rparr>)
          else
            (let self = self\<lparr>ses_blocked_streams := ses_blocked_streams self - {stream_id},
                             ses_blocked_streams_queue := queue\<rparr>
             in case fmlookup (ses_streams self) stream_id of
                  None \<Rightarrow> flush_blocked_loop n self
                | Some stream \<Rightarrow>
                    (let (stream_effects, sent, stream) = stream_flush_writes stream credit;
                         self = self\<lparr>ses_streams := fmupd stream_id stream (ses_streams self),
                                     ses_data_sent := ses_data_sent self + sent\<rparr>;
                         self = (if stream_is_blocked stream
                                 then self\<lparr>ses_blocked_streams_queue := ses_blocked_streams_queue self @ [stream_id],
                                           ses_blocked_streams := insert stream_id (ses_blocked_streams self)\<rparr>
                                 else self);
                         (effects, self) = flush_blocked_loop n self
                     in (stream_effects @ effects, self)))))"

definition flush_blocked_writes :: "Session \<Rightarrow> effects \<times> Session" where
  "flush_blocked_writes self =
    (if ses_flow_control_negotiated self \<and> ses_data_sent self \<ge> ses_peer_max_data self then ([], self)
     else
       (let (effects, self) = flush_blocked_loop (length (ses_blocked_streams_queue self)) self;
            (effect, self) = emit_data_blocked self
        in (effects @ option_effect effect, self)))"

subsection \<open>Opening streams\<close>

fun flush_requests_loop :: "SessionId \<Rightarrow> bool \<Rightarrow> bool \<Rightarrow> u64 \<Rightarrow> u64 \<Rightarrow> RequestId list \<Rightarrow> effects \<times> u64 \<times> RequestId list"
  where
  "flush_requests_loop session_id is_unidirectional flow_control opened limit [] = ([], opened, [])"
| "flush_requests_loop session_id is_unidirectional flow_control opened limit (request_id # requests) =
    (if \<not> flow_control \<or> opened < limit then
       (let (effects, opened, requests) =
              flush_requests_loop session_id is_unidirectional flow_control (opened + 1) limit requests
        in (CreateQuicStream request_id session_id is_unidirectional # effects, opened, requests))
     else ([], opened, request_id # requests))"

definition flush_blocked_stream_requests :: "Session \<Rightarrow> bool \<Rightarrow> effects \<times> Session" where
  "flush_blocked_stream_requests self is_unidirectional =
    (let (effects, self) =
           (if is_unidirectional then
              (let (effects, opened, requests) =
                     flush_requests_loop (ses_id self) True (ses_flow_control_negotiated self)
                       (ses_local_streams_uni_opened self) (ses_peer_max_streams_uni self)
                       (ses_blocked_stream_requests_uni self)
               in (effects, self\<lparr>ses_local_streams_uni_opened := opened,
                                ses_blocked_stream_requests_uni := requests\<rparr>))
            else
              (let (effects, opened, requests) =
                     flush_requests_loop (ses_id self) False (ses_flow_control_negotiated self)
                       (ses_local_streams_bidi_opened self) (ses_peer_max_streams_bidi self)
                       (ses_blocked_stream_requests_bidi self)
               in (effects, self\<lparr>ses_local_streams_bidi_opened := opened,
                                ses_blocked_stream_requests_bidi := requests\<rparr>)));
         (effect, self) = emit_streams_blocked self is_unidirectional
     in (effects @ option_effect effect, self))"

definition create_stream :: "Session \<Rightarrow> RequestId \<Rightarrow> bool \<Rightarrow> effects \<times> Session" where
  "create_stream self request_id is_unidirectional =
    (if \<not> is_open_state (ses_state self) then
       ([session_failure request_id (Some ERR_LIB_SESSION_STATE_ERROR) ''wt_session validate failed''], self)
     else
       (let limit_exceeded = ses_flow_control_negotiated self
              \<and> (if is_unidirectional then ses_local_streams_uni_opened self \<ge> ses_peer_max_streams_uni self
                 else ses_local_streams_bidi_opened self \<ge> ses_peer_max_streams_bidi self)
        in if limit_exceeded then
             (let self = (if is_unidirectional
                    then self\<lparr>ses_blocked_stream_requests_uni := ses_blocked_stream_requests_uni self @ [request_id]\<rparr>
                    else self\<lparr>ses_blocked_stream_requests_bidi := ses_blocked_stream_requests_bidi self @ [request_id]\<rparr>);
                  (effect, self) = emit_streams_blocked self is_unidirectional
              in (option_effect effect, self))
           else
             ([CreateQuicStream request_id (ses_id self) is_unidirectional],
              if is_unidirectional
              then self\<lparr>ses_local_streams_uni_opened := ses_local_streams_uni_opened self + 1\<rparr>
              else self\<lparr>ses_local_streams_bidi_opened := ses_local_streams_bidi_opened self + 1\<rparr>)))"

definition defer_stream :: "Session \<Rightarrow> RequestId \<Rightarrow> bool \<Rightarrow> effects \<times> Session" where
  "defer_stream self request_id is_unidirectional =
    (if \<not> is_open_state (ses_state self) then
       ([session_failure request_id (Some ERR_LIB_SESSION_STATE_ERROR) ''wt_session validate failed''], self)
     else
       ([],
        if is_unidirectional
        then self\<lparr>ses_local_streams_uni_opened := ses_local_streams_uni_opened self - 1,
                  ses_blocked_stream_requests_uni := ses_blocked_stream_requests_uni self @ [request_id]\<rparr>
        else self\<lparr>ses_local_streams_bidi_opened := ses_local_streams_bidi_opened self - 1,
                  ses_blocked_stream_requests_bidi := ses_blocked_stream_requests_bidi self @ [request_id]\<rparr>))"

definition bind_stream :: "Session \<Rightarrow> StreamId \<Rightarrow> RequestId \<Rightarrow> bool \<Rightarrow> f64 \<Rightarrow> effects \<times> Session" where
  "bind_stream self stream_id request_id is_unidirectional now =
    (let direction = (if is_unidirectional then SendOnly else Bidirectional) in
     if \<not> is_open_state (ses_state self) then
       ([ResetQuicStream stream_id ERR_WT_SESSION_GONE]
        @ (if direction = Bidirectional then [StopQuicStream stream_id ERR_WT_SESSION_GONE] else [])
        @ [session_failure request_id (Some ERR_LIB_SESSION_STATE_ERROR) ''wt_session validate failed''], self)
     else
       (let stream = stream_new stream_id (ses_id self) direction False
              \<lparr>sp_max_write_buffer_size = ses_max_write_buffer_size self\<rparr> now
        in ([EmitStreamEvent stream_id StreamOpened (Some (ses_id self)) (Some direction) (Some False) None,
             NotifyRequestDone request_id (RequestResult.StreamId stream_id)],
            self\<lparr>ses_streams := fmupd stream_id stream (ses_streams self)\<rparr>)))"

text \<open>\<open>handle_stream_opened\<close>: admission against the advertised limits, the bound on streams
  that wait for the session to be accepted, and the insertion of the stream.\<close>

definition insert_peer_stream :: "Session \<Rightarrow> StreamId \<Rightarrow> StreamDirection \<Rightarrow> f64 \<Rightarrow> effects \<times> Session" where
  "insert_peer_stream self stream_id direction now =
    (let stream = stream_new stream_id (ses_id self) direction True
           \<lparr>sp_max_write_buffer_size = ses_max_write_buffer_size self\<rparr> now;
         self = self\<lparr>ses_streams := fmupd stream_id stream (ses_streams self)\<rparr>
     in if ses_state self = SessionState.Connecting then ([], self)
        else ([EmitStreamEvent stream_id StreamOpened (Some (ses_id self)) (Some direction) (Some True) None], self))"

definition refuse_pending_stream :: "Session \<Rightarrow> StreamId \<Rightarrow> StreamDirection \<Rightarrow> effects \<times> Session" where
  "refuse_pending_stream self stream_id direction =
    (let effects =
           (if direction = Bidirectional then [ResetQuicStream stream_id ERR_WT_BUFFERED_STREAM_REJECTED] else [])
           @ [StopQuicStream stream_id ERR_WT_BUFFERED_STREAM_REJECTED]
     in if direction = ReceiveOnly then
          (let self = self\<lparr>ses_peer_streams_uni_closed := ses_peer_streams_uni_closed self + 1\<rparr>;
               (effect, self) = replenish_streams_credit self True False
           in (effects @ option_effect effect, self))
        else
          (let self = self\<lparr>ses_peer_streams_bidi_closed := ses_peer_streams_bidi_closed self + 1\<rparr>;
               (effect, self) = replenish_streams_credit self False False
           in (effects @ option_effect effect, self)))"

definition admit_peer_stream :: "Session \<Rightarrow> StreamId \<Rightarrow> StreamDirection \<Rightarrow> f64 \<Rightarrow> effects \<times> Session" where
  "admit_peer_stream self stream_id direction now =
    (if ses_state self = SessionState.Connecting then
       (if len64 (ses_pending_streams self) \<ge> ses_max_pending_streams self
        then refuse_pending_stream self stream_id direction
        else insert_peer_stream
               (self\<lparr>ses_pending_streams := ses_pending_streams self @ [stream_id]\<rparr>) stream_id direction now)
     else insert_peer_stream self stream_id direction now)"

definition handle_stream_opened :: "Session \<Rightarrow> StreamId \<Rightarrow> f64 \<Rightarrow> effects \<times> Session" where
  "handle_stream_opened self stream_id now =
    (let direction = stream_direction_from_id stream_id (ses_is_client self) in
     if \<not> is_open_state (ses_state self) then
       ((if direction = Bidirectional then [ResetQuicStream stream_id ERR_WT_SESSION_GONE] else [])
        @ [StopQuicStream stream_id ERR_WT_SESSION_GONE], self)
     else
       case direction of
         Bidirectional \<Rightarrow>
           (if ses_flow_control_negotiated self
               \<and> ses_peer_streams_bidi_opened self \<ge> ses_local_max_streams_bidi self then
              (let (effects, self) = session_abort self ERR_WT_FLOW_CONTROL_ERROR ''wt_session validate exceeded'' now
               in ([ResetQuicStream stream_id ERR_WT_SESSION_GONE, StopQuicStream stream_id ERR_WT_SESSION_GONE]
                   @ effects, self))
            else
              admit_peer_stream (self\<lparr>ses_peer_streams_bidi_opened := ses_peer_streams_bidi_opened self + 1\<rparr>)
                stream_id direction now)
       | ReceiveOnly \<Rightarrow>
           (if ses_flow_control_negotiated self
               \<and> ses_peer_streams_uni_opened self \<ge> ses_local_max_streams_uni self then
              (let (effects, self) = session_abort self ERR_WT_FLOW_CONTROL_ERROR ''wt_session validate exceeded'' now
               in ([StopQuicStream stream_id ERR_WT_SESSION_GONE] @ effects, self))
            else
              admit_peer_stream (self\<lparr>ses_peer_streams_uni_opened := ses_peer_streams_uni_opened self + 1\<rparr>)
                stream_id direction now)
       | SendOnly \<Rightarrow> ([], self))"

subsection \<open>Capsules\<close>

definition capsule_close_session :: "Session \<Rightarrow> bytes \<Rightarrow> f64 \<Rightarrow> effects \<times> Session" where
  "capsule_close_session self capsule_value now =
    (if length capsule_value < 4 then
       session_abort self ERR_H3_MESSAGE_ERROR ''wt_capsule validate invalid'' now
     else
       (let error_code = ucast (get_be (take 4 capsule_value) :: u32);
            reason = drop 4 capsule_value
        in if length reason > unat WT_CLOSE_REASON_SIZE_LIMIT then
             session_abort self ERR_H3_MESSAGE_ERROR ''wt_capsule validate exceeded'' now
           else if \<not> utf8_valid reason then
             session_abort self ERR_H3_MESSAGE_ERROR ''wt_capsule validate invalid'' now
           else
             (let reason = from_bytes reason;
                  (effects, self) = close_down self (Some error_code) (Some reason) SessionState.Closed now
              in (effects @ [SendQuicData (ses_id self) [] True,
                             session_closed_event self (Some error_code) (Some reason)], self))))"

definition capsule_data_blocked :: "Session \<Rightarrow> effects \<times> Session" where
  "capsule_data_blocked self =
    (case replenish_data_credit self True of
       (Some credit_effect, self) \<Rightarrow> ([credit_effect], self)
     | (None, self) \<Rightarrow> ([EmitSessionEvent (ses_id self) SessionDataBlocked no_fields], self))"

definition capsule_drain_session :: "Session \<Rightarrow> effects \<times> Session" where
  "capsule_drain_session self =
    ([EmitSessionEvent (ses_id self) SessionDraining no_fields], self\<lparr>ses_state := SessionState.Draining\<rparr>)"

definition varint_abort :: "Session \<Rightarrow> f64 \<Rightarrow> effects \<times> Session" where
  "varint_abort self now = session_abort self ERR_H3_GENERAL_PROTOCOL_ERROR ''varint decode invalid'' now"

definition capsule_max_data :: "Session \<Rightarrow> bytes \<Rightarrow> f64 \<Rightarrow> effects \<times> Session" where
  "capsule_max_data self capsule_value now =
    (case read_varint capsule_value of
       Inl _ \<Rightarrow> varint_abort self now
     | Inr (peer_max_data, _) \<Rightarrow>
         if peer_max_data > ses_peer_max_data self then
           (let self = self\<lparr>ses_peer_max_data := peer_max_data\<rparr>;
                (effects, self) = flush_blocked_writes self
            in (EmitSessionEvent (ses_id self) SessionMaxDataUpdated (no_fields\<lparr>ev_max_data := Some peer_max_data\<rparr>)
                # effects, self))
         else session_abort self ERR_WT_FLOW_CONTROL_ERROR ''wt_session validate failed'' now)"

definition capsule_max_streams_bidi :: "Session \<Rightarrow> bytes \<Rightarrow> f64 \<Rightarrow> effects \<times> Session" where
  "capsule_max_streams_bidi self capsule_value now =
    (case read_varint capsule_value of
       Inl _ \<Rightarrow> varint_abort self now
     | Inr (peer_max_streams_bidi, _) \<Rightarrow>
         if peer_max_streams_bidi > WT_STREAMS_LIMIT then
           session_abort self ERR_WT_FLOW_CONTROL_ERROR ''wt_session validate exceeded'' now
         else if peer_max_streams_bidi > ses_peer_max_streams_bidi self then
           (let self = self\<lparr>ses_peer_max_streams_bidi := peer_max_streams_bidi\<rparr>;
                (effects, self) = flush_blocked_stream_requests self False
            in (EmitSessionEvent (ses_id self) SessionMaxStreamsBidiUpdated
                  (no_fields\<lparr>ev_max_streams := Some peer_max_streams_bidi\<rparr>) # effects, self))
         else session_abort self ERR_WT_FLOW_CONTROL_ERROR ''wt_session validate failed'' now)"

definition capsule_max_streams_uni :: "Session \<Rightarrow> bytes \<Rightarrow> f64 \<Rightarrow> effects \<times> Session" where
  "capsule_max_streams_uni self capsule_value now =
    (case read_varint capsule_value of
       Inl _ \<Rightarrow> varint_abort self now
     | Inr (peer_max_streams_uni, _) \<Rightarrow>
         if peer_max_streams_uni > WT_STREAMS_LIMIT then
           session_abort self ERR_WT_FLOW_CONTROL_ERROR ''wt_session validate exceeded'' now
         else if peer_max_streams_uni > ses_peer_max_streams_uni self then
           (let self = self\<lparr>ses_peer_max_streams_uni := peer_max_streams_uni\<rparr>;
                (effects, self) = flush_blocked_stream_requests self True
            in (EmitSessionEvent (ses_id self) SessionMaxStreamsUniUpdated
                  (no_fields\<lparr>ev_max_streams := Some peer_max_streams_uni\<rparr>) # effects, self))
         else session_abort self ERR_WT_FLOW_CONTROL_ERROR ''wt_session validate failed'' now)"

definition capsule_streams_blocked :: "Session \<Rightarrow> bool \<Rightarrow> bytes \<Rightarrow> f64 \<Rightarrow> effects \<times> Session" where
  "capsule_streams_blocked self is_unidirectional capsule_value now =
    (case read_varint capsule_value of
       Inl _ \<Rightarrow> varint_abort self now
     | Inr (peer_reported_limit, _) \<Rightarrow>
         if peer_reported_limit > WT_STREAMS_LIMIT then
           session_abort self ERR_WT_FLOW_CONTROL_ERROR ''wt_session validate exceeded'' now
         else
           (case replenish_streams_credit self is_unidirectional True of
              (Some credit_effect, self) \<Rightarrow> ([credit_effect], self)
            | (None, self) \<Rightarrow>
                ([EmitSessionEvent (ses_id self) SessionStreamsBlocked
                    (no_fields\<lparr>ev_is_unidirectional := Some is_unidirectional\<rparr>)], self)))"

definition is_flow_control_capsule :: "u64 \<Rightarrow> bool" where
  "is_flow_control_capsule capsule_type \<longleftrightarrow>
    capsule_type \<in> {WT_CAPSULE_TYPE_DATA_BLOCKED, WT_CAPSULE_TYPE_MAX_DATA, WT_CAPSULE_TYPE_MAX_STREAMS_BIDI,
      WT_CAPSULE_TYPE_MAX_STREAMS_UNI, WT_CAPSULE_TYPE_STREAMS_BLOCKED_BIDI, WT_CAPSULE_TYPE_STREAMS_BLOCKED_UNI}"

definition dispatch_capsule :: "Session \<Rightarrow> u64 \<Rightarrow> bytes \<Rightarrow> f64 \<Rightarrow> effects \<times> Session" where
  "dispatch_capsule self capsule_type capsule_value now =
    (if capsule_type = WT_CAPSULE_TYPE_CLOSE_SESSION then capsule_close_session self capsule_value now
     else if capsule_type = WT_CAPSULE_TYPE_DATA_BLOCKED then capsule_data_blocked self
     else if capsule_type = WT_CAPSULE_TYPE_DRAIN_SESSION \<and> ses_state self = SessionState.Connected
       then capsule_drain_session self
     else if capsule_type = WT_CAPSULE_TYPE_MAX_DATA then capsule_max_data self capsule_value now
     else if capsule_type \<in> {WT_CAPSULE_TYPE_MAX_STREAM_DATA, WT_CAPSULE_TYPE_STREAM_DATA_BLOCKED}
       then session_abort self ERR_H3_FRAME_UNEXPECTED ''wt_session validate failed'' now
     else if capsule_type = WT_CAPSULE_TYPE_MAX_STREAMS_BIDI then capsule_max_streams_bidi self capsule_value now
     else if capsule_type = WT_CAPSULE_TYPE_MAX_STREAMS_UNI then capsule_max_streams_uni self capsule_value now
     else if capsule_type \<in> {WT_CAPSULE_TYPE_STREAMS_BLOCKED_BIDI, WT_CAPSULE_TYPE_STREAMS_BLOCKED_UNI}
       then capsule_streams_blocked self (capsule_type = WT_CAPSULE_TYPE_STREAMS_BLOCKED_UNI) capsule_value now
     else ([], self))"

definition recv_capsule :: "Session \<Rightarrow> u64 \<Rightarrow> bytes \<Rightarrow> f64 \<Rightarrow> effects \<times> Session" where
  "recv_capsule self capsule_type capsule_value now =
    (if ses_state self = SessionState.Connecting then
       (if len64 (ses_pending_capsules self) \<ge> ses_max_pending_capsules self then
          session_abort self ERR_H3_EXCESSIVE_LOAD ''wt_session validate exceeded'' now
        else ([], self\<lparr>ses_pending_capsules := ses_pending_capsules self @ [(capsule_type, capsule_value)]\<rparr>))
     else if ses_state self = SessionState.Closing then ([], self)
     else if ses_state self = SessionState.Closed then
       ([ResetQuicStream (ses_id self) ERR_H3_MESSAGE_ERROR], self)
     else if \<not> ses_flow_control_negotiated self \<and> is_flow_control_capsule capsule_type then ([], self)
     else dispatch_capsule self capsule_type capsule_value now)"

subsection \<open>Datagrams\<close>

definition recv_datagram :: "Session \<Rightarrow> bytes \<Rightarrow> effects \<times> Session" where
  "recv_datagram self data =
    (if \<not> is_open_state (ses_state self) then ([], self)
     else if ses_state self \<noteq> SessionState.Connecting \<and> ses_pending_datagram_requests self \<noteq> [] then
       ([NotifyRequestDone (hd (ses_pending_datagram_requests self)) (RequestResult.Datagram data)],
        self\<lparr>ses_pending_datagram_requests := tl (ses_pending_datagram_requests self)\<rparr>)
     else if len64 (ses_pending_datagrams self) \<ge> ses_max_pending_datagrams self then ([], self)
     else ([], self\<lparr>ses_pending_datagrams := ses_pending_datagrams self @ [data]\<rparr>))"

definition read_datagram :: "Session \<Rightarrow> RequestId \<Rightarrow> effects \<times> Session" where
  "read_datagram self request_id =
    (if \<not> is_open_state (ses_state self) then
       ([session_failure request_id (Some ERR_LIB_SESSION_STATE_ERROR) ''wt_session validate failed''], self)
     else if ses_state self \<noteq> SessionState.Connecting \<and> ses_pending_datagrams self \<noteq> [] then
       ([NotifyRequestDone request_id (RequestResult.Datagram (hd (ses_pending_datagrams self)))],
        self\<lparr>ses_pending_datagrams := tl (ses_pending_datagrams self)\<rparr>)
     else ([], self\<lparr>ses_pending_datagram_requests := ses_pending_datagram_requests self @ [request_id]\<rparr>))"

definition send_datagram :: "Session \<Rightarrow> RequestId \<Rightarrow> bytes \<Rightarrow> u64 \<Rightarrow> effects \<times> Session" where
  "send_datagram self request_id data peer_max_datagram_frame_size =
    (if \<not> is_open_state (ses_state self) then
       ([session_failure request_id (Some ERR_LIB_SESSION_STATE_ERROR) ''wt_session validate failed''], self)
     else
       (let quarter_stream_id = ses_id self div 4;
            header_size = of_nat (varint_size quarter_stream_id);
            max_allowed_payload = saturating_sub peer_max_datagram_frame_size header_size
        in if len64 data > max_allowed_payload then
             ([NotifyRequestFailed request_id ErrorSource.Datagram None ''wt_datagram validate exceeded''], self)
           else
             ([SendH3Datagram (ses_id self) data, NotifyRequestDone request_id ResultNone], self)))"

subsection \<open>Replay of what arrived before the session was accepted\<close>

fun replay_capsules :: "nat \<Rightarrow> Session \<Rightarrow> f64 \<Rightarrow> effects \<times> Session" where
  "replay_capsules 0 self now = ([], self)"
| "replay_capsules (Suc n) self now =
    (case ses_pending_capsules self of
       [] \<Rightarrow> ([], self)
     | (capsule_type, capsule_value) # capsules \<Rightarrow>
         (let (effects, self) = recv_capsule (self\<lparr>ses_pending_capsules := capsules\<rparr>) capsule_type capsule_value now
          in if ses_state self \<noteq> SessionState.Connected then (effects, self)
             else (let (more, self) = replay_capsules n self now in (effects @ more, self))))"

fun replay_datagrams :: "nat \<Rightarrow> Session \<Rightarrow> effects \<times> Session" where
  "replay_datagrams 0 self = ([], self)"
| "replay_datagrams (Suc n) self =
    (if ses_pending_datagram_requests self \<noteq> [] \<and> ses_pending_datagrams self \<noteq> [] then
       (let (effects, self') = recv_datagram
              (self\<lparr>ses_pending_datagrams := tl (ses_pending_datagrams self)\<rparr>) (hd (ses_pending_datagrams self));
            (more, self') = replay_datagrams n self'
        in (effects @ more, self'))
     else ([], self))"

definition replay_streams :: "Session \<Rightarrow> effects \<times> Session" where
  "replay_streams self =
    (map (\<lambda>stream_id. EmitStreamEvent stream_id StreamOpened (Some (ses_id self))
            (Some (stream_direction_from_id stream_id (ses_is_client self))) (Some True) None)
       (filter (\<lambda>stream_id. stream_id |\<in>| fmdom (ses_streams self)) (ses_pending_streams self)),
     self\<lparr>ses_pending_streams := []\<rparr>)"

definition replay_pending_queues :: "Session \<Rightarrow> f64 \<Rightarrow> effects \<times> Session" where
  "replay_pending_queues self now =
    (let was_pending = ses_pending_capsules self \<noteq> [];
         (capsule_effects, self) = replay_capsules (length (ses_pending_capsules self)) self now
     in if was_pending \<and> ses_state self \<noteq> SessionState.Connected then (capsule_effects, self)
        else
          (let (datagram_effects, self) = replay_datagrams (length (ses_pending_datagrams self)) self;
               (stream_effects, self) = replay_streams self
           in (capsule_effects @ datagram_effects @ stream_effects, self)))"

subsection \<open>Opening, draining and closing the session\<close>

definition session_ready_event :: "Session \<Rightarrow> SessionEventFields \<Rightarrow> Effect" where
  "session_ready_event self event_fields = EmitSessionEvent (ses_id self) SessionReady event_fields"

text \<open>The header that announces the chosen protocol, or the reason it cannot be sent.\<close>

definition accept_protocol_header :: "Session \<Rightarrow> string option \<Rightarrow> string + Headers" where
  "accept_protocol_header self wt_protocol =
    (case wt_protocol of
       None \<Rightarrow> Inr []
     | Some protocol \<Rightarrow>
         (case encode_wt_protocol_list [protocol] of
            Inl _ \<Rightarrow> Inl ''wt_protocol encode failed''
          | Inr encoded \<Rightarrow>
              if \<not> (case ses_wt_available_protocols self of
                      None \<Rightarrow> False | Some protocols \<Rightarrow> protocol \<in> set protocols)
              then Inl ''wt_protocol validate invalid''
              else Inr [(WT_PROTOCOL, encoded)]))"

definition session_accept :: "Session \<Rightarrow> RequestId \<Rightarrow> Headers \<Rightarrow> string option \<Rightarrow> f64 \<Rightarrow> effects \<times> Session" where
  "session_accept self request_id headers wt_protocol now =
    (if ses_is_client self then
       ([session_failure request_id None ''wt_session validate failed''], self)
     else if ses_state self \<noteq> SessionState.Connecting then
       ([session_failure request_id (Some ERR_LIB_SESSION_STATE_ERROR) ''wt_session validate failed''], self)
     else if \<not> is_valid_user_headers headers False then
       ([session_failure request_id None ''h3_headers validate invalid''], self)
     else
       case accept_protocol_header self wt_protocol of
         Inl reason \<Rightarrow> ([session_failure request_id None reason], self)
       | Inr protocol_header \<Rightarrow>
           (let response_headers = [(bstr '':status'', bstr ''200'')] @ headers @ protocol_header;
                self = self\<lparr>ses_ready_at := Some now,
                            ses_wt_protocol := wt_protocol,
                            ses_state := SessionState.Connected\<rparr>;
                (replay_effects, self) = replay_pending_queues self now
            in ([SendH3Headers (ses_id self) response_headers False,
                 session_ready_event self (no_fields\<lparr>ev_wt_protocol := wt_protocol, ev_ready_at := Some now\<rparr>),
                 NotifyRequestDone request_id ResultNone]
                @ replay_effects, self)))"

definition session_confirm :: "Session \<Rightarrow> string option \<Rightarrow> f64 \<Rightarrow> effects \<times> Session" where
  "session_confirm self wt_protocol now =
    (if ses_state self \<noteq> SessionState.Connecting then ([], self)
     else
       (let self = self\<lparr>ses_ready_at := Some now,
                        ses_wt_protocol := wt_protocol,
                        ses_state := SessionState.Connected\<rparr>;
            ready = session_ready_event self
              (no_fields\<lparr>ev_path := Some (ses_path self), ev_headers := Some (ses_headers self),
                         ev_wt_protocol := wt_protocol, ev_ready_at := Some now\<rparr>);
            (replay_effects, self) = replay_pending_queues self now
        in (ready # replay_effects, self)))"

definition session_drain :: "Session \<Rightarrow> effects \<times> Session" where
  "session_drain self =
    (if ses_state self \<noteq> SessionState.Connected then ([], self)
     else
       ([SendH3Capsule (ses_id self) WT_CAPSULE_TYPE_DRAIN_SESSION [] False,
         EmitSessionEvent (ses_id self) SessionDraining no_fields],
        self\<lparr>ses_state := SessionState.Draining\<rparr>))"

text \<open>The capsule of an abrupt close: a 32-bit code and a reason cut at a character boundary.\<close>

definition close_capsule_value :: "ErrorCode \<Rightarrow> string \<Rightarrow> bytes" where
  "close_capsule_value error_code reason =
    (let limit = unat WT_CLOSE_REASON_SIZE_LIMIT;
         safe_limit = floor_char_boundary (as_bytes reason) limit;
         truncated_reason = take safe_limit (as_bytes reason)
     in put_be 4 (case u32_try_from error_code of None \<Rightarrow> u32_MAX | Some code \<Rightarrow> code) @ truncated_reason)"

definition session_close :: "Session \<Rightarrow> RequestId \<Rightarrow> ErrorCode \<Rightarrow> string option \<Rightarrow> f64 \<Rightarrow> effects \<times> Session" where
  "session_close self request_id error_code reason now =
    (if ses_state self \<in> {SessionState.Closed, SessionState.Closing} then
       ([NotifyRequestDone request_id ResultNone], self)
     else
       (let (effects, self) = close_down self (Some error_code) reason SessionState.Closing now;
            text = (case reason of None \<Rightarrow> [] | Some text \<Rightarrow> text);
            is_clean_close = error_code = ERR_APP_NO_ERROR \<and> text = [];
            close_effect =
              (if is_clean_close then SendQuicData (ses_id self) [] True
               else SendH3Capsule (ses_id self) WT_CAPSULE_TYPE_CLOSE_SESSION (close_capsule_value error_code text) True)
        in (effects @ [close_effect, session_closed_event self (Some error_code) reason,
                       NotifyRequestDone request_id ResultNone], self)))"

definition recv_connect_close :: "Session \<Rightarrow> ErrorCode \<Rightarrow> string \<Rightarrow> f64 \<Rightarrow> effects \<times> Session" where
  "recv_connect_close self error_code reason now =
    (if ses_state self = SessionState.Closed then ([], self)
     else if ses_state self = SessionState.Closing then ([], self\<lparr>ses_state := SessionState.Closed\<rparr>)
     else
       (let (effects, self) = close_down self (Some error_code) (Some reason) SessionState.Closed now
        in (effects @ [session_closed_event self (Some error_code) (Some reason)], self)))"

fun decimal :: "nat \<Rightarrow> string" where
  "decimal n =
    (if n < 10 then [char_of (48 + n)] else decimal (n div 10) @ [char_of (48 + n mod 10)])"

declare decimal.simps [simp del]

definition session_reject :: "Session \<Rightarrow> RequestId \<Rightarrow> Headers \<Rightarrow> u16 \<Rightarrow> f64 \<Rightarrow> effects \<times> Session" where
  "session_reject self request_id headers status_code now =
    (if ses_is_client self then
       ([session_failure request_id None ''wt_session validate failed''], self)
     else if ses_state self \<noteq> SessionState.Connecting then
       ([session_failure request_id (Some ERR_LIB_SESSION_STATE_ERROR) ''wt_session validate failed''], self)
     else if \<not> (300 \<le> status_code \<and> status_code \<le> 599) then
       ([session_failure request_id None ''wt_session validate invalid''], self)
     else if \<not> is_valid_user_headers headers False then
       ([session_failure request_id None ''h3_headers validate invalid''], self)
     else
       (let (effects, self) =
              close_down self (ses_close_code self) (Some ''wt_session reject'') SessionState.Closed now;
            response_headers = [(bstr '':status'', bstr (decimal (unat status_code)))] @ headers
        in (effects
            @ [SendH3Headers (ses_id self) response_headers True,
               EmitSessionEvent (ses_id self) SessionClosed
                 (no_fields\<lparr>ev_status_code := Some status_code, ev_reason := Some ''wt_session reject''\<rparr>),
               NotifyRequestDone request_id ResultNone], self)))"

subsection \<open>Stream operations\<close>

text \<open>A call on one stream of the session followed by the removal of the stream if it is closed.\<close>

definition update_stream :: "Session \<Rightarrow> StreamId \<Rightarrow> effects \<times> Stream \<Rightarrow> effects \<times> Session" where
  "update_stream self stream_id = (\<lambda>(effects, stream).
    (let self = self\<lparr>ses_streams := fmupd stream_id stream (ses_streams self)\<rparr>;
         (closed_effects, self) = session_handle_closed self stream_id
     in (effects @ closed_effects, self)))"

definition session_stream_acknowledged :: "Session \<Rightarrow> StreamId \<Rightarrow> effects \<times> Session" where
  "session_stream_acknowledged self stream_id =
    (case fmlookup (ses_streams self) stream_id of
       None \<Rightarrow> ([], self)
     | Some stream \<Rightarrow> update_stream self stream_id ([], stream_handle_data_acknowledged stream))"

definition read_stream :: "Session \<Rightarrow> StreamId \<Rightarrow> RequestId \<Rightarrow> u64 \<Rightarrow> effects \<times> Session" where
  "read_stream self stream_id request_id max_bytes =
    (case fmlookup (ses_streams self) stream_id of
       None \<Rightarrow> ([stream_resolve_failure request_id], self)
     | Some stream \<Rightarrow> update_stream self stream_id (stream_read stream request_id max_bytes))"

definition session_recv_stop_sending :: "Session \<Rightarrow> StreamId \<Rightarrow> ErrorCode \<Rightarrow> effects \<times> Session" where
  "session_recv_stop_sending self stream_id error_code =
    (case fmlookup (ses_streams self) stream_id of
       None \<Rightarrow> ([], self)
     | Some stream \<Rightarrow>
         (let (stream_effects, stream) = stream_recv_stop_sending stream error_code
          in update_stream self stream_id (suppress_pending_stream_events self stream_id stream_effects, stream)))"

definition recv_stream_reset :: "Session \<Rightarrow> StreamId \<Rightarrow> ErrorCode \<Rightarrow> effects \<times> Session" where
  "recv_stream_reset self stream_id error_code =
    (case fmlookup (ses_streams self) stream_id of
       None \<Rightarrow> ([], self)
     | Some stream \<Rightarrow>
         (let (stream_effects, stream) = stream_recv_reset stream error_code
          in update_stream self stream_id (suppress_pending_stream_events self stream_id stream_effects, stream)))"

definition recv_stream_data :: "Session \<Rightarrow> StreamId \<Rightarrow> bytes \<Rightarrow> bool \<Rightarrow> f64 \<Rightarrow> effects \<times> Session" where
  "recv_stream_data self stream_id data end_stream now =
    (case fmlookup (ses_streams self) stream_id of
       None \<Rightarrow> ([], self)
     | Some stream \<Rightarrow>
         (let data_len = len64 data;
              self = self\<lparr>ses_data_received := ses_data_received self + data_len\<rparr>
          in if ses_flow_control_negotiated self \<and> ses_data_received self > ses_local_max_data self then
               session_abort self ERR_WT_FLOW_CONTROL_ERROR ''wt_session validate exceeded'' now
             else
               (let (effects, stream) = stream_recv_data stream data end_stream;
                    self = self\<lparr>ses_streams := fmupd stream_id stream (ses_streams self),
                                ses_data_consumed := ses_data_consumed self + data_len\<rparr>;
                    (credit_effect, self) = replenish_data_credit self False;
                    (closed_effects, self) = session_handle_closed self stream_id
                in (effects @ option_effect credit_effect @ closed_effects, self))))"

definition reset_stream :: "Session \<Rightarrow> StreamId \<Rightarrow> RequestId \<Rightarrow> ErrorCode \<Rightarrow> effects \<times> Session" where
  "reset_stream self stream_id request_id error_code =
    (case fmlookup (ses_streams self) stream_id of
       None \<Rightarrow> ([NotifyRequestDone request_id ResultNone], self)
     | Some stream \<Rightarrow> update_stream self stream_id (stream_reset stream request_id error_code))"

definition stop_stream :: "Session \<Rightarrow> StreamId \<Rightarrow> RequestId \<Rightarrow> ErrorCode \<Rightarrow> effects \<times> Session" where
  "stop_stream self stream_id request_id error_code =
    (case fmlookup (ses_streams self) stream_id of
       None \<Rightarrow> ([NotifyRequestDone request_id ResultNone], self)
     | Some stream \<Rightarrow> update_stream self stream_id (stream_stop stream request_id error_code))"

subsection \<open>Queries\<close>

definition session_diagnostics_snapshot :: "Session \<Rightarrow> SessionDiagnostics" where
  "session_diagnostics_snapshot self =
    \<lparr>ssd_close_code = ses_close_code self,
     ssd_close_reason = ses_close_reason self,
     ssd_closed_at = ses_closed_at self,
     ssd_created_at = ses_created_at self,
     ssd_data_consumed = ses_data_consumed self,
     ssd_data_received = ses_data_received self,
     ssd_data_sent = ses_data_sent self,
     ssd_flow_control_negotiated = ses_flow_control_negotiated self,
     ssd_headers = ses_headers self,
     ssd_is_client = ses_is_client self,
     ssd_local_max_data = ses_local_max_data self,
     ssd_local_max_streams_bidi = ses_local_max_streams_bidi self,
     ssd_local_max_streams_uni = ses_local_max_streams_uni self,
     ssd_local_streams_bidi_opened = ses_local_streams_bidi_opened self,
     ssd_local_streams_uni_opened = ses_local_streams_uni_opened self,
     ssd_path = ses_path self,
     ssd_peer_max_data = ses_peer_max_data self,
     ssd_peer_max_streams_bidi = ses_peer_max_streams_bidi self,
     ssd_peer_max_streams_uni = ses_peer_max_streams_uni self,
     ssd_peer_streams_bidi_closed = ses_peer_streams_bidi_closed self,
     ssd_peer_streams_bidi_opened = ses_peer_streams_bidi_opened self,
     ssd_peer_streams_uni_closed = ses_peer_streams_uni_closed self,
     ssd_peer_streams_uni_opened = ses_peer_streams_uni_opened self,
     ssd_ready_at = ses_ready_at self,
     ssd_session_id = ses_id self,
     ssd_state = ses_state self,
     ssd_wt_available_protocols = ses_wt_available_protocols self,
     ssd_wt_protocol = ses_wt_protocol self\<rparr>"

definition session_diagnose :: "Session \<Rightarrow> RequestId \<Rightarrow> effects" where
  "session_diagnose self request_id =
    [NotifyRequestDone request_id (RequestResult.SessionDiagnostics (session_diagnostics_snapshot self))]"

definition diagnose_stream :: "Session \<Rightarrow> StreamId \<Rightarrow> RequestId \<Rightarrow> effects" where
  "diagnose_stream self stream_id request_id =
    (case fmlookup (ses_streams self) stream_id of
       Some stream \<Rightarrow> stream_diagnose stream request_id
     | None \<Rightarrow> [stream_resolve_failure request_id])"

definition exporter_context :: "SessionId \<Rightarrow> string \<Rightarrow> bytes \<Rightarrow> bytes" where
  "exporter_context session_id label context =
    put_be 8 session_id @ [of_nat (length label)] @ as_bytes label @ [of_nat (length context)] @ context"

definition export_keying_material :: "Session \<Rightarrow> RequestId \<Rightarrow> string \<Rightarrow> bytes \<Rightarrow> u32 \<Rightarrow> effects" where
  "export_keying_material self request_id label context out_len =
    (if ses_state self \<notin> {SessionState.Connected, SessionState.Draining} then
       [session_failure request_id (Some ERR_LIB_SESSION_STATE_ERROR) ''wt_session validate failed'']
     else if length label > 255 \<or> length context > 255 then
       [session_failure request_id None ''wt_session validate invalid'']
     else
       [ExportTlsKeyingMaterial request_id WT_EXPORTER_LABEL (exporter_context (ses_id self) label context) out_len])"

definition has_stream :: "Session \<Rightarrow> StreamId \<Rightarrow> bool" where
  "has_stream self stream_id \<longleftrightarrow> stream_id |\<in>| fmdom (ses_streams self)"

definition session_is_closed :: "Session \<Rightarrow> bool" where
  "session_is_closed self \<longleftrightarrow> ses_state self = SessionState.Closed"

end
