(* ===== verification/Session_Streams.thy ===== *)
theory Session_Streams
  imports WtSession
begin

text \<open>
  What the session relies on in its streams: every call of the session keeps a stream in its
  invariant, charges to the session exactly the data it emits, hands no request to the
  transport, and a stream that has closed holds no request, so that dropping it loses none.
  The last point needs that the transport reports the completion of a write before the
  acknowledgement of the end of the stream (\<open>settled_call\<close>), the order in which
  \<open>transport/connection.rs\<close> queues the two events.
\<close>

definition stream_settled :: "Stream \<Rightarrow> bool" where
  "stream_settled st \<longleftrightarrow>
    (stm_send_state st = Some StreamSendState.DataReceived \<longrightarrow> stm_pending_write_request st = None)"

definition stream_good :: "StreamId \<Rightarrow> Stream \<Rightarrow> bool" where
  "stream_good sid st \<longleftrightarrow> stream_inv st \<and> stream_settled st \<and> stm_id st = sid"

text \<open>The requests an effect hands over to the transport, and the stream data it carries.\<close>

fun handed :: "Effect \<Rightarrow> RequestId list" where
  "handed (CreateQuicStream r _ _) = [r]"
| "handed (ExportTlsKeyingMaterial r _ _ _) = [r]"
| "handed _ = []"

definition dispatched :: "effects \<Rightarrow> RequestId list" where
  "dispatched es = concat (map (\<lambda>e. answers e @ handed e) es)"

fun payload :: "Effect \<Rightarrow> nat" where
  "payload (SendQuicData _ d _) = length d"
| "payload _ = 0"

definition total_payload :: "effects \<Rightarrow> nat" where
  "total_payload es = sum_list (map payload es)"

lemma dispatched_simps [simp]:
  "dispatched [] = []" "dispatched (e # es) = answers e @ handed e @ dispatched es"
  "dispatched (es @ fs) = dispatched es @ dispatched fs"
  by (simp_all add: dispatched_def)

lemma total_payload_simps [simp]:
  "total_payload [] = 0" "total_payload (e # es) = payload e + total_payload es"
  "total_payload (es @ fs) = total_payload es + total_payload fs"
  by (simp_all add: total_payload_def)

definition stream_effect :: "Effect \<Rightarrow> bool" where
  "stream_effect e \<longleftrightarrow> handed e = [] \<and> payload e = 0"

lemma stream_effect_simps [simp]:
  "stream_effect (NotifyRequestDone r v)" "stream_effect (NotifyRequestFailed r src ec m)"
  "stream_effect (ResetQuicStream i h)" "stream_effect (StopQuicStream i h)" "stream_effect (ReceiveQuicData i n)"
  "stream_effect (EmitStreamEvent i t a b c d)"
  by (simp_all add: stream_effect_def)

lemma stream_failures [simp]:
  "stream_effect (stream_abort_failure ec r)" "stream_effect (stream_request_failure r ec m)"
  by (simp_all add: stream_abort_failure_def stream_request_failure_def)

lemma stream_effect_map [simp]:
  "list_all stream_effect (map (\<lambda>(_, request_id, _). stream_abort_failure ec request_id) ws)"
  "list_all stream_effect (map (\<lambda>(request_id, _). stream_abort_failure ec request_id) rs)"
  "list_all stream_effect (map (\<lambda>(request_id, _). NotifyRequestDone request_id (ReadData [])) rs)"
  by (induction ws; auto) (induction rs; auto)+

lemma stream_effects_sum:
  "list_all stream_effect es \<Longrightarrow> dispatched es = answered es \<and> total_payload es = 0"
  by (induction es) (auto simp: stream_effect_def)

lemma send_reset_effects: "list_all stream_effect (fst (stream_send_reset st ec h))"
  by (simp add: stream_send_reset_def split: option.split)

lemma send_stop_effects: "list_all stream_effect (fst (stream_send_stop st ec h))"
  by (simp add: stream_send_stop_def)

lemma stream_op_effects:
  "list_all stream_effect (fst (stream_abort st e))"
  "list_all stream_effect (fst (stream_read st r n))"
  "list_all stream_effect (fst (stream_recv_data st d fin))"
  "list_all stream_effect (fst (stream_recv_reset st e))"
  "list_all stream_effect (fst (stream_recv_stop_sending st e))"
  "list_all stream_effect (fst (stream_reset st r e))"
  "list_all stream_effect (fst (stream_stop st r e))"
  using send_reset_effects send_stop_effects
  by (auto simp: stream_abort_def stream_read_def stream_recv_data_def stream_deliver_def stream_deliver_end_def
      stream_recv_reset_def stream_recv_stop_sending_def stream_reset_def stream_stop_def Let_def
      case_prod_beta split: option.split list.split)

lemma flush_effects:
  assumes "stream_inv st"
  shows "dispatched (fst (stream_flush_writes st c)) = []"
    "total_payload (fst (stream_flush_writes st c)) = unat (fst (snd (stream_flush_writes st c)))"
  using stream_inv_front(1) [OF assms]
  by (cases rule: flush_cases [of st c];
      fastforce simp: word_le_nat_alt word_less_nat_alt unat_len64)+

lemma complete_write_effects:
  assumes "stream_inv st"
  shows "dispatched (fst (stream_complete_write st c)) = answered (fst (stream_complete_write st c))"
    "total_payload (fst (stream_complete_write st c)) = unat (fst (snd (stream_complete_write st c)))"
  using flush_effects [OF pending_cleared_inv [OF assms], of c] flush_holds(2) [OF pending_cleared_inv [OF assms], of c]
  by (simp_all add: stream_complete_write_def Let_def case_prod_beta split: option.split)

lemma stream_write_effects:
  assumes "stream_inv st" "r \<notin> set (stream_write_requests st)" "length d < 2 ^ 63"
  shows "dispatched (fst (stream_write st r d e c)) = answered (fst (stream_write st r d e c))
    \<and> total_payload (fst (stream_write st r d e c)) = unat (fst (snd (stream_write st r d e c)))"
proof (cases "write_accepted st d")
  case True
  then show ?thesis
    using flush_effects [OF enqueue_inv [OF assms(1) True assms(2,3)], of e c]
      flush_holds(2) [OF enqueue_inv [OF assms(1) True assms(2,3)], of e c]
    by (simp add: stream_write_accepted)
next
  case False
  from stream_write_refused [OF this] obtain f where f: "stream_write st r d e c = ([f], 0, st)" "answers f = [r]"
    by blast
  then have "handed f = [] \<and> payload f = 0" by (cases f) auto
  with f show ?thesis by simp
qed

text \<open>Goodness of a stream is kept by every call of the session.\<close>

definition settled_call :: "StreamCall \<Rightarrow> Stream \<Rightarrow> bool" where
  "settled_call c st \<longleftrightarrow> (c = StreamAcknowledged \<longrightarrow> stm_send_state st = Some DataSent \<longrightarrow> stm_pending_write_request st = None)"

lemma flush_settled: "stream_settled st \<Longrightarrow> stream_settled (snd (snd (stream_flush_writes st c)))"
  by (cases rule: flush_cases [of st c]) (auto simp: stream_settled_def)

lemma write_settled: "stream_settled st \<Longrightarrow> stream_settled (snd (snd (stream_write st r d e c)))"
  using stream_write_refused [of st d r e c] flush_settled [of "enqueue_write st r d e" c]
  by (cases "write_accepted st d") (auto simp: stream_write_accepted, simp add: stream_settled_def enqueue_write_def)

lemma send_reset_settled: "stream_settled st \<Longrightarrow> stream_settled (snd (stream_send_reset st ec h))"
  by (simp add: stream_settled_def stream_send_reset_def)

lemma send_stop_settled: "stream_settled st \<Longrightarrow> stream_settled (snd (stream_send_stop st ec h))"
  by (simp add: stream_settled_def stream_send_stop_def)

lemma stream_call_settled:
  assumes "stream_settled st" "settled_call c st"
  shows "stream_settled (snd (stream_call c st))"
proof (cases c)
  case (StreamCompleteWrite k)
  have "stream_settled (st\<lparr>stm_pending_write_request := None\<rparr>)"
    by (simp add: stream_settled_def)
  with StreamCompleteWrite assms show ?thesis
    by (simp add: complete_write_eq flush_settled)
next
  case (StreamRecvData d e)
  with assms show ?thesis
    by (cases "stm_receive_state st = Some Receive")
       (simp_all add: stream_recv_data_state, simp_all add: stream_settled_def stream_recv_data_def)
qed (use assms in \<open>auto simp: stream_abort_def send_reset_settled send_stop_settled flush_settled write_settled
      stream_read_def stream_recv_reset_def stream_recv_stop_sending_def stream_reset_def stream_stop_def Let_def
      case_prod_beta split: option.split,
      auto simp: stream_settled_def stream_handle_data_acknowledged_def settled_call_def\<close>)

lemma stream_call_good:
  assumes "stream_good sid st" "stream_call_ok c st" "settled_call c st"
  shows "stream_good sid (snd (stream_call c st))"
  using assms by (simp add: stream_good_def stream_call_inv stream_call_settled stream_call_id)

lemma closed_holds_nothing:
  assumes "stream_good sid st" "stream_is_closed st"
  shows "stream_holds st = {#}"
proof -
  have s: "stm_send_state st \<noteq> Some Ready" "stm_receive_state st \<noteq> Some Receive" "stm_send_state st \<noteq> Some DataSent"
    using assms(2) by (auto simp: stream_is_closed_def split: option.splits)
  then have "stm_pending_write_request st = None" "stm_write_buffer st = []" "stm_pending_read_requests st = []"
    using assms(1) by (auto simp: stream_good_def stream_inv_def stream_settled_def)
  then show ?thesis by (simp add: stream_holds_def)
qed

lemma stream_new_good:
  "unat n < 2 ^ 63 \<Longrightarrow> stream_good sid (stream_new sid i dir peer \<lparr>sp_max_write_buffer_size = n\<rparr> t)"
  by (simp add: stream_good_def stream_new_inv) (simp add: stream_new_def stream_settled_def)

lemma stream_new_idle [simp]:
  "stream_holds (stream_new sid i dir peer p t) = {#}" "\<not> stream_is_blocked (stream_new sid i dir peer p t)"
  by (simp_all add: stream_new_def stream_holds_def stream_is_blocked_def)

end
