(* ===== verification/Session_Shapes.thy ===== *)
theory Session_Shapes
  imports Session_Streams
begin

text \<open>
  The helpers of the session as equations: which effects they add (none that answers a request
  or carries stream data) and which fields of the session they change, so that the invariant
  proofs rewrite with the new state instead of unfolding the helper.
\<close>

definition quiet_effect :: "Effect \<Rightarrow> bool" where
  "quiet_effect e \<longleftrightarrow> answers e = [] \<and> handed e = [] \<and> payload e = 0"

abbreviation quiet :: "effects \<Rightarrow> bool" where
  "quiet es \<equiv> list_all quiet_effect es"

lemma quiet_sum: "quiet es \<Longrightarrow> dispatched es = [] \<and> total_payload es = 0"
  by (induction es) (auto simp: quiet_effect_def)

lemma quiet_simps [simp]:
  "quiet_effect (SendH3Capsule i ct v e)" "quiet_effect (EmitStreamEvent i t a b c d)" "quiet_effect (EmitSessionEvent i t ev)"
  "quiet_effect (ResetQuicStream i h)" "quiet_effect (StopQuicStream i h)" "quiet_effect (SendQuicData i [] e)"
  "quiet_effect (SendH3Headers i hs e)" "quiet_effect (SendH3Datagram i dg)"
  by (simp_all add: quiet_effect_def)

lemma suppress_sum [simp]:
  "dispatched (suppress_pending_stream_events s sid es) = dispatched es"
  "answered (suppress_pending_stream_events s sid es) = answered es"
  "total_payload (suppress_pending_stream_events s sid es) = total_payload es"
proof -
  have "is_stream_event e \<Longrightarrow> answers e = [] \<and> handed e = [] \<and> payload e = 0" for e
    by (cases e) auto
  then have "dispatched (filter (\<lambda>e. \<not> is_stream_event e) es) = dispatched es"
    "answered (filter (\<lambda>e. \<not> is_stream_event e) es) = answered es"
    "total_payload (filter (\<lambda>e. \<not> is_stream_event e) es) = total_payload es"
    by (induction es) auto
  then show "dispatched (suppress_pending_stream_events s sid es) = dispatched es"
    "answered (suppress_pending_stream_events s sid es) = answered es"
    "total_payload (suppress_pending_stream_events s sid es) = total_payload es"
    by (simp_all add: suppress_pending_stream_events_def)
qed

lemma suppress_quiet: "quiet es \<Longrightarrow> quiet (suppress_pending_stream_events s sid es)"
  by (auto simp: suppress_pending_stream_events_def list_all_iff)

lemma option_effect_simps [simp]: "option_effect None = []" "option_effect (Some e) = [e]"
  by (simp_all add: option_effect_def)

lemma saturating_add_ge: "a \<le> saturating_add a b"
proof -
  have "unat a \<le> 18446744073709551615"
    using unat_u64_bound [of a] by linarith
  then show ?thesis by (simp add: word_le_nat_alt unat_saturating_add)
qed

subsection \<open>Shapes of the helpers\<close>

lemma replenish_data_shape:
  obtains e m where "replenish_data_credit s f = (e, s\<lparr>ses_local_max_data := m\<rparr>)" "quiet (option_effect e)"
    "m = ses_local_max_data s \<or>
     m = saturating_add (ses_data_consumed s) (ses_receive_window s) \<and> ses_local_max_data s < m"
proof (cases "replenish_data_credit s f = (None, s)")
  case True
  then show ?thesis using that [of None "ses_local_max_data s"] by (simp add: option_effect_def)
next
  case False
  let ?m = "saturating_add (ses_data_consumed s) (ses_receive_window s)"
  from False obtain v where v: "replenish_data_credit s f =
      (Some (SendH3Capsule (ses_id s) WT_CAPSULE_TYPE_MAX_DATA v False), s\<lparr>ses_local_max_data := ?m\<rparr>)"
    and "\<not> ?m \<le> saturating_add (ses_local_max_data s) (if f then 0 else ses_receive_window s div 2)"
    by (auto simp: replenish_data_credit_def Let_def split: if_splits sum.splits)
  then have "ses_local_max_data s < ?m"
    by (meson le_less_trans not_le saturating_add_ge)
  with v show ?thesis
    by (intro that [OF v]) (simp_all add: option_effect_def)
qed

lemma replenish_streams_shape:
  obtains e mu mb where
    "replenish_streams_credit s u f = (e, s\<lparr>ses_local_max_streams_uni := mu, ses_local_max_streams_bidi := mb\<rparr>)"
    "quiet (option_effect e)"
    "mu = ses_local_max_streams_uni s \<or>
     mu = saturating_add (ses_peer_streams_uni_closed s) (ses_initial_max_streams_uni s) \<and> ses_local_max_streams_uni s < mu"
    "mb = ses_local_max_streams_bidi s \<or>
     mb = saturating_add (ses_peer_streams_bidi_closed s) (ses_initial_max_streams_bidi s) \<and> ses_local_max_streams_bidi s < mb"
proof (cases "replenish_streams_credit s u f = (None, s)")
  case True
  then show ?thesis
    by (intro that [where mu = "ses_local_max_streams_uni s" and mb = "ses_local_max_streams_bidi s" and e = None])
       (simp_all add: option_effect_def)
next
  case False
  show ?thesis
  proof (cases u)
    case True
    let ?m = "saturating_add (ses_peer_streams_uni_closed s) (ses_initial_max_streams_uni s)"
    have "replenish_streams_credit s u f = (None, s) \<or> (\<exists>v. replenish_streams_credit s u f =
        (Some (SendH3Capsule (ses_id s) WT_CAPSULE_TYPE_MAX_STREAMS_UNI v False), s\<lparr>ses_local_max_streams_uni := ?m\<rparr>)
      \<and> \<not> ?m \<le> ses_local_max_streams_uni s)"
      using True by (simp add: replenish_streams_credit_def Let_def split: sum.split)
    with False obtain v where v: "replenish_streams_credit s u f =
        (Some (SendH3Capsule (ses_id s) WT_CAPSULE_TYPE_MAX_STREAMS_UNI v False), s\<lparr>ses_local_max_streams_uni := ?m\<rparr>)"
      "\<not> ?m \<le> ses_local_max_streams_uni s"
      by blast
    then show ?thesis
      by (intro that [where mu = ?m and mb = "ses_local_max_streams_bidi s"
            and e = "Some (SendH3Capsule (ses_id s) WT_CAPSULE_TYPE_MAX_STREAMS_UNI v False)"])
         (simp_all add: not_le)
  next
    case uni: False
    let ?m = "saturating_add (ses_peer_streams_bidi_closed s) (ses_initial_max_streams_bidi s)"
    have "replenish_streams_credit s u f = (None, s) \<or> (\<exists>v. replenish_streams_credit s u f =
        (Some (SendH3Capsule (ses_id s) WT_CAPSULE_TYPE_MAX_STREAMS_BIDI v False), s\<lparr>ses_local_max_streams_bidi := ?m\<rparr>)
      \<and> \<not> ?m \<le> ses_local_max_streams_bidi s)"
      using uni by (simp add: replenish_streams_credit_def Let_def split: sum.split)
    with False obtain v where v: "replenish_streams_credit s u f =
        (Some (SendH3Capsule (ses_id s) WT_CAPSULE_TYPE_MAX_STREAMS_BIDI v False), s\<lparr>ses_local_max_streams_bidi := ?m\<rparr>)"
      "\<not> ?m \<le> ses_local_max_streams_bidi s"
      by blast
    then show ?thesis
      by (intro that [where mb = ?m and mu = "ses_local_max_streams_uni s"
            and e = "Some (SendH3Capsule (ses_id s) WT_CAPSULE_TYPE_MAX_STREAMS_BIDI v False)"])
         (simp_all add: not_le)
  qed
qed

lemma emit_data_blocked_shape:
  obtains e l where "emit_data_blocked s = (e, s\<lparr>ses_last_data_blocked_sent := l\<rparr>)" "quiet (option_effect e)"
proof -
  let ?t = "s\<lparr>ses_last_data_blocked_sent := Some (ses_peer_max_data s)\<rparr>"
  have "emit_data_blocked s = (None, s) \<or> emit_data_blocked s = (None, ?t)
    \<or> (\<exists>v. emit_data_blocked s = (Some (SendH3Capsule (ses_id s) WT_CAPSULE_TYPE_DATA_BLOCKED v False), ?t))"
    by (simp add: emit_data_blocked_def Let_def split: sum.split)
  then consider "emit_data_blocked s = (None, s)" | "emit_data_blocked s = (None, ?t)"
    | v where "emit_data_blocked s = (Some (SendH3Capsule (ses_id s) WT_CAPSULE_TYPE_DATA_BLOCKED v False), ?t)"
    by blast
  then show ?thesis
  proof cases
    case 1
    then show ?thesis
      by (intro that [where l = "ses_last_data_blocked_sent s" and e = None]) (simp_all add: option_effect_def)
  qed (rule that, assumption, simp add: option_effect_def)+
qed

lemma emit_streams_blocked_shape:
  obtains e lu lb where
    "emit_streams_blocked s u = (e, s\<lparr>ses_last_streams_blocked_uni_sent := lu, ses_last_streams_blocked_bidi_sent := lb\<rparr>)"
    "quiet (option_effect e)"
proof -
  let ?u = "s\<lparr>ses_last_streams_blocked_uni_sent := Some (ses_peer_max_streams_uni s)\<rparr>"
  let ?b = "s\<lparr>ses_last_streams_blocked_bidi_sent := Some (ses_peer_max_streams_bidi s)\<rparr>"
  have "emit_streams_blocked s u = (None, s)
    \<or> (\<exists>v t. emit_streams_blocked s u = (Some (SendH3Capsule (ses_id s) t v False), ?u))
    \<or> (\<exists>v t. emit_streams_blocked s u = (Some (SendH3Capsule (ses_id s) t v False), ?b))"
    by (cases u) (simp_all add: emit_streams_blocked_def Let_def split: sum.split)
  then consider "emit_streams_blocked s u = (None, s)"
    | v t where "emit_streams_blocked s u = (Some (SendH3Capsule (ses_id s) t v False), ?u)"
    | v t where "emit_streams_blocked s u = (Some (SendH3Capsule (ses_id s) t v False), ?b)"
    by blast
  then show ?thesis
  proof cases
    case 1
    then show ?thesis
      by (intro that [where lu = "ses_last_streams_blocked_uni_sent s" and lb = "ses_last_streams_blocked_bidi_sent s"
            and e = None])
         (simp_all add: option_effect_def)
  next
    case (2 v t)
    then show ?thesis
      by (intro that [where lu = "Some (ses_peer_max_streams_uni s)" and lb = "ses_last_streams_blocked_bidi_sent s"
            and e = "Some (SendH3Capsule (ses_id s) t v False)"])
         (simp_all add: option_effect_def)
  next
    case (3 v t)
    then show ?thesis
      by (intro that [where lu = "ses_last_streams_blocked_uni_sent s" and lb = "Some (ses_peer_max_streams_bidi s)"
            and e = "Some (SendH3Capsule (ses_id s) t v False)"])
         (simp_all add: option_effect_def)
  qed
qed

text \<open>Dropping a closed stream.\<close>

definition peer_slot :: "bool \<Rightarrow> bool \<Rightarrow> StreamId \<Rightarrow> bool" where
  "peer_slot is_client u sid \<longleftrightarrow> is_peer_initiated_stream sid is_client \<and> is_unidirectional_stream sid = u"

lemma handle_closed_shape:
  assumes "fmlookup (ses_streams s) sid = Some st" "stream_is_closed st"
  obtains es mu mb where
    "session_handle_closed s sid = (es, s\<lparr>ses_streams := fmdrop sid (ses_streams s),
      ses_blocked_streams := ses_blocked_streams s - {sid},
      ses_peer_streams_uni_closed := ses_peer_streams_uni_closed s + of_bool (peer_slot (ses_is_client s) True sid),
      ses_peer_streams_bidi_closed := ses_peer_streams_bidi_closed s + of_bool (peer_slot (ses_is_client s) False sid),
      ses_local_max_streams_uni := mu, ses_local_max_streams_bidi := mb\<rparr>)"
    "quiet es"
    "mu = ses_local_max_streams_uni s \<or>
     mu = saturating_add (ses_peer_streams_uni_closed s + of_bool (peer_slot (ses_is_client s) True sid)) (ses_initial_max_streams_uni s)
     \<and> ses_local_max_streams_uni s < mu"
    "mb = ses_local_max_streams_bidi s \<or>
     mb = saturating_add (ses_peer_streams_bidi_closed s + of_bool (peer_slot (ses_is_client s) False sid)) (ses_initial_max_streams_bidi s)
     \<and> ses_local_max_streams_bidi s < mb"
proof -
  let ?s = "s\<lparr>ses_streams := fmdrop sid (ses_streams s), ses_blocked_streams := ses_blocked_streams s - {sid}\<rparr>"
  let ?es = "suppress_pending_stream_events ?s sid [EmitStreamEvent sid StreamClosed None None None None]"
  have q: "quiet ?es"
    by (simp add: suppress_quiet)
  consider (none) "\<not> peer_slot (ses_is_client s) True sid" "\<not> peer_slot (ses_is_client s) False sid"
    | (uni) "peer_slot (ses_is_client s) True sid" "\<not> peer_slot (ses_is_client s) False sid" | (bidi) "\<not> peer_slot (ses_is_client s) True sid" "peer_slot (ses_is_client s) False sid"
    by (auto simp: peer_slot_def)
  then show ?thesis
  proof cases
    case none
    then have "session_handle_closed s sid = (?es, ?s)"
      using assms by (auto simp: session_handle_closed_def peer_slot_def Let_def)
    with none q show ?thesis
      by (intro that [where es = ?es and mu = "ses_local_max_streams_uni s" and mb = "ses_local_max_streams_bidi s"])
         simp_all
  next
    case uni
    let ?t = "?s\<lparr>ses_peer_streams_uni_closed := ses_peer_streams_uni_closed s + 1\<rparr>"
    obtain e mu mb where r: "replenish_streams_credit ?t True False =
        (e, ?t\<lparr>ses_local_max_streams_uni := mu, ses_local_max_streams_bidi := mb\<rparr>)" "quiet (option_effect e)"
      "mu = ses_local_max_streams_uni ?t \<or>
       mu = saturating_add (ses_peer_streams_uni_closed ?t) (ses_initial_max_streams_uni ?t) \<and> ses_local_max_streams_uni ?t < mu"
      "mb = ses_local_max_streams_bidi ?t \<or>
       mb = saturating_add (ses_peer_streams_bidi_closed ?t) (ses_initial_max_streams_bidi ?t) \<and> ses_local_max_streams_bidi ?t < mb"
      by (rule replenish_streams_shape)
    then have "session_handle_closed s sid = (?es @ option_effect e,
        ?t\<lparr>ses_local_max_streams_uni := mu, ses_local_max_streams_bidi := mb\<rparr>)"
      using assms uni by (simp add: session_handle_closed_def peer_slot_def Let_def)
    with uni r(2-) q show ?thesis
      by (intro that [where es = "?es @ option_effect e" and mu = mu and mb = mb]) simp_all
  next
    case bidi
    let ?t = "?s\<lparr>ses_peer_streams_bidi_closed := ses_peer_streams_bidi_closed s + 1\<rparr>"
    obtain e mu mb where r: "replenish_streams_credit ?t False False =
        (e, ?t\<lparr>ses_local_max_streams_uni := mu, ses_local_max_streams_bidi := mb\<rparr>)" "quiet (option_effect e)"
      "mu = ses_local_max_streams_uni ?t \<or>
       mu = saturating_add (ses_peer_streams_uni_closed ?t) (ses_initial_max_streams_uni ?t) \<and> ses_local_max_streams_uni ?t < mu"
      "mb = ses_local_max_streams_bidi ?t \<or>
       mb = saturating_add (ses_peer_streams_bidi_closed ?t) (ses_initial_max_streams_bidi ?t) \<and> ses_local_max_streams_bidi ?t < mb"
      by (rule replenish_streams_shape)
    then have "session_handle_closed s sid = (?es @ option_effect e,
        ?t\<lparr>ses_local_max_streams_uni := mu, ses_local_max_streams_bidi := mb\<rparr>)"
      using assms bidi by (simp add: session_handle_closed_def peer_slot_def Let_def)
    with bidi r(2-) q show ?thesis
      by (intro that [where es = "?es @ option_effect e" and mu = mu and mb = mb]) simp_all
  qed
qed

lemma handle_closed_none:
  "\<not> (\<exists>st. fmlookup (ses_streams s) sid = Some st \<and> stream_is_closed st) \<Longrightarrow> session_handle_closed s sid = ([], s)"
  by (auto simp: session_handle_closed_def split: option.splits)

end
