(* ===== verification/Session_Invariants.thy ===== *)
theory Session_Invariants
  imports Session_Shapes
begin

text \<open>
  The invariant of a session and what every operation on one of its streams keeps of it:
  the streams are good; blocked writers are queued and exist only while there is no credit
  (\<open>writers_ok\<close>); what was sent and opened is within the peer's limits (\<open>window_ok\<close>); the slots of
  peer-initiated streams are accounted for one by one (\<open>slots_ok\<close>); what was received is within the
  advertised window (\<open>received_ok\<close>); the queues that wait for acceptance are bounded
  (\<open>queues_ok\<close>); and a session that is not open holds nothing (\<open>gone_ok\<close>).
\<close>

definition session_holds :: "Session \<Rightarrow> RequestId multiset" where
  "session_holds s = fm_sum (\<lambda>_. stream_holds) (ses_streams s)
    + mset (ses_blocked_stream_requests_bidi s) + mset (ses_blocked_stream_requests_uni s)
    + mset (ses_pending_datagram_requests s)"

definition streams_ok :: "Session \<Rightarrow> bool" where
  "streams_ok s \<longleftrightarrow> unat (ses_max_write_buffer_size s) < 2 ^ 63
    \<and> (\<forall>sid st. fmlookup (ses_streams s) sid = Some st \<longrightarrow> stream_good sid st)"

definition writers_ok :: "Session \<Rightarrow> bool" where
  "writers_ok s \<longleftrightarrow> ses_blocked_streams s \<subseteq> set (ses_blocked_streams_queue s)
    \<and> (\<forall>sid st. fmlookup (ses_streams s) sid = Some st \<longrightarrow> stream_is_blocked st \<longrightarrow>
         sid \<in> ses_blocked_streams s \<and> session_credit s = 0)"

definition window_ok :: "Session \<Rightarrow> bool" where
  "window_ok s \<longleftrightarrow> (ses_flow_control_negotiated s \<longrightarrow>
    ses_data_sent s \<le> ses_peer_max_data s
    \<and> ses_local_streams_bidi_opened s \<le> ses_peer_max_streams_bidi s
    \<and> ses_local_streams_uni_opened s \<le> ses_peer_max_streams_uni s)"

definition slot_ok :: "bool \<Rightarrow> u64 \<Rightarrow> u64 \<Rightarrow> u64 \<Rightarrow> u64 \<Rightarrow> nat \<Rightarrow> bool" where
  "slot_ok flow opened retired limit initial n \<longleftrightarrow> (flow \<longrightarrow>
    unat opened = unat retired + n \<and> opened \<le> limit \<and> unat limit \<le> unat retired + unat initial)"

definition peer_open :: "bool \<Rightarrow> Session \<Rightarrow> nat" where
  "peer_open u s = fm_sum (\<lambda>sid _. of_bool (peer_slot (ses_is_client s) u sid)) (ses_streams s)"

definition slots_ok :: "Session \<Rightarrow> bool" where
  "slots_ok s \<longleftrightarrow>
    slot_ok (ses_flow_control_negotiated s) (ses_peer_streams_bidi_opened s) (ses_peer_streams_bidi_closed s)
      (ses_local_max_streams_bidi s) (ses_initial_max_streams_bidi s) (peer_open False s)
    \<and> slot_ok (ses_flow_control_negotiated s) (ses_peer_streams_uni_opened s) (ses_peer_streams_uni_closed s)
      (ses_local_max_streams_uni s) (ses_initial_max_streams_uni s) (peer_open True s)"

definition received_ok :: "Session \<Rightarrow> bool" where
  "received_ok s \<longleftrightarrow> (is_open_state (ses_state s) \<longrightarrow>
    ses_data_consumed s = ses_data_received s
    \<and> (ses_flow_control_negotiated s \<longrightarrow> ses_data_received s \<le> ses_local_max_data s))"

definition queues_ok :: "Session \<Rightarrow> bool" where
  "queues_ok s \<longleftrightarrow> length (ses_pending_capsules s) \<le> unat (ses_max_pending_capsules s)
    \<and> length (ses_pending_datagrams s) \<le> unat (ses_max_pending_datagrams s)
    \<and> length (ses_pending_streams s) \<le> unat (ses_max_pending_streams s)"

definition gone_ok :: "Session \<Rightarrow> bool" where
  "gone_ok s \<longleftrightarrow> (\<not> is_open_state (ses_state s) \<longrightarrow>
    ses_streams s = fmempty \<and> ses_blocked_stream_requests_bidi s = [] \<and> ses_blocked_stream_requests_uni s = []
    \<and> ses_pending_datagram_requests s = [] \<and> ses_pending_capsules s = [] \<and> ses_pending_datagrams s = []
    \<and> ses_pending_streams s = [] \<and> ses_blocked_streams s = {} \<and> ses_blocked_streams_queue s = [])"

definition session_inv :: "Session \<Rightarrow> bool" where
  "session_inv s \<longleftrightarrow> streams_ok s \<and> writers_ok s \<and> window_ok s \<and> slots_ok s \<and> received_ok s \<and> queues_ok s \<and> gone_ok s"

text \<open>The part that also holds while the session is being closed, its streams one by one.\<close>

definition session_base :: "Session \<Rightarrow> bool" where
  "session_base s \<longleftrightarrow> streams_ok s \<and> writers_ok s \<and> window_ok s \<and> slots_ok s \<and> queues_ok s"

lemma session_inv_base: "session_inv s \<longleftrightarrow> session_base s \<and> received_ok s \<and> gone_ok s"
  by (auto simp: session_inv_def session_base_def)

lemmas session_ok_defs = streams_ok_def writers_ok_def window_ok_def slots_ok_def received_ok_def queues_ok_def
  gone_ok_def session_credit_def peer_open_def

subsection \<open>Frames\<close>

text \<open>The fields each part of the invariant depends on.\<close>

lemma streams_frame:
  assumes "streams_ok s"
    "ses_max_write_buffer_size t = ses_max_write_buffer_size s" "ses_streams t = ses_streams s"
  shows "streams_ok t"
  using assms unfolding streams_ok_def by simp

lemma writers_frame:
  assumes "writers_ok s"
    "ses_blocked_streams t = ses_blocked_streams s"
    "ses_blocked_streams_queue t = ses_blocked_streams_queue s" "ses_streams t = ses_streams s"
    "ses_flow_control_negotiated t = ses_flow_control_negotiated s"
    "ses_peer_max_data t = ses_peer_max_data s" "ses_data_sent t = ses_data_sent s"
  shows "writers_ok t"
proof -
  have "session_credit t = session_credit s"
    using assms by (simp add: session_credit_def)
  with assms show ?thesis by (auto simp: writers_ok_def)
qed

lemma window_frame:
  assumes "window_ok s"
    "ses_flow_control_negotiated t = ses_flow_control_negotiated s" "ses_data_sent t = ses_data_sent s"
    "ses_peer_max_data t = ses_peer_max_data s"
    "ses_local_streams_bidi_opened t = ses_local_streams_bidi_opened s"
    "ses_peer_max_streams_bidi t = ses_peer_max_streams_bidi s"
    "ses_local_streams_uni_opened t = ses_local_streams_uni_opened s"
    "ses_peer_max_streams_uni t = ses_peer_max_streams_uni s"
  shows "window_ok t"
  using assms unfolding window_ok_def by simp

lemma slots_frame:
  assumes "slots_ok s"
    "ses_flow_control_negotiated t = ses_flow_control_negotiated s" "ses_is_client t = ses_is_client s"
    "ses_streams t = ses_streams s" "ses_peer_streams_bidi_opened t = ses_peer_streams_bidi_opened s"
    "ses_peer_streams_bidi_closed t = ses_peer_streams_bidi_closed s"
    "ses_local_max_streams_bidi t = ses_local_max_streams_bidi s"
    "ses_initial_max_streams_bidi t = ses_initial_max_streams_bidi s"
    "ses_peer_streams_uni_opened t = ses_peer_streams_uni_opened s"
    "ses_peer_streams_uni_closed t = ses_peer_streams_uni_closed s"
    "ses_local_max_streams_uni t = ses_local_max_streams_uni s"
    "ses_initial_max_streams_uni t = ses_initial_max_streams_uni s"
  shows "slots_ok t"
  using assms unfolding slots_ok_def peer_open_def by simp

lemma received_frame:
  assumes "received_ok s"
    "ses_state t = ses_state s" "ses_data_consumed t = ses_data_consumed s"
    "ses_data_received t = ses_data_received s"
    "ses_flow_control_negotiated t = ses_flow_control_negotiated s"
    "ses_local_max_data t = ses_local_max_data s"
  shows "received_ok t"
  using assms unfolding received_ok_def by simp

lemma queues_frame:
  assumes "queues_ok s"
    "ses_pending_capsules t = ses_pending_capsules s" "ses_pending_datagrams t = ses_pending_datagrams s"
    "ses_pending_streams t = ses_pending_streams s" "ses_max_pending_capsules t = ses_max_pending_capsules s"
    "ses_max_pending_datagrams t = ses_max_pending_datagrams s"
    "ses_max_pending_streams t = ses_max_pending_streams s"
  shows "queues_ok t"
  using assms unfolding queues_ok_def by simp

lemma gone_frame:
  assumes "gone_ok s"
    "ses_state t = ses_state s" "ses_streams t = ses_streams s"
    "ses_blocked_stream_requests_bidi t = ses_blocked_stream_requests_bidi s"
    "ses_blocked_stream_requests_uni t = ses_blocked_stream_requests_uni s"
    "ses_pending_datagram_requests t = ses_pending_datagram_requests s"
    "ses_pending_capsules t = ses_pending_capsules s" "ses_pending_datagrams t = ses_pending_datagrams s"
    "ses_pending_streams t = ses_pending_streams s" "ses_blocked_streams t = ses_blocked_streams s"
    "ses_blocked_streams_queue t = ses_blocked_streams_queue s"
  shows "gone_ok t"
  using assms unfolding gone_ok_def by simp

lemmas session_frames = streams_frame writers_frame window_frame slots_frame received_frame queues_frame gone_frame

text \<open>The fields it does not depend on.\<close>

lemma session_inv_notes [simp]:
  "session_inv (s\<lparr>ses_close_code := x_close_code\<rparr>) = session_inv s"
  "session_inv (s\<lparr>ses_close_reason := x_close_reason\<rparr>) = session_inv s"
  "session_inv (s\<lparr>ses_closed_at := x_closed_at\<rparr>) = session_inv s"
  "session_inv (s\<lparr>ses_last_data_blocked_sent := x_last_data_blocked_sent\<rparr>) = session_inv s"
  "session_inv (s\<lparr>ses_last_streams_blocked_bidi_sent := x_last_streams_blocked_bidi_sent\<rparr>) = session_inv s"
  "session_inv (s\<lparr>ses_last_streams_blocked_uni_sent := x_last_streams_blocked_uni_sent\<rparr>) = session_inv s"
  "session_inv (s\<lparr>ses_ready_at := x_ready_at\<rparr>) = session_inv s"
  "session_inv (s\<lparr>ses_wt_protocol := x_wt_protocol\<rparr>) = session_inv s"
  unfolding session_inv_def session_ok_defs by simp_all

subsection \<open>Slots of peer-initiated streams\<close>

lemma slot_ok_limit:
  assumes "slot_ok flow opened retired limit initial n"
    "limit' = limit \<or> limit' = saturating_add retired initial \<and> limit < limit'"
  shows "slot_ok flow opened retired limit' initial n"
  using assms by (auto simp: slot_ok_def unat_saturating_add)

lemma slot_ok_close:
  assumes "slot_ok flow opened retired limit initial (Suc n)"
    "limit' = limit \<or> limit' = saturating_add (retired + 1) initial \<and> limit < limit'"
  shows "slot_ok flow opened (retired + 1) limit' initial n"
proof (cases flow)
  case True
  then have "unat retired + 1 < 2 ^ 64"
    using assms(1) unat_u64_bound [of opened] unfolding slot_ok_def by simp
  then have c: "unat (retired + 1) = unat retired + 1"
    by (simp add: unat_add_small)
  then have "slot_ok flow opened (retired + 1) limit initial n"
    using assms(1) unfolding slot_ok_def c by auto
  then show ?thesis using assms(2) by (rule slot_ok_limit)
qed (simp add: slot_ok_def)

lemma slot_ok_drop:
  assumes "slot_ok flow opened retired limit initial (of_bool b + n)"
    "limit' = limit \<or> limit' = saturating_add (retired + of_bool b) initial \<and> limit < limit'"
  shows "slot_ok flow opened (retired + of_bool b) limit' initial n"
  using assms slot_ok_close [of flow opened retired limit initial n limit'] slot_ok_limit [of flow opened retired limit initial n limit']
  by (cases b) simp_all

lemma slot_ok_open:
  assumes "slot_ok flow opened retired limit initial n" "\<not> (flow \<and> limit \<le> opened)"
  shows "slot_ok flow (opened + 1) retired limit initial (Suc n)"
proof (cases flow)
  case True
  then have "unat opened < unat limit"
    using assms(2) by (simp add: word_le_nat_alt)
  with unat_u64_bound [of limit] have "unat opened + 1 < 18446744073709551616"
    by linarith
  then have "unat (opened + 1) = unat opened + 1"
    by (simp add: unat_add_small)
  then show ?thesis using assms by (auto simp: slot_ok_def word_le_nat_alt)
qed (simp add: slot_ok_def)

lemma peer_open_split:
  assumes "fmlookup (ses_streams s) sid = Some st"
  shows "peer_open u s = of_bool (peer_slot (ses_is_client s) u sid) +
    fm_sum (\<lambda>sid _. of_bool (peer_slot (ses_is_client s) u sid)) (fmdrop sid (ses_streams s))"
  unfolding peer_open_def by (rule fm_sum_split [OF assms])

subsection \<open>Dropping a closed stream\<close>

lemma handle_closed_base:
  assumes "session_base s"
  shows "session_base (snd (session_handle_closed s sid))"
proof (cases "\<exists>st. fmlookup (ses_streams s) sid = Some st \<and> stream_is_closed st")
  case False
  then show ?thesis using assms handle_closed_none by simp
next
  case True
  then obtain st where st: "fmlookup (ses_streams s) sid = Some st" "stream_is_closed st" by blast
  show ?thesis
  proof (rule handle_closed_shape [OF st])
    fix es mu mb
    let ?c = "ses_is_client s"
    let ?cu = "ses_peer_streams_uni_closed s + of_bool (peer_slot ?c True sid)"
    let ?cb = "ses_peer_streams_bidi_closed s + of_bool (peer_slot ?c False sid)"
    let ?t = "s\<lparr>ses_streams := fmdrop sid (ses_streams s), ses_blocked_streams := ses_blocked_streams s - {sid},
      ses_peer_streams_uni_closed := ?cu, ses_peer_streams_bidi_closed := ?cb,
      ses_local_max_streams_uni := mu, ses_local_max_streams_bidi := mb\<rparr>"
    assume eq: "session_handle_closed s sid = (es, ?t)"
      and mu: "mu = ses_local_max_streams_uni s \<or>
        mu = saturating_add ?cu (ses_initial_max_streams_uni s) \<and> ses_local_max_streams_uni s < mu"
      and mb: "mb = ses_local_max_streams_bidi s \<or>
        mb = saturating_add ?cb (ses_initial_max_streams_bidi s) \<and> ses_local_max_streams_bidi s < mb"
    have slots: "slots_ok ?t"
      using assms slot_ok_drop [OF _ mb] slot_ok_drop [OF _ mu] unfolding session_base_def slots_ok_def
      by (simp add: peer_open_split [OF st(1)] split del: split_of_bool) (simp add: peer_open_def split del: split_of_bool)
    show ?thesis
      using assms slots unfolding eq session_base_def
      by (auto simp: session_ok_defs)
  qed
qed

lemma handle_closed_inv:
  assumes "session_inv s"
  shows "session_inv (snd (session_handle_closed s sid))"
proof (cases "\<exists>st. fmlookup (ses_streams s) sid = Some st \<and> stream_is_closed st")
  case False
  then show ?thesis using assms handle_closed_none by simp
next
  case True
  then obtain st where st: "fmlookup (ses_streams s) sid = Some st" "stream_is_closed st" by blast
  have "received_ok (snd (session_handle_closed s sid)) \<and> gone_ok (snd (session_handle_closed s sid))"
    by (rule handle_closed_shape [OF st])
       (use assms in \<open>auto simp: session_inv_def received_ok_def gone_ok_def\<close>)
  then show ?thesis
    using assms handle_closed_base by (simp add: session_inv_base)
qed

lemma handle_closed_holds:
  assumes "streams_ok s"
  shows "session_holds (snd (session_handle_closed s sid)) = session_holds s" "quiet (fst (session_handle_closed s sid))"
proof -
  have "session_holds (snd (session_handle_closed s sid)) = session_holds s \<and> quiet (fst (session_handle_closed s sid))"
  proof (cases "\<exists>st. fmlookup (ses_streams s) sid = Some st \<and> stream_is_closed st")
    case False
    then show ?thesis using handle_closed_none by simp
  next
    case True
    then obtain st where st: "fmlookup (ses_streams s) sid = Some st" "stream_is_closed st" by blast
    then have "stream_holds st = {#}"
      using assms closed_holds_nothing by (auto simp: streams_ok_def)
    then show ?thesis
      by (rule_tac handle_closed_shape [OF st]) (simp add: session_holds_def fm_sum_split [OF st(1)])
  qed
  then show "session_holds (snd (session_handle_closed s sid)) = session_holds s"
    "quiet (fst (session_handle_closed s sid))"
    by simp_all
qed

subsection \<open>Replacing a stream\<close>

lemma peer_open_put:
  assumes "fmlookup (ses_streams s) sid = Some st"
  shows "peer_open u (s\<lparr>ses_streams := fmupd sid st' (ses_streams s)\<rparr>) = peer_open u s"
  using assms by (simp add: peer_open_def fm_sum_upd fm_sum_split)

lemma put_stream_holds:
  assumes "fmlookup (ses_streams s) sid = Some st"
  shows "session_holds (s\<lparr>ses_streams := fmupd sid st' (ses_streams s)\<rparr>) + stream_holds st = session_holds s + stream_holds st'"
  by (simp add: session_holds_def fm_sum_upd fm_sum_split [OF assms] ac_simps)

lemma put_stream_base:
  assumes "session_base s" "fmlookup (ses_streams s) sid = Some st" "stream_good sid st'"
    "stream_is_blocked st' \<Longrightarrow> stream_is_blocked st"
  shows "session_base (s\<lparr>ses_streams := fmupd sid st' (ses_streams s)\<rparr>)"
proof -
  let ?t = "s\<lparr>ses_streams := fmupd sid st' (ses_streams s)\<rparr>"
  have "slots_ok ?t"
    using assms(1) peer_open_put [OF assms(2)] by (simp add: session_base_def slots_ok_def)
  moreover have "streams_ok ?t" "window_ok ?t" "queues_ok ?t"
    using assms(1,3) by (simp_all add: session_base_def streams_ok_def window_ok_def queues_ok_def)
  moreover have "writers_ok ?t"
    using assms(1,2,4) by (auto simp: session_base_def writers_ok_def session_credit_def)
  ultimately show ?thesis by (simp add: session_base_def)
qed

lemma put_stream_inv:
  assumes "session_inv s" "fmlookup (ses_streams s) sid = Some st" "stream_good sid st'"
    "stream_is_blocked st' \<Longrightarrow> stream_is_blocked st"
  shows "session_inv (s\<lparr>ses_streams := fmupd sid st' (ses_streams s)\<rparr>)"
  using put_stream_base [OF _ assms(2-4)] assms(1,2)
  by (auto simp: session_inv_base received_ok_def gone_ok_def)

lemma update_stream_base:
  assumes "session_base s" "fmlookup (ses_streams s) sid = Some st" "stream_good sid st'"
    "stream_is_blocked st' \<Longrightarrow> stream_is_blocked st"
  shows "session_base (snd (update_stream s sid (es, st')))"
  using handle_closed_base [OF put_stream_base [OF assms]] by (simp add: update_stream_def Let_def case_prod_beta)

lemma update_stream_inv:
  assumes "session_inv s" "fmlookup (ses_streams s) sid = Some st" "stream_good sid st'"
    "stream_is_blocked st' \<Longrightarrow> stream_is_blocked st"
  shows "session_inv (snd (update_stream s sid (es, st')))"
  using handle_closed_inv [OF put_stream_inv [OF assms]] by (simp add: update_stream_def Let_def case_prod_beta)

lemma update_stream_conserve:
  assumes "session_base s" "fmlookup (ses_streams s) sid = Some st" "stream_good sid st'"
    "mset (dispatched es) + stream_holds st' = stream_holds st + R"
  shows "mset (dispatched (fst (update_stream s sid (es, st')))) + session_holds (snd (update_stream s sid (es, st')))
    = session_holds s + R"
proof -
  let ?t = "s\<lparr>ses_streams := fmupd sid st' (ses_streams s)\<rparr>"
  have ok: "streams_ok ?t"
    using assms(1,3) by (simp add: session_base_def streams_ok_def)
  have "mset (dispatched es) + session_holds ?t + stream_holds st = session_holds s + (mset (dispatched es) + stream_holds st')"
    using put_stream_holds [OF assms(2), of st'] by (simp add: ac_simps)
  also have "\<dots> = session_holds s + R + stream_holds st"
    using assms(4) by (simp add: ac_simps)
  finally have "mset (dispatched es) + session_holds ?t = session_holds s + R" by simp
  with handle_closed_holds [OF ok, of sid] quiet_sum show ?thesis
    by (simp add: update_stream_def Let_def case_prod_beta)
qed

lemma stream_call_blocked:
  assumes "\<forall>r d e k. c \<noteq> StreamWrite r d e k" "\<forall>k. c \<noteq> StreamFlush k" "\<forall>k. c \<noteq> StreamCompleteWrite k"
  shows "stream_is_blocked (snd (stream_call c st)) \<Longrightarrow> stream_is_blocked st"
proof (cases c)
  case (StreamRecvData d e)
  assume "stream_is_blocked (snd (stream_call c st))"
  with StreamRecvData show ?thesis
    by (cases "stm_receive_state st = Some Receive")
       (simp_all add: stream_recv_data_state stream_is_blocked_def, simp add: stream_recv_data_def)
qed (use assms in \<open>auto simp: stream_is_blocked_def stream_abort_def stream_send_reset_def stream_send_stop_def
      stream_handle_data_acknowledged_def stream_read_def stream_recv_reset_def stream_recv_stop_sending_def
      stream_reset_def stream_stop_def Let_def case_prod_beta split: option.splits if_splits\<close>)

text \<open>A call on a stream that does not write: the session keeps its invariant and the requests.\<close>

lemma session_stream_call:
  assumes "session_inv s" "fmlookup (ses_streams s) sid = Some st" "stream_call_ok c st" "settled_call c st"
    "\<forall>r d e k. c \<noteq> StreamWrite r d e k" "\<forall>k. c \<noteq> StreamFlush k" "\<forall>k. c \<noteq> StreamCompleteWrite k"
    "mset (dispatched es) = mset (answered (fst (stream_call c st)))"
  shows "session_inv (snd (update_stream s sid (es, snd (stream_call c st))))"
    and "mset (dispatched (fst (update_stream s sid (es, snd (stream_call c st)))))
      + session_holds (snd (update_stream s sid (es, snd (stream_call c st)))) = session_holds s + mset (stream_submits c)"
proof -
  have good: "stream_good sid st"
    using assms(1,2) by (simp add: session_inv_def streams_ok_def)
  then have good': "stream_good sid (snd (stream_call c st))"
    using assms(3,4) by (rule stream_call_good)
  show "session_inv (snd (update_stream s sid (es, snd (stream_call c st))))"
    using update_stream_inv [OF assms(1,2) good' stream_call_blocked [OF assms(5-7)]] .
  have "mset (dispatched es) + stream_holds (snd (stream_call c st)) = stream_holds st + mset (stream_submits c)"
    using stream_call_conserve [of st c] good assms(3,8) by (simp add: stream_good_def)
  from update_stream_conserve [OF _ assms(2) good' this] assms(1) session_inv_base
  show "mset (dispatched (fst (update_stream s sid (es, snd (stream_call c st)))))
      + session_holds (snd (update_stream s sid (es, snd (stream_call c st)))) = session_holds s + mset (stream_submits c)"
    by blast
qed

subsection \<open>Writing within the credit\<close>

lemma credit_zero_iff:
  "session_credit s = 0 \<longleftrightarrow> ses_flow_control_negotiated s \<and> ses_peer_max_data s \<le> ses_data_sent s"
  by (auto simp: session_credit_def u64_MAX_def word_unat_eq_iff word_le_nat_alt)

lemma charge_credit:
  assumes "window_ok s" "sent \<le> session_credit s" "ses_flow_control_negotiated s"
  shows "ses_data_sent s + sent \<le> ses_peer_max_data s"
    and "unat (ses_data_sent s + sent) = unat (ses_data_sent s) + unat sent"
    and "ses_peer_max_data s \<le> ses_data_sent s \<Longrightarrow> sent = 0"
proof -
  have le: "unat (ses_data_sent s) \<le> unat (ses_peer_max_data s)"
    using assms(1,3) by (simp add: window_ok_def word_le_nat_alt)
  have sent: "unat sent \<le> unat (ses_peer_max_data s) - unat (ses_data_sent s)"
    using assms(2,3) by (simp add: session_credit_def word_le_nat_alt)
  have "unat (ses_data_sent s) + unat sent < 18446744073709551616"
    using le sent unat_u64_bound [of "ses_peer_max_data s"] by linarith
  then show u: "unat (ses_data_sent s + sent) = unat (ses_data_sent s) + unat sent"
    by (simp add: unat_add_small)
  show "ses_data_sent s + sent \<le> ses_peer_max_data s"
    using le sent by (simp add: word_le_nat_alt u)
  show "sent = 0" if "ses_peer_max_data s \<le> ses_data_sent s"
    using that sent by (simp add: word_le_nat_alt unat_eq_zero)
qed

text \<open>The state after a write has been charged, before the blocked signal.\<close>

definition charge :: "Session \<Rightarrow> StreamId \<Rightarrow> u64 \<Rightarrow> Stream \<Rightarrow> Session" where
  "charge s sid sent st =
    (let s = s\<lparr>ses_streams := fmupd sid st (ses_streams s), ses_data_sent := ses_data_sent s + sent\<rparr>
     in if stream_is_blocked st \<and> sid \<notin> ses_blocked_streams s
        then s\<lparr>ses_blocked_streams := insert sid (ses_blocked_streams s),
               ses_blocked_streams_queue := ses_blocked_streams_queue s @ [sid]\<rparr>
        else s)"

lemma charge_inv:
  assumes inv: "session_inv s" and st: "fmlookup (ses_streams s) sid = Some st" and good: "stream_good sid st'"
    and sent: "sent \<le> session_credit s" and blocked: "stream_is_blocked st' \<Longrightarrow> session_credit s = 0"
  shows "session_inv (charge s sid sent st')"
proof -
  let ?t = "charge s sid sent st'"
  have w: "window_ok s" using inv by (simp add: session_inv_def)
  have "slots_ok ?t"
    using inv peer_open_put [OF st, of _ st']
    by (simp add: session_inv_def slots_ok_def charge_def Let_def) (simp add: peer_open_def)
  moreover have "streams_ok ?t" "received_ok ?t" "queues_ok ?t"
    using inv good by (simp_all add: session_inv_def streams_ok_def received_ok_def queues_ok_def charge_def Let_def)
  moreover have "window_ok ?t"
    using w charge_credit(1) [OF w sent] by (auto simp: window_ok_def charge_def Let_def)
  moreover have "gone_ok ?t"
    using inv st by (auto simp: session_inv_def gone_ok_def charge_def Let_def)
  moreover have "writers_ok ?t"
  proof -
    have "session_credit s = 0 \<Longrightarrow> session_credit ?t = 0"
      using charge_credit(3) [OF w sent] by (auto simp: credit_zero_iff charge_def Let_def)
    with inv blocked show ?thesis
      by (auto simp: session_inv_def writers_ok_def charge_def Let_def split: if_splits)
  qed
  ultimately show ?thesis by (simp add: session_inv_def)
qed

lemma account_write_eq:
  "account_write s sid (es, sent, st) =
    (let (e, s) = emit_data_blocked (charge s sid sent st) in (es @ option_effect e, s))"
  by (simp add: account_write_def charge_def Let_def)

lemma emit_data_blocked_inv: "session_inv s \<Longrightarrow> session_inv (snd (emit_data_blocked s))"
  by (rule emit_data_blocked_shape [of s]) simp

lemma emit_data_blocked_holds:
  "session_holds (snd (emit_data_blocked s)) = session_holds s" "quiet (option_effect (fst (emit_data_blocked s)))"
  "ses_data_sent (snd (emit_data_blocked s)) = ses_data_sent s"
  by (rule emit_data_blocked_shape [of s]; simp add: session_holds_def)+

lemma charge_holds:
  assumes "fmlookup (ses_streams s) sid = Some st"
  shows "session_holds (charge s sid sent st') + stream_holds st = session_holds s + stream_holds st'"
  using put_stream_holds [OF assms, of st'] by (simp add: charge_def session_holds_def Let_def)

lemma charge_sent: "ses_data_sent (charge s sid sent st) = ses_data_sent s + sent"
  by (simp add: charge_def Let_def)

lemma account_write_inv:
  assumes "session_inv s" "fmlookup (ses_streams s) sid = Some st" "stream_good sid st'"
    "sent \<le> session_credit s" "stream_is_blocked st' \<Longrightarrow> session_credit s = 0"
  shows "session_inv (snd (account_write s sid (es, sent, st')))"
  using emit_data_blocked_inv [OF charge_inv [OF assms]] by (simp add: account_write_eq Let_def case_prod_beta)

lemma account_write_conserve:
  assumes "fmlookup (ses_streams s) sid = Some st" "mset (dispatched es) + stream_holds st' = stream_holds st + R"
  shows "mset (dispatched (fst (account_write s sid (es, sent, st')))) + session_holds (snd (account_write s sid (es, sent, st')))
    = session_holds s + R"
proof -
  have "mset (dispatched es) + session_holds (charge s sid sent st') + stream_holds st
      = session_holds s + (mset (dispatched es) + stream_holds st')"
    using charge_holds [OF assms(1), of sent st'] by (simp add: ac_simps)
  also have "\<dots> = session_holds s + R + stream_holds st"
    using assms(2) by (simp add: ac_simps)
  finally have "mset (dispatched es) + session_holds (charge s sid sent st') = session_holds s + R" by simp
  then show ?thesis
    using emit_data_blocked_holds [of "charge s sid sent st'"] quiet_sum
    by (simp add: account_write_eq Let_def case_prod_beta)
qed

lemma account_write_payload:
  "total_payload (fst (account_write s sid (es, sent, st'))) = total_payload es"
  "ses_data_sent (snd (account_write s sid (es, sent, st'))) = ses_data_sent s + sent"
  using emit_data_blocked_holds [of "charge s sid sent st'"] quiet_sum
  by (simp_all add: account_write_eq Let_def case_prod_beta charge_sent)

text \<open>A stream that is blocked after it was offered credit was offered none.\<close>

lemma write_blocked:
  assumes "stream_inv st" "r \<notin> set (stream_write_requests st)" "length d < 2 ^ 63"
    "stream_is_blocked (snd (snd (stream_write st r d e c)))"
  shows "c = 0 \<or> stream_is_blocked st"
proof (cases "write_accepted st d")
  case True
  then show ?thesis
    using flush_unblocks [OF enqueue_inv [OF assms(1) True assms(2,3)], of c e] assms(4)
    by (cases "c = 0") (auto simp: stream_write_accepted word_neq_0_conv)
next
  case False
  then show ?thesis using stream_write_refused [OF False, of r e c] assms(4) by auto
qed

lemma complete_blocked:
  assumes "stream_inv st" "stream_is_blocked (snd (snd (stream_complete_write st c)))"
  shows "c = 0 \<or> stream_is_blocked st"
  using flush_unblocks [OF pending_cleared_inv [OF assms(1)], of c] assms(2)
  by (cases "c = 0") (auto simp: complete_write_eq word_neq_0_conv split: if_splits)

lemma write_stream_facts:
  assumes inv: "session_inv s" and fresh: "r \<notin># session_holds s" and len: "length d < 2 ^ 63"
  shows "session_inv (snd (write_stream s sid r d e))"
    and "mset (dispatched (fst (write_stream s sid r d e))) + session_holds (snd (write_stream s sid r d e))
      = session_holds s + {#r#}"
    and "ses_flow_control_negotiated s \<Longrightarrow> unat (ses_data_sent (snd (write_stream s sid r d e))) =
      unat (ses_data_sent s) + total_payload (fst (write_stream s sid r d e))"
proof -
  have "session_inv (snd (write_stream s sid r d e))
    \<and> mset (dispatched (fst (write_stream s sid r d e))) + session_holds (snd (write_stream s sid r d e))
      = session_holds s + {#r#}
    \<and> (ses_flow_control_negotiated s \<longrightarrow> unat (ses_data_sent (snd (write_stream s sid r d e))) =
      unat (ses_data_sent s) + total_payload (fst (write_stream s sid r d e)))"
  proof (cases "fmlookup (ses_streams s) sid")
    case None
    with inv show ?thesis by (simp add: write_stream_def stream_resolve_failure_def)
  next
    case (Some st)
    let ?w = "stream_write st r d e (session_credit s)"
    have good: "stream_good sid st"
      using inv Some by (simp add: session_inv_def streams_ok_def)
    then have si: "stream_inv st" by (simp add: stream_good_def)
    have "set (stream_write_requests st) \<subseteq> set_mset (session_holds s)"
      using fm_sum_split [OF Some, of "\<lambda>_. stream_holds"] by (auto simp: session_holds_def stream_holds_def)
    with fresh have r: "r \<notin> set (stream_write_requests st)" by blast
    have good': "stream_good sid (snd (snd ?w))"
      using stream_call_good [OF good, of "StreamWrite r d e (session_credit s)"] r len
      by (simp add: stream_call_ok_def settled_call_def)
    have blocked: "session_credit s = 0" if "stream_is_blocked (snd (snd ?w))"
      using write_blocked [OF si r len that] inv Some by (auto simp: session_inv_def writers_ok_def)
    have eq: "write_stream s sid r d e = account_write s sid (fst ?w, fst (snd ?w), snd (snd ?w))"
      using Some by (simp add: write_stream_def)
    have cons: "mset (dispatched (fst ?w)) + stream_holds (snd (snd ?w)) = stream_holds st + {#r#}"
      using stream_write_holds [OF si r len] stream_write_effects [OF si r len] by simp
    note sent = stream_write_sent(1) [OF si r len, of e "session_credit s"]
    have w: "window_ok s" using inv by (simp add: session_inv_def)
    obtain es n st' where wr: "?w = (es, n, st')" by (metis prod_cases3)
    show ?thesis
      using account_write_inv [OF inv Some good' sent blocked, of es] account_write_conserve [OF Some cons, of n]
        account_write_payload [of s sid es n st'] charge_credit(2) [OF w sent]
        stream_write_effects [OF si r len, of e "session_credit s"]
      unfolding eq wr by simp
  qed
  then show "session_inv (snd (write_stream s sid r d e))"
    and "mset (dispatched (fst (write_stream s sid r d e))) + session_holds (snd (write_stream s sid r d e))
      = session_holds s + {#r#}"
    and "ses_flow_control_negotiated s \<Longrightarrow> unat (ses_data_sent (snd (write_stream s sid r d e))) =
      unat (ses_data_sent s) + total_payload (fst (write_stream s sid r d e))"
    by blast+
qed

lemma complete_stream_write_facts:
  assumes inv: "session_inv s"
  shows "session_inv (snd (complete_stream_write s sid))"
    and "mset (dispatched (fst (complete_stream_write s sid))) + session_holds (snd (complete_stream_write s sid))
      = session_holds s"
    and "ses_flow_control_negotiated s \<Longrightarrow> unat (ses_data_sent (snd (complete_stream_write s sid))) =
      unat (ses_data_sent s) + total_payload (fst (complete_stream_write s sid))"
proof -
  have "session_inv (snd (complete_stream_write s sid))
    \<and> mset (dispatched (fst (complete_stream_write s sid))) + session_holds (snd (complete_stream_write s sid)) = session_holds s
    \<and> (ses_flow_control_negotiated s \<longrightarrow> unat (ses_data_sent (snd (complete_stream_write s sid))) =
      unat (ses_data_sent s) + total_payload (fst (complete_stream_write s sid)))"
  proof (cases "fmlookup (ses_streams s) sid")
    case None
    with inv show ?thesis by (simp add: complete_stream_write_def)
  next
    case (Some st)
    let ?w = "stream_complete_write st (session_credit s)"
    have good: "stream_good sid st"
      using inv Some by (simp add: session_inv_def streams_ok_def)
    then have si: "stream_inv st" by (simp add: stream_good_def)
    have good': "stream_good sid (snd (snd ?w))"
      using stream_call_good [OF good, of "StreamCompleteWrite (session_credit s)"]
      by (simp add: stream_call_ok_def settled_call_def)
    have blocked: "session_credit s = 0" if "stream_is_blocked (snd (snd ?w))"
      using complete_blocked [OF si that] inv Some by (auto simp: session_inv_def writers_ok_def)
    have eq: "complete_stream_write s sid = account_write s sid (fst ?w, fst (snd ?w), snd (snd ?w))"
      using Some by (simp add: complete_stream_write_def)
    have cons: "mset (dispatched (fst ?w)) + stream_holds (snd (snd ?w)) = stream_holds st + {#}"
      using complete_write_holds [OF si] complete_write_effects [OF si] by simp
    note sent = complete_write_sent(1) [OF si, of "session_credit s"]
    have w: "window_ok s" using inv by (simp add: session_inv_def)
    obtain es n st' where wr: "?w = (es, n, st')" by (metis prod_cases3)
    show ?thesis
      using account_write_inv [OF inv Some good' sent blocked, of es] account_write_conserve [OF Some cons, of n]
        account_write_payload [of s sid es n st'] charge_credit(2) [OF w sent]
        complete_write_effects [OF si, of "session_credit s"]
      unfolding eq wr by simp
  qed
  then show "session_inv (snd (complete_stream_write s sid))"
    and "mset (dispatched (fst (complete_stream_write s sid))) + session_holds (snd (complete_stream_write s sid))
      = session_holds s"
    and "ses_flow_control_negotiated s \<Longrightarrow> unat (ses_data_sent (snd (complete_stream_write s sid))) =
      unat (ses_data_sent s) + total_payload (fst (complete_stream_write s sid))"
    by blast+
qed

subsection \<open>New credit\<close>

definition writers_queued :: "Session \<Rightarrow> bool" where
  "writers_queued s \<longleftrightarrow> ses_blocked_streams s \<subseteq> set (ses_blocked_streams_queue s)
    \<and> (\<forall>sid st. fmlookup (ses_streams s) sid = Some st \<longrightarrow> stream_is_blocked st \<longrightarrow> sid \<in> ses_blocked_streams s)"

definition session_core :: "Session \<Rightarrow> bool" where
  "session_core s \<longleftrightarrow> streams_ok s \<and> writers_queued s \<and> window_ok s \<and> slots_ok s \<and> received_ok s \<and> queues_ok s \<and> gone_ok s"

lemma session_core_inv:
  "session_core s \<Longrightarrow> session_credit s = 0 \<or> ses_blocked_streams_queue s = [] \<Longrightarrow> session_inv s"
  by (auto simp: session_core_def session_inv_def writers_queued_def writers_ok_def)

lemma flush_one_core:
  assumes core: "session_core s" and queue: "ses_blocked_streams_queue s = sid # queue"
    and st: "fmlookup (ses_streams s) sid = Some st" and credit: "session_credit s \<noteq> 0"
    and eq: "stream_flush_writes st (session_credit s) = (es, sent, st')"
  defines "t \<equiv> s\<lparr>ses_blocked_streams := ses_blocked_streams s - {sid}, ses_blocked_streams_queue := queue,
      ses_streams := fmupd sid st' (ses_streams s), ses_data_sent := ses_data_sent s + sent\<rparr>"
  shows "\<not> stream_is_blocked st'" "session_core t" "session_holds t = session_holds s"
    "dispatched es = []" "ses_flow_control_negotiated s \<Longrightarrow> unat (ses_data_sent t) = unat (ses_data_sent s) + total_payload es"
proof -
  have good: "stream_good sid st"
    using core st by (simp add: session_core_def streams_ok_def)
  then have si: "stream_inv st" by (simp add: stream_good_def)
  have w: "window_ok s" using core by (simp add: session_core_def)
  have sent: "sent \<le> session_credit s"
    using flush_sent(1) [OF si, of "session_credit s"] eq by simp
  show nb: "\<not> stream_is_blocked st'"
    using flush_unblocks [OF si, of "session_credit s"] credit eq by (simp add: word_neq_0_conv)
  have good': "stream_good sid st'"
    using stream_call_good [OF good, of "StreamFlush (session_credit s)"] eq
    by (simp add: stream_call_ok_def settled_call_def)
  show "session_holds t = session_holds s"
    using flush_holds(1) [OF si, of "session_credit s"] put_stream_holds [OF st, of st'] eq
    by (simp add: t_def session_holds_def)
  show "dispatched es = []" "ses_flow_control_negotiated s \<Longrightarrow> unat (ses_data_sent t) = unat (ses_data_sent s) + total_payload es"
    using flush_effects [OF si, of "session_credit s"] charge_credit(2) [OF w sent] eq by (simp_all add: t_def)
  have "slots_ok t"
    using core peer_open_put [OF st, of _ st'] by (simp add: session_core_def slots_ok_def t_def) (simp add: peer_open_def)
  moreover have "streams_ok t" "received_ok t" "queues_ok t"
    using core good' by (simp_all add: session_core_def streams_ok_def received_ok_def queues_ok_def t_def)
  moreover have "window_ok t"
    using w charge_credit(1) [OF w sent] by (auto simp: window_ok_def t_def)
  moreover have "gone_ok t"
    using core st by (auto simp: session_core_def gone_ok_def t_def)
  moreover have "writers_queued t"
    using core queue nb by (auto simp: session_core_def writers_queued_def t_def)
  ultimately show "session_core t" by (simp add: session_core_def)
qed

end
