(* ===== verification/Session_Moves.thy ===== *)
theory Session_Moves
  imports Session_Invariants
begin

text \<open>
  What a call of the session does to its books, in a form that composes: requests are conserved,
  the bytes handed to the transport are the bytes charged to the peer's window, the identity and
  the configuration stay, and limits and the state only move forward (\<open>grows\<close>).
\<close>

fun state_rank :: "SessionState \<Rightarrow> nat" where
  "state_rank SessionState.Connecting = 0"
| "state_rank SessionState.Connected = 1"
| "state_rank SessionState.Draining = 2"
| "state_rank SessionState.Closing = 3"
| "state_rank SessionState.Closed = 4"

definition same_session :: "Session \<Rightarrow> Session \<Rightarrow> bool" where
  "same_session s t \<longleftrightarrow> ses_id t = ses_id s \<and> ses_is_client t = ses_is_client s
    \<and> ses_flow_control_negotiated t = ses_flow_control_negotiated s
    \<and> ses_initial_max_streams_bidi t = ses_initial_max_streams_bidi s
    \<and> ses_initial_max_streams_uni t = ses_initial_max_streams_uni s"

definition grows :: "Session \<Rightarrow> Session \<Rightarrow> bool" where
  "grows s t \<longleftrightarrow> same_session s t
    \<and> ses_local_max_data s \<le> ses_local_max_data t
    \<and> ses_local_max_streams_bidi s \<le> ses_local_max_streams_bidi t
    \<and> ses_local_max_streams_uni s \<le> ses_local_max_streams_uni t
    \<and> ses_peer_max_data s \<le> ses_peer_max_data t
    \<and> ses_peer_max_streams_bidi s \<le> ses_peer_max_streams_bidi t
    \<and> ses_peer_max_streams_uni s \<le> ses_peer_max_streams_uni t
    \<and> state_rank (ses_state s) \<le> state_rank (ses_state t)"

definition moves :: "Session \<Rightarrow> RequestId multiset \<Rightarrow> effects \<times> Session \<Rightarrow> bool" where
  "moves s R p \<longleftrightarrow> mset (dispatched (fst p)) + session_holds (snd p) = session_holds s + R
    \<and> (ses_flow_control_negotiated s \<longrightarrow> unat (ses_data_sent (snd p)) = unat (ses_data_sent s) + total_payload (fst p))
    \<and> grows s (snd p)"

lemma grows_refl [simp]: "grows s s"
  by (simp add: grows_def same_session_def)

lemma grows_trans: "grows s t \<Longrightarrow> grows t u \<Longrightarrow> grows s u"
  by (auto simp: grows_def same_session_def)

lemma moves_trans:
  assumes "moves s R p" "moves (snd p) Q q"
  shows "moves s (R + Q) (fst p @ fst q, snd q)"
proof -
  have p: "mset (dispatched (fst p)) + session_holds (snd p) = session_holds s + R"
    and q: "mset (dispatched (fst q)) + session_holds (snd q) = session_holds (snd p) + Q"
    using assms by (simp_all only: moves_def)
  have "mset (dispatched (fst p @ fst q)) + session_holds (snd q)
      = mset (dispatched (fst p)) + (mset (dispatched (fst q)) + session_holds (snd q))"
    by (simp add: add.assoc)
  also have "\<dots> = mset (dispatched (fst p)) + session_holds (snd p) + Q"
    by (simp only: q add.assoc)
  also have "\<dots> = session_holds s + (R + Q)"
    by (simp only: p add.assoc)
  finally have holds: "mset (dispatched (fst p @ fst q)) + session_holds (snd q) = session_holds s + (R + Q)" .
  have flow: "ses_flow_control_negotiated (snd p) = ses_flow_control_negotiated s"
    using assms(1) by (simp add: moves_def grows_def same_session_def)
  have "grows s (snd q)"
    using assms grows_trans by (auto simp: moves_def)
  moreover have "ses_flow_control_negotiated s \<Longrightarrow>
      unat (ses_data_sent (snd q)) = unat (ses_data_sent s) + total_payload (fst p @ fst q)"
    using assms flow by (simp add: moves_def)
  ultimately show ?thesis
    using holds by (simp only: moves_def fst_conv snd_conv) simp
qed

lemma moves_trans0:
  assumes "moves s {#} p" "moves (snd p) R q"
  shows "moves s R (fst p @ fst q, snd q)"
  using moves_trans [OF assms] by simp

lemma moves_refl [simp]: "moves s {#} ([], s)"
  by (simp add: moves_def)

lemma moves_quiet:
  assumes "quiet es" "session_holds t = session_holds s" "ses_data_sent t = ses_data_sent s" "grows s t"
  shows "moves s {#} (es, t)"
  using assms quiet_sum [OF assms(1)] by (simp add: moves_def)

lemma moves_snoc_quiet:
  assumes "moves s R p" "quiet es"
  shows "moves s R (fst p @ es, snd p)"
  using moves_trans [OF assms(1) moves_quiet [of es "snd p" "snd p"]] assms(2) by simp

lemma moves_cons_quiet:
  assumes "moves s R p" "quiet es"
  shows "moves s R (es @ fst p, snd p)"
  using moves_trans0 [OF moves_quiet [of es s s], of R p] assms by simp

text \<open>The helpers.\<close>

lemma same_session_simps [simp]: "same_session s s"
  by (simp add: same_session_def)

lemma replenish_data_moves: "moves s {#} (option_effect (fst (replenish_data_credit s f)), snd (replenish_data_credit s f))"
  by (rule replenish_data_shape [of s f])
     (rule moves_quiet; auto simp: session_holds_def grows_def same_session_def)

lemma replenish_streams_moves:
  "moves s {#} (option_effect (fst (replenish_streams_credit s u f)), snd (replenish_streams_credit s u f))"
  by (rule replenish_streams_shape [of s u f])
     (rule moves_quiet; auto simp: session_holds_def grows_def same_session_def)

lemma emit_streams_blocked_moves:
  "moves s {#} (option_effect (fst (emit_streams_blocked s u)), snd (emit_streams_blocked s u))"
  by (rule emit_streams_blocked_shape [of s u])
     (rule moves_quiet; auto simp: session_holds_def grows_def same_session_def)

lemma emit_data_blocked_moves:
  "moves s {#} (option_effect (fst (emit_data_blocked s)), snd (emit_data_blocked s))"
  by (rule emit_data_blocked_shape [of s])
     (rule moves_quiet; auto simp: session_holds_def grows_def same_session_def)

lemma replenish_data_inv: "session_inv s \<Longrightarrow> session_inv (snd (replenish_data_credit s f))"
proof (rule replenish_data_shape [of s f])
  fix e m
  assume inv: "session_inv s" and eq: "replenish_data_credit s f = (e, s\<lparr>ses_local_max_data := m\<rparr>)"
    and m: "m = ses_local_max_data s \<or> m = saturating_add (ses_data_consumed s) (ses_receive_window s) \<and> ses_local_max_data s < m"
  let ?t = "s\<lparr>ses_local_max_data := m\<rparr>"
  have "received_ok ?t"
    using inv m by (auto simp: session_inv_def received_ok_def)
  moreover have "streams_ok ?t" "writers_ok ?t" "window_ok ?t" "slots_ok ?t" "queues_ok ?t" "gone_ok ?t"
    by (rule session_frames, use inv in \<open>simp add: session_inv_def\<close>, simp_all)+
  ultimately show "session_inv (snd (replenish_data_credit s f))"
    by (simp add: eq session_inv_def)
qed

lemma replenish_streams_inv: "session_inv s \<Longrightarrow> session_inv (snd (replenish_streams_credit s u f))"
proof (rule replenish_streams_shape [of s u f])
  fix e mu mb
  assume inv: "session_inv s"
    and eq: "replenish_streams_credit s u f = (e, s\<lparr>ses_local_max_streams_uni := mu, ses_local_max_streams_bidi := mb\<rparr>)"
    and mu: "mu = ses_local_max_streams_uni s \<or> mu = saturating_add (ses_peer_streams_uni_closed s) (ses_initial_max_streams_uni s)
      \<and> ses_local_max_streams_uni s < mu"
    and mb: "mb = ses_local_max_streams_bidi s \<or> mb = saturating_add (ses_peer_streams_bidi_closed s) (ses_initial_max_streams_bidi s)
      \<and> ses_local_max_streams_bidi s < mb"
  let ?t = "s\<lparr>ses_local_max_streams_uni := mu, ses_local_max_streams_bidi := mb\<rparr>"
  have "slots_ok ?t"
    using inv slot_ok_limit [OF _ mu] slot_ok_limit [OF _ mb]
    by (simp add: session_inv_def slots_ok_def) (simp add: peer_open_def)
  moreover have "streams_ok ?t" "writers_ok ?t" "window_ok ?t" "received_ok ?t" "queues_ok ?t" "gone_ok ?t"
    by (rule session_frames, use inv in \<open>simp add: session_inv_def\<close>, simp_all)+
  ultimately show "session_inv (snd (replenish_streams_credit s u f))"
    by (simp add: eq session_inv_def)
qed

lemma emit_streams_blocked_inv: "session_inv s \<Longrightarrow> session_inv (snd (emit_streams_blocked s u))"
  by (rule emit_streams_blocked_shape [of s u]) simp

lemma handle_closed_moves:
  assumes "streams_ok s"
  shows "moves s {#} (session_handle_closed s sid)"
proof (cases "\<exists>st. fmlookup (ses_streams s) sid = Some st \<and> stream_is_closed st")
  case True
  then obtain st where st: "fmlookup (ses_streams s) sid = Some st" "stream_is_closed st" by blast
  have "grows s (snd (session_handle_closed s sid)) \<and> ses_data_sent (snd (session_handle_closed s sid)) = ses_data_sent s"
    by (rule handle_closed_shape [OF st]) (auto simp: grows_def same_session_def)
  then show ?thesis
    using moves_quiet [OF handle_closed_holds(2) [OF assms, of sid] handle_closed_holds(1) [OF assms, of sid]] by simp
qed (simp add: handle_closed_none)

end
