(* ===== verification/Session_Flow.thy ===== *)
theory Session_Flow
  imports Session_Moves
begin

text \<open>
  Flow control towards the peer: writes resumed by new data credit, stream requests resumed by
  new stream credit, and the opening of streams by either side.
\<close>

subsection \<open>Resuming blocked writes\<close>

lemma core_drop_front:
  assumes "session_core s" "ses_blocked_streams_queue s = sid # queue" "fmlookup (ses_streams s) sid = None"
  shows "session_core (s\<lparr>ses_blocked_streams := ses_blocked_streams s - {sid}, ses_blocked_streams_queue := queue\<rparr>)"
proof -
  let ?t = "s\<lparr>ses_blocked_streams := ses_blocked_streams s - {sid}, ses_blocked_streams_queue := queue\<rparr>"
  have "streams_ok ?t" "window_ok ?t" "slots_ok ?t" "received_ok ?t" "queues_ok ?t"
    by (rule session_frames, use assms(1) in \<open>simp add: session_core_def\<close>, simp_all)+
  moreover have "writers_queued ?t" "gone_ok ?t"
    using assms by (auto simp: session_core_def writers_queued_def gone_ok_def)
  ultimately show ?thesis by (simp add: session_core_def)
qed

lemma core_keep_front:
  assumes "session_core s" "ses_blocked_streams_queue s = sid # queue"
  shows "session_core (s\<lparr>ses_blocked_streams := insert sid (ses_blocked_streams s)\<rparr>)"
proof -
  let ?t = "s\<lparr>ses_blocked_streams := insert sid (ses_blocked_streams s)\<rparr>"
  have "streams_ok ?t" "window_ok ?t" "slots_ok ?t" "received_ok ?t" "queues_ok ?t"
    by (rule session_frames, use assms(1) in \<open>simp add: session_core_def\<close>, simp_all)+
  moreover have "writers_queued ?t" "gone_ok ?t"
    using assms by (auto simp: session_core_def writers_queued_def gone_ok_def)
  ultimately show ?thesis by (simp add: session_core_def)
qed

lemma flush_blocked_loop_core:
  assumes "session_core s" "length (ses_blocked_streams_queue s) \<le> n"
  shows "session_core (snd (flush_blocked_loop n s)) \<and> moves s {#} (flush_blocked_loop n s)
    \<and> (session_credit (snd (flush_blocked_loop n s)) = 0 \<or> ses_blocked_streams_queue (snd (flush_blocked_loop n s)) = [])"
  using assms
proof (induction n arbitrary: s)
  case 0
  then show ?case by simp
next
  case (Suc n)
  show ?case
  proof (cases "ses_blocked_streams_queue s")
    case Nil
    with Suc.prems show ?thesis by simp
  next
    case (Cons sid queue)
    let ?r = "s\<lparr>ses_blocked_streams := ses_blocked_streams s - {sid}, ses_blocked_streams_queue := queue\<rparr>"
    consider "session_credit s = 0" | "session_credit s \<noteq> 0" "fmlookup (ses_streams s) sid = None"
      | st where "session_credit s \<noteq> 0" "fmlookup (ses_streams s) sid = Some st"
      by fastforce
    then show ?thesis
    proof cases
      case 1
      let ?t = "s\<lparr>ses_blocked_streams := insert sid (ses_blocked_streams s)\<rparr>"
      have eq: "flush_blocked_loop (Suc n) s = ([], ?t)"
        using Cons 1 by (cases s) simp
      have "moves s {#} ([], ?t)"
        by (rule moves_quiet) (simp_all add: session_holds_def grows_def same_session_def)
      then show ?thesis
        unfolding eq using core_keep_front [OF Suc.prems(1) Cons] 1 by (auto simp: session_credit_def)
    next
      case 2
      have "moves s {#} ([], ?r)"
        by (rule moves_quiet) (simp_all add: session_holds_def grows_def same_session_def)
      then have "moves s {#} (flush_blocked_loop n ?r)"
        using Suc.IH [OF core_drop_front [OF Suc.prems(1) Cons 2(2)]] Suc.prems(2) Cons
          moves_trans0 [of s "([], ?r)" "{#}" "flush_blocked_loop n ?r"] by simp
      with 2 Cons Suc.IH [OF core_drop_front [OF Suc.prems(1) Cons 2(2)]] Suc.prems(2) show ?thesis
        by simp
    next
      case (3 st)
      obtain es sent st' where fl: "stream_flush_writes st (session_credit s) = (es, sent, st')"
        by (metis prod_cases3)
      let ?t = "?r\<lparr>ses_streams := fmupd sid st' (ses_streams s), ses_data_sent := ses_data_sent s + sent\<rparr>"
      note one = flush_one_core [OF Suc.prems(1) Cons 3(2,1) fl]
      have eq: "flush_blocked_loop (Suc n) s = (es @ fst (flush_blocked_loop n ?t), snd (flush_blocked_loop n ?t))"
        using Cons 3 fl one(1) by (simp add: Let_def case_prod_beta)
      have "moves s {#} (es, ?t)"
        using one by (simp add: moves_def grows_def same_session_def)
      with Suc.IH [OF one(2)] Suc.prems(2) Cons moves_trans0 [of s "(es, ?t)" "{#}" "flush_blocked_loop n ?t"]
      show ?thesis unfolding eq by simp
    qed
  qed
qed

lemma flush_blocked_writes_facts:
  assumes "session_core s"
  shows "session_inv (snd (flush_blocked_writes s))" "moves s {#} (flush_blocked_writes s)"
proof -
  let ?l = "flush_blocked_loop (length (ses_blocked_streams_queue s)) s"
  note l = flush_blocked_loop_core [OF assms order_refl]
  have inv: "session_inv (snd ?l)" using l session_core_inv by blast
  show "session_inv (snd (flush_blocked_writes s))"
  proof (cases "ses_flow_control_negotiated s \<and> ses_peer_max_data s \<le> ses_data_sent s")
    case True
    then show ?thesis
      using session_core_inv [OF assms] by (simp add: flush_blocked_writes_def credit_zero_iff)
  next
    case False
    then show ?thesis
      using emit_data_blocked_inv [OF inv] by (auto simp: flush_blocked_writes_def Let_def case_prod_beta)
  qed
  show "moves s {#} (flush_blocked_writes s)"
    using moves_trans0 [OF conjunct1 [OF conjunct2 [OF l]] emit_data_blocked_moves]
    by (simp add: flush_blocked_writes_def Let_def case_prod_beta)
qed

subsection \<open>Stream requests\<close>

lemma increment_below:
  assumes "a < (b :: u64)"
  shows "a + 1 \<le> b \<and> unat (a + 1) = unat a + 1"
proof -
  have "unat a + 1 \<le> unat b" using assms by (simp add: word_less_nat_alt)
  moreover from this have "unat a + 1 < 18446744073709551616"
    using unat_u64_bound [of b] by linarith
  then have "unat (a + 1) = unat a + 1"
    by (simp add: unat_add_small)
  ultimately show ?thesis by (simp add: word_le_nat_alt)
qed

text \<open>How far the loop goes: the requests at the front get a stream, one slot each, and it stops
  only when the limit is reached or no request is left.\<close>

lemma flush_requests_loop_eq:
  assumes "flow \<Longrightarrow> opened \<le> limit"
  obtains n where "n \<le> length rs"
    "flush_requests_loop sid u flow opened limit rs =
      (map (\<lambda>r. CreateQuicStream r sid u) (take n rs), opened + of_nat n, drop n rs)"
    "flow \<Longrightarrow> opened + of_nat n \<le> limit \<and> unat (opened + of_nat n) = unat opened + n"
    "n < length rs \<Longrightarrow> flow \<and> limit = opened + of_nat n"
proof -
  have "\<exists>n \<le> length rs. flush_requests_loop sid u flow opened limit rs =
      (map (\<lambda>r. CreateQuicStream r sid u) (take n rs), opened + of_nat n, drop n rs)
    \<and> (flow \<longrightarrow> opened + of_nat n \<le> limit \<and> unat (opened + of_nat n) = unat opened + n)
    \<and> (n < length rs \<longrightarrow> flow \<and> limit = opened + of_nat n)"
    using assms
  proof (induction rs arbitrary: opened)
    case Nil
    then show ?case by auto
  next
    case (Cons r rs)
    show ?case
    proof (cases "\<not> flow \<or> opened < limit")
      case True
      then have inc: "flow \<Longrightarrow> opened + 1 \<le> limit \<and> unat (opened + 1) = unat opened + 1"
        using increment_below by blast
      with Cons.IH [of "opened + 1"] obtain n where n: "n \<le> length rs"
        "flush_requests_loop sid u flow (opened + 1) limit rs =
          (map (\<lambda>r. CreateQuicStream r sid u) (take n rs), opened + 1 + of_nat n, drop n rs)"
        "flow \<longrightarrow> opened + 1 + of_nat n \<le> limit \<and> unat (opened + 1 + of_nat n) = unat (opened + 1) + n"
        "n < length rs \<longrightarrow> flow \<and> limit = opened + 1 + of_nat n"
        by auto
      with True inc show ?thesis
        by (intro exI [of _ "Suc n"]) (auto simp: ac_simps)
    next
      case False
      with Cons.prems show ?thesis by (intro exI [of _ 0]) auto
    qed
  qed
  then show ?thesis using that by blast
qed

lemma creates_sum [simp]:
  "dispatched (map (\<lambda>r. CreateQuicStream r sid u) rs) = rs" "total_payload (map (\<lambda>r. CreateQuicStream r sid u) rs) = 0"
  by (induction rs) simp_all

lemma flush_requests_inv:
  assumes "session_inv s"
    "ses_flow_control_negotiated s \<Longrightarrow> ub \<le> ses_peer_max_streams_bidi s \<and> uu \<le> ses_peer_max_streams_uni s"
    "\<not> is_open_state (ses_state s) \<Longrightarrow> rb = [] \<and> ru = []"
  shows "session_inv (s\<lparr>ses_local_streams_bidi_opened := ub, ses_local_streams_uni_opened := uu,
    ses_blocked_stream_requests_bidi := rb, ses_blocked_stream_requests_uni := ru\<rparr>)" (is "session_inv ?t")
proof -
  have "streams_ok ?t" "writers_ok ?t" "slots_ok ?t" "received_ok ?t" "queues_ok ?t"
    by (rule session_frames, use assms(1) in \<open>simp add: session_inv_def\<close>, simp_all)+
  moreover have "window_ok ?t" "gone_ok ?t"
    using assms by (auto simp: session_inv_def window_ok_def gone_ok_def)
  ultimately show ?thesis by (simp add: session_inv_def)
qed

lemma requests_split: "mset (drop n rs) + mset (take n rs) = mset rs"
  by (metis append_take_drop_id mset_append union_commute)

lemma flush_blocked_stream_requests_facts:
  assumes "session_inv s"
  shows "session_inv (snd (flush_blocked_stream_requests s u))" "moves s {#} (flush_blocked_stream_requests s u)"
proof -
  have w: "window_ok s" and g: "gone_ok s" using assms by (simp_all add: session_inv_def)
  have "\<exists>es t. session_inv t \<and> moves s {#} (es, t) \<and> flush_blocked_stream_requests s u =
      (es @ option_effect (fst (emit_streams_blocked t u)), snd (emit_streams_blocked t u))"
  proof (cases u)
    case True
    obtain n where n: "flush_requests_loop (ses_id s) True (ses_flow_control_negotiated s) (ses_local_streams_uni_opened s)
        (ses_peer_max_streams_uni s) (ses_blocked_stream_requests_uni s) =
      (map (\<lambda>r. CreateQuicStream r (ses_id s) True) (take n (ses_blocked_stream_requests_uni s)),
       ses_local_streams_uni_opened s + of_nat n, drop n (ses_blocked_stream_requests_uni s))"
      "ses_flow_control_negotiated s \<Longrightarrow> ses_local_streams_uni_opened s + of_nat n \<le> ses_peer_max_streams_uni s"
      by (rule flush_requests_loop_eq [of "ses_flow_control_negotiated s" "ses_local_streams_uni_opened s"
            "ses_peer_max_streams_uni s" "ses_blocked_stream_requests_uni s" "ses_id s" True])
         (use w in \<open>auto simp: window_ok_def\<close>)
    let ?t = "s\<lparr>ses_local_streams_uni_opened := ses_local_streams_uni_opened s + of_nat n,
      ses_blocked_stream_requests_uni := drop n (ses_blocked_stream_requests_uni s)\<rparr>"
    have "session_inv ?t"
      using flush_requests_inv [OF assms, of "ses_local_streams_bidi_opened s" "ses_local_streams_uni_opened s + of_nat n"
          "ses_blocked_stream_requests_bidi s" "drop n (ses_blocked_stream_requests_uni s)"] n(2) w g
      by (simp add: window_ok_def gone_ok_def)
    moreover have "moves s {#} (map (\<lambda>r. CreateQuicStream r (ses_id s) True) (take n (ses_blocked_stream_requests_uni s)), ?t)"
      by (simp add: moves_def session_holds_def grows_def same_session_def ac_simps requests_split)
    ultimately show ?thesis
      using True n(1) by (intro exI conjI) (auto simp: flush_blocked_stream_requests_def Let_def case_prod_beta)
  next
    case False
    obtain n where n: "flush_requests_loop (ses_id s) False (ses_flow_control_negotiated s) (ses_local_streams_bidi_opened s)
        (ses_peer_max_streams_bidi s) (ses_blocked_stream_requests_bidi s) =
      (map (\<lambda>r. CreateQuicStream r (ses_id s) False) (take n (ses_blocked_stream_requests_bidi s)),
       ses_local_streams_bidi_opened s + of_nat n, drop n (ses_blocked_stream_requests_bidi s))"
      "ses_flow_control_negotiated s \<Longrightarrow> ses_local_streams_bidi_opened s + of_nat n \<le> ses_peer_max_streams_bidi s"
      by (rule flush_requests_loop_eq [of "ses_flow_control_negotiated s" "ses_local_streams_bidi_opened s"
            "ses_peer_max_streams_bidi s" "ses_blocked_stream_requests_bidi s" "ses_id s" False])
         (use w in \<open>auto simp: window_ok_def\<close>)
    let ?t = "s\<lparr>ses_local_streams_bidi_opened := ses_local_streams_bidi_opened s + of_nat n,
      ses_blocked_stream_requests_bidi := drop n (ses_blocked_stream_requests_bidi s)\<rparr>"
    have "session_inv ?t"
      using flush_requests_inv [OF assms, of "ses_local_streams_bidi_opened s + of_nat n" "ses_local_streams_uni_opened s"
          "drop n (ses_blocked_stream_requests_bidi s)" "ses_blocked_stream_requests_uni s"] n(2) w g
      by (simp add: window_ok_def gone_ok_def)
    moreover have "moves s {#} (map (\<lambda>r. CreateQuicStream r (ses_id s) False) (take n (ses_blocked_stream_requests_bidi s)), ?t)"
      by (simp add: moves_def session_holds_def grows_def same_session_def ac_simps requests_split)
    ultimately show ?thesis
      using False n(1) by (intro exI conjI) (auto simp: flush_blocked_stream_requests_def Let_def case_prod_beta)
  qed
  then obtain es t where t: "session_inv t" "moves s {#} (es, t)"
    and eq: "flush_blocked_stream_requests s u =
      (es @ option_effect (fst (emit_streams_blocked t u)), snd (emit_streams_blocked t u))"
    by blast
  show "session_inv (snd (flush_blocked_stream_requests s u))" "moves s {#} (flush_blocked_stream_requests s u)"
    unfolding eq using emit_streams_blocked_inv [OF t(1)] moves_trans0 [OF t(2), of "{#}"] emit_streams_blocked_moves [of t u]
    by fastforce+
qed

end
