(* ===== verification/Session_Closing.thy ===== *)
theory Session_Closing
  imports Session_Flow
begin

text \<open>
  Closing a session: every stream is aborted and dropped, every request that waits anywhere in
  the session is answered, and what remains holds nothing.
\<close>

lemma update_stream_moves:
  assumes "session_base s" "fmlookup (ses_streams s) sid = Some st" "stream_good sid st'"
    "mset (dispatched es) + stream_holds st' = stream_holds st + R" "total_payload es = 0"
  shows "moves s R (update_stream s sid (es, st'))"
proof -
  let ?t = "s\<lparr>ses_streams := fmupd sid st' (ses_streams s)\<rparr>"
  have "streams_ok ?t"
    using assms(1,3) by (simp add: session_base_def streams_ok_def)
  then have m: "moves ?t {#} (session_handle_closed ?t sid)"
    by (rule handle_closed_moves)
  have g: "grows s ?t" by (simp add: grows_def same_session_def)
  have eq: "update_stream s sid (es, st') = (es @ fst (session_handle_closed ?t sid), snd (session_handle_closed ?t sid))"
    by (simp add: update_stream_def Let_def case_prod_beta)
  show ?thesis
    using update_stream_conserve [OF assms(1-4)] m assms(5) grows_trans [OF g]
    unfolding eq by (simp add: moves_def)
qed

subsection \<open>Aborting the streams\<close>

lemma stream_abort_closed: "stream_is_closed (snd (stream_abort st ec))"
  by (cases "stm_receive_state st"; cases "stm_send_state st")
     (auto simp: stream_is_closed_def stream_abort_def stream_send_reset_def stream_send_stop_def
       Let_def case_prod_beta split: option.splits if_splits, (metis StreamReceiveState.exhaust)+)

definition queues_kept :: "Session \<Rightarrow> Session \<Rightarrow> bool" where
  "queues_kept s t \<longleftrightarrow> ses_state t = ses_state s
    \<and> ses_blocked_stream_requests_bidi t = ses_blocked_stream_requests_bidi s
    \<and> ses_blocked_stream_requests_uni t = ses_blocked_stream_requests_uni s
    \<and> ses_pending_datagram_requests t = ses_pending_datagram_requests s
    \<and> ses_pending_capsules t = ses_pending_capsules s \<and> ses_pending_datagrams t = ses_pending_datagrams s
    \<and> ses_close_code t = ses_close_code s \<and> ses_close_reason t = ses_close_reason s"

definition abort_one :: "Session \<Rightarrow> StreamId \<Rightarrow> Stream \<Rightarrow> effects \<times> Session" where
  "abort_one s sid st = update_stream s sid
    (suppress_pending_stream_events s sid (fst (stream_abort st ERR_WT_SESSION_GONE)), snd (stream_abort st ERR_WT_SESSION_GONE))"

lemma abort_each_Cons:
  "abort_each_stream (sid # ids) s = (case fmlookup (ses_streams s) sid of
     None \<Rightarrow> abort_each_stream ids s
   | Some st \<Rightarrow> (fst (abort_one s sid st) @ fst (abort_each_stream ids (snd (abort_one s sid st))),
       snd (abort_each_stream ids (snd (abort_one s sid st)))))"
  by (cases "fmlookup (ses_streams s) sid")
     (simp_all add: abort_one_def update_stream_def handle_closed_none suppress_pending_stream_events_def Let_def case_prod_beta)

lemma abort_one_facts:
  assumes "session_base s" "fmlookup (ses_streams s) sid = Some st"
  shows "session_base (snd (abort_one s sid st))" "moves s {#} (abort_one s sid st)"
    "queues_kept s (snd (abort_one s sid st))" "ses_streams (snd (abort_one s sid st)) = fmdrop sid (ses_streams s)"
proof -
  let ?st = "snd (stream_abort st ERR_WT_SESSION_GONE)" and ?es = "fst (stream_abort st ERR_WT_SESSION_GONE)"
  have good: "stream_good sid st"
    using assms by (simp add: session_base_def streams_ok_def)
  have good': "stream_good sid ?st"
    using stream_call_good [OF good, of "StreamAbort ERR_WT_SESSION_GONE"] by (simp add: stream_call_ok_def settled_call_def)
  have blocked: "stream_is_blocked ?st \<Longrightarrow> stream_is_blocked st"
    using stream_call_blocked [of "StreamAbort ERR_WT_SESSION_GONE" st] by simp
  have conserve: "mset (answered ?es) + stream_holds ?st = stream_holds st + {#}"
    using stream_call_conserve [of st "StreamAbort ERR_WT_SESSION_GONE"] good
    by (simp add: stream_good_def stream_call_ok_def)
  have sum: "dispatched ?es = answered ?es" "total_payload ?es = 0"
    using stream_op_effects stream_effects_sum by auto
  show "session_base (snd (abort_one s sid st))"
    unfolding abort_one_def by (rule update_stream_base [OF assms good' blocked])
  show "moves s {#} (abort_one s sid st)"
    unfolding abort_one_def by (rule update_stream_moves [OF assms good']) (use conserve sum in simp_all)
  let ?t = "s\<lparr>ses_streams := fmupd sid ?st (ses_streams s)\<rparr>"
  have "queues_kept s (snd (session_handle_closed ?t sid))
    \<and> ses_streams (snd (session_handle_closed ?t sid)) = fmdrop sid (ses_streams s)"
    by (rule handle_closed_shape [of ?t sid ?st]) (auto simp: stream_abort_closed queues_kept_def)
  then show "queues_kept s (snd (abort_one s sid st))" "ses_streams (snd (abort_one s sid st)) = fmdrop sid (ses_streams s)"
    by (simp_all add: abort_one_def update_stream_def Let_def case_prod_beta)
qed

lemma abort_each_facts:
  assumes "session_base s"
  shows "session_base (snd (abort_each_stream ids s)) \<and> moves s {#} (abort_each_stream ids s)
    \<and> queues_kept s (snd (abort_each_stream ids s))
    \<and> ses_streams (snd (abort_each_stream ids s)) = fmdrop_set (set ids) (ses_streams s)"
  using assms
proof (induction ids arbitrary: s)
  case Nil
  then show ?case by (simp add: queues_kept_def)
next
  case (Cons sid ids)
  show ?case
  proof (cases "fmlookup (ses_streams s) sid")
    case None
    then have "fmdrop_set (set (sid # ids)) (ses_streams s) = fmdrop_set (set ids) (ses_streams s)"
      by (intro fmap_ext) auto
    with Cons None show ?thesis by (simp add: abort_each_Cons del: abort_each_stream.simps)
  next
    case (Some st)
    note one = abort_one_facts [OF Cons.prems Some]
    note rest = Cons.IH [OF one(1)]
    have "fmdrop_set (set ids) (fmdrop sid (ses_streams s)) = fmdrop_set (set (sid # ids)) (ses_streams s)"
      by (intro fmap_ext) auto
    with Some one(3,4) rest moves_trans0 [OF one(2), of "{#}"] show ?thesis
      by (simp add: abort_each_Cons queues_kept_def del: abort_each_stream.simps)
  qed
qed

lemma drop_all_streams: "fmdrop_set (set (sorted_list_of_fset (fmdom m))) m = fmempty" for m :: "(StreamId, 'v) fmap"
  by (intro fmap_ext) (simp add: fmdom_notD sorted_list_of_fset.rep_eq fmdom.rep_eq fmlookup_dom_iff domIff)

lemma abort_failures_sum [simp]:
  "dispatched (map session_abort_failure rs) = rs" "total_payload (map session_abort_failure rs) = 0"
  by (induction rs) (simp_all add: session_abort_failure_def session_failure_def)

subsection \<open>Closing the session\<close>

lemma emptied_inv:
  assumes "session_base s" "ses_streams s = fmempty" "\<not> is_open_state (ses_state s)"
    "ses_pending_capsules s = []" "ses_pending_datagrams s = []"
  shows "session_inv (s\<lparr>ses_blocked_streams := {}, ses_blocked_streams_queue := [], ses_pending_streams := [],
    ses_blocked_stream_requests_bidi := [], ses_blocked_stream_requests_uni := [], ses_pending_datagram_requests := []\<rparr>)"
    (is "session_inv ?t")
proof -
  have "streams_ok ?t" "window_ok ?t" "slots_ok ?t"
    by (rule session_frames, use assms(1) in \<open>simp add: session_base_def\<close>, simp_all)+
  moreover have "writers_ok ?t" "received_ok ?t" "gone_ok ?t" "queues_ok ?t"
    using assms by (simp_all add: writers_ok_def received_ok_def gone_ok_def queues_ok_def)
  ultimately show ?thesis by (simp add: session_inv_def)
qed

lemma close_down_facts:
  assumes "session_base s" "\<not> is_open_state st" "state_rank (ses_state s) \<le> state_rank st"
  shows "session_inv (snd (close_down s cc cr st now))" "moves s {#} (close_down s cc cr st now)"
    "ses_state (snd (close_down s cc cr st now)) = st"
    "ses_close_code (snd (close_down s cc cr st now)) = cc" "ses_close_reason (snd (close_down s cc cr st now)) = cr"
proof -
  let ?s = "s\<lparr>ses_close_code := cc, ses_close_reason := cr, ses_closed_at := Some now, ses_state := st,
    ses_pending_capsules := [], ses_pending_datagrams := []\<rparr>"
  have "streams_ok ?s" "window_ok ?s" "slots_ok ?s" "writers_ok ?s"
    by (rule session_frames, use assms(1) in \<open>simp add: session_base_def\<close>, simp_all)+
  then have base: "session_base ?s"
    using assms(1) by (simp add: session_base_def queues_ok_def)
  define ids where "ids = sorted_list_of_fset (fmdom (ses_streams s))"
  obtain es t where t: "abort_each_stream ids ?s = (es, t)" by fastforce
  note facts = abort_each_facts [OF base, of ids, unfolded t, simplified]
  have streams: "ses_streams t = fmempty"
    using facts drop_all_streams by (simp add: ids_def)
  let ?b = "ses_blocked_stream_requests_bidi s" and ?u = "ses_blocked_stream_requests_uni s"
    and ?d = "ses_pending_datagram_requests s"
  let ?t = "t\<lparr>ses_blocked_streams := {}, ses_blocked_streams_queue := [], ses_pending_streams := [],
    ses_blocked_stream_requests_bidi := [], ses_blocked_stream_requests_uni := [], ses_pending_datagram_requests := []\<rparr>"
  have kept: "ses_state t = st" "ses_close_code t = cc" "ses_close_reason t = cr" "ses_pending_capsules t = []" "ses_pending_datagrams t = []"
    "ses_blocked_stream_requests_bidi t = ?b" "ses_blocked_stream_requests_uni t = ?u" "ses_pending_datagram_requests t = ?d"
    using facts by (simp_all add: queues_kept_def)
  have eq: "close_down s cc cr st now = (es @ map session_abort_failure ?b @ map session_abort_failure ?u
      @ map session_abort_failure ?d, ?t)"
    using t kept by (simp add: close_down_def abort_streams_def ids_def [symmetric] Let_def)
  show "session_inv (snd (close_down s cc cr st now))" "ses_state (snd (close_down s cc cr st now)) = st"
    "ses_close_code (snd (close_down s cc cr st now)) = cc" "ses_close_reason (snd (close_down s cc cr st now)) = cr"
    unfolding eq using emptied_inv [OF _ streams] facts kept assms(2) by simp_all
  have first: "moves s {#} ([], ?s)"
    using assms(3) by (intro moves_quiet) (simp_all add: session_holds_def grows_def same_session_def)
  have rest: "moves t {#} (map session_abort_failure ?b @ map session_abort_failure ?u @ map session_abort_failure ?d, ?t)"
    using kept streams by (simp add: moves_def session_holds_def grows_def same_session_def)
  have "moves s {#} (es, t)"
    using moves_trans0 [OF first, of "{#}" "(es, t)"] facts by simp
  from moves_trans0 [OF this, simplified, OF rest] show "moves s {#} (close_down s cc cr st now)"
    unfolding eq by simp
qed

lemma open_state_simps [simp]:
  "is_open_state SessionState.Connected" "is_open_state SessionState.Connecting" "is_open_state SessionState.Draining"
  "\<not> is_open_state SessionState.Closing" "\<not> is_open_state SessionState.Closed"
  by (simp_all add: is_open_state_def)

lemma rank_closed [simp]: "state_rank x \<le> 4"
  by (cases x) simp_all

lemma session_abort_open:
  assumes "session_base s" "is_open_state (ses_state s)"
  shows "session_inv (snd (session_abort s ec m now))" "moves s {#} (session_abort s ec m now)"
    "ses_state (snd (session_abort s ec m now)) = SessionState.Closed"
proof -
  note c = close_down_facts [OF assms(1), of SessionState.Closed "Some ec" "Some m" now, simplified]
  have eq: "session_abort s ec m now = (fst (close_down s (Some ec) (Some m) SessionState.Closed now)
      @ [ResetQuicStream (ses_id (snd (close_down s (Some ec) (Some m) SessionState.Closed now))) ec,
         session_closed_event (snd (close_down s (Some ec) (Some m) SessionState.Closed now)) (Some ec) (Some m)],
      snd (close_down s (Some ec) (Some m) SessionState.Closed now))"
    using assms(2) by (auto simp: session_abort_def is_open_state_def Let_def case_prod_beta)
  show "session_inv (snd (session_abort s ec m now))" "moves s {#} (session_abort s ec m now)"
    "ses_state (snd (session_abort s ec m now)) = SessionState.Closed"
    unfolding eq using c moves_snoc_quiet [OF c(2)] by (simp_all add: session_closed_event_def)
qed

lemma session_abort_facts:
  assumes "session_inv s"
  shows "session_inv (snd (session_abort s ec m now))" "moves s {#} (session_abort s ec m now)"
    "\<not> is_open_state (ses_state (snd (session_abort s ec m now)))"
proof -
  have base: "session_base s" using assms session_inv_base by blast
  show "session_inv (snd (session_abort s ec m now))" "moves s {#} (session_abort s ec m now)"
    "\<not> is_open_state (ses_state (snd (session_abort s ec m now)))"
    using session_abort_open [OF base] assms
    by (cases "ses_state s"; simp add: session_abort_def)+
qed

end
