(* ===== verification/Session_Calls.thy ===== *)
theory Session_Calls
  imports Session_Closing
begin

text \<open>
  Every operation of the session keeps the invariant and its books.  \<open>keeps s R p\<close> says that
  the outcome \<open>p\<close> of a call in state \<open>s\<close> that submits the requests \<open>R\<close> satisfies the invariant
  and \<open>moves\<close> from \<open>s\<close>.
\<close>

definition keeps :: "Session \<Rightarrow> RequestId multiset \<Rightarrow> effects \<times> Session \<Rightarrow> bool" where
  "keeps s R p \<longleftrightarrow> session_inv (snd p) \<and> moves s R p"

lemma keeps_answer [simp]:
  "session_inv s \<Longrightarrow> keeps s {#r#} ([NotifyRequestDone r v], s)"
  "session_inv s \<Longrightarrow> keeps s {#r#} ([NotifyRequestFailed r src ec m], s)"
  "session_inv s \<Longrightarrow> keeps s {#r#} ([session_failure r ec m], s)"
  "session_inv s \<Longrightarrow> keeps s {#r#} ([stream_resolve_failure r], s)"
  "session_inv s \<Longrightarrow> keeps s {#} ([], s)"
  by (simp_all add: keeps_def moves_def session_failure_def stream_resolve_failure_def)

lemma keeps_trans:
  assumes "keeps s {#} p" "keeps (snd p) R q"
  shows "keeps s R (fst p @ fst q, snd q)"
  using assms moves_trans0 [of s p R q] by (simp add: keeps_def)

lemma keeps_quiet:
  assumes "keeps s R p" "quiet es" "quiet fs"
  shows "keeps s R (es @ fst p @ fs, snd p)"
  using moves_cons_quiet [OF moves_snoc_quiet [of s R p fs], of es] assms by (simp add: keeps_def)

lemma keeps_answer_last:
  assumes "keeps s {#} p" "quiet es"
  shows "keeps s {#r#} (fst p @ es @ [NotifyRequestDone r v], snd p)"
  using keeps_trans [OF assms(1), of "{#r#}" "(es @ [NotifyRequestDone r v], snd p)"] assms quiet_sum [OF assms(2)]
  by (simp add: keeps_def moves_def)

subsection \<open>Operations on one stream\<close>

lemma stream_op_keeps:
  assumes "session_inv s" "fmlookup (ses_streams s) sid = Some st" "stream_call_ok c st" "settled_call c st"
    "\<forall>r d e k. c \<noteq> StreamWrite r d e k" "\<forall>k. c \<noteq> StreamFlush k" "\<forall>k. c \<noteq> StreamCompleteWrite k"
    "dispatched es = answered (fst (stream_call c st))" "total_payload es = 0"
  shows "keeps s (mset (stream_submits c)) (update_stream s sid (es, snd (stream_call c st)))"
proof -
  have good: "stream_good sid st"
    using assms(1,2) by (simp add: session_inv_def streams_ok_def)
  then have good': "stream_good sid (snd (stream_call c st))"
    using assms(3,4) by (rule stream_call_good)
  have "mset (dispatched es) + stream_holds (snd (stream_call c st)) = stream_holds st + mset (stream_submits c)"
    using stream_call_conserve [of st c] good assms(3,8) by (simp add: stream_good_def)
  moreover have "session_base s" using assms(1) session_inv_base by blast
  ultimately show ?thesis
    using update_stream_moves [OF _ assms(2) good' _ assms(9)] session_stream_call(1) [OF assms(1-7)] assms(8)
    by (simp add: keeps_def)
qed

lemma stream_call_keeps:
  assumes "session_inv s" "fmlookup (ses_streams s) sid = Some st" "stream_call_ok c st" "settled_call c st"
    "\<forall>r d e k. c \<noteq> StreamWrite r d e k" "\<forall>k. c \<noteq> StreamFlush k" "\<forall>k. c \<noteq> StreamCompleteWrite k"
    "list_all stream_effect (fst (stream_call c st))"
  shows "keeps s (mset (stream_submits c)) (update_stream s sid (stream_call c st))"
    and "keeps s (mset (stream_submits c))
      (update_stream s sid (suppress_pending_stream_events s sid (fst (stream_call c st)), snd (stream_call c st)))"
  using stream_op_keeps [OF assms(1-7)] stream_effects_sum [OF assms(8)]
  by (metis prod.collapse) (simp add: stream_op_keeps [OF assms(1-7)] stream_effects_sum [OF assms(8)])

lemma acknowledged_keeps:
  assumes "session_inv s" "\<And>st. fmlookup (ses_streams s) sid = Some st \<Longrightarrow> settled_call StreamAcknowledged st"
  shows "keeps s {#} (session_stream_acknowledged s sid)"
  using stream_call_keeps(1) [OF assms(1), of sid _ StreamAcknowledged] assms
  by (auto simp: session_stream_acknowledged_def stream_call_ok_def split: option.split)

lemma read_stream_keeps: "session_inv s \<Longrightarrow> keeps s {#r#} (read_stream s sid r n)"
  using stream_call_keeps(1) [of s sid _ "StreamRead r n"] stream_op_effects
  by (auto simp: read_stream_def stream_call_ok_def settled_call_def split: option.split)

lemma reset_stream_keeps: "session_inv s \<Longrightarrow> keeps s {#r#} (reset_stream s sid r ec)"
  using stream_call_keeps(1) [of s sid _ "StreamReset r ec"] stream_op_effects
  by (auto simp: reset_stream_def stream_call_ok_def settled_call_def split: option.split)

lemma stop_stream_keeps: "session_inv s \<Longrightarrow> keeps s {#r#} (stop_stream s sid r ec)"
  using stream_call_keeps(1) [of s sid _ "StreamStop r ec"] stream_op_effects
  by (auto simp: stop_stream_def stream_call_ok_def settled_call_def split: option.split)

lemma recv_stop_sending_keeps: "session_inv s \<Longrightarrow> keeps s {#} (session_recv_stop_sending s sid ec)"
  using stream_call_keeps(2) [of s sid _ "StreamRecvStop ec"] stream_op_effects
  by (auto simp: session_recv_stop_sending_def stream_call_ok_def settled_call_def case_prod_beta split: option.split)

lemma recv_stream_reset_keeps: "session_inv s \<Longrightarrow> keeps s {#} (recv_stream_reset s sid ec)"
  using stream_call_keeps(2) [of s sid _ "StreamRecvReset ec"] stream_op_effects
  by (auto simp: recv_stream_reset_def stream_call_ok_def settled_call_def case_prod_beta split: option.split)

lemma account_write_grows: "grows s (snd (account_write s sid p))"
proof -
  obtain es n st where p: "p = (es, n, st)" by (rule prod_cases3)
  have "grows s (charge s sid n st)"
    by (simp add: charge_def Let_def grows_def same_session_def)
  moreover have "grows (charge s sid n st) (snd (emit_data_blocked (charge s sid n st)))"
    using emit_data_blocked_moves [of "charge s sid n st"] by (simp add: moves_def)
  ultimately show ?thesis
    using grows_trans by (simp add: p account_write_eq Let_def case_prod_beta)
qed

lemma write_stream_keeps:
  assumes "session_inv s" "r \<notin># session_holds s" "length d < 2 ^ 63"
  shows "keeps s {#r#} (write_stream s sid r d e)"
proof -
  have "grows s (snd (write_stream s sid r d e))"
    by (simp add: write_stream_def account_write_grows split: option.split)
  then show ?thesis
    using write_stream_facts [OF assms] by (simp add: keeps_def moves_def)
qed

lemma complete_stream_write_keeps:
  assumes "session_inv s"
  shows "keeps s {#} (complete_stream_write s sid)"
proof -
  have "grows s (snd (complete_stream_write s sid))"
    by (simp add: complete_stream_write_def account_write_grows split: option.split)
  then show ?thesis
    using complete_stream_write_facts [OF assms] by (simp add: keeps_def moves_def)
qed

subsection \<open>Received data\<close>

lemma receive_into_inv:
  assumes inv: "session_inv s" and st: "fmlookup (ses_streams s) sid = Some st" and good: "stream_good sid st'"
    and blocked: "stream_is_blocked st' \<Longrightarrow> stream_is_blocked st"
    and window: "ses_flow_control_negotiated s \<Longrightarrow> ses_data_received s + n \<le> ses_local_max_data s"
  shows "session_inv (s\<lparr>ses_data_received := ses_data_received s + n,
    ses_streams := fmupd sid st' (ses_streams s), ses_data_consumed := ses_data_consumed s + n\<rparr>)" (is "session_inv ?t")
proof -
  have put: "session_inv (s\<lparr>ses_streams := fmupd sid st' (ses_streams s)\<rparr>)" (is "session_inv ?p")
    by (rule put_stream_inv [OF inv st good blocked])
  have "streams_ok ?t" "writers_ok ?t" "window_ok ?t" "slots_ok ?t" "queues_ok ?t" "gone_ok ?t"
    by (rule session_frames [of ?p], use put in \<open>simp add: session_inv_def\<close>, simp_all)+
  moreover have "received_ok ?t"
    using inv window by (auto simp: session_inv_def received_ok_def)
  ultimately show ?thesis by (simp add: session_inv_def)
qed

lemma put_stream_conserve:
  assumes "fmlookup (ses_streams s) sid = Some st" "A + stream_holds st' = stream_holds st"
  shows "A + session_holds (s\<lparr>ses_streams := fmupd sid st' (ses_streams s)\<rparr>) = session_holds s"
proof -
  have "A + session_holds (s\<lparr>ses_streams := fmupd sid st' (ses_streams s)\<rparr>) + stream_holds st
      = session_holds s + (A + stream_holds st')"
    using put_stream_holds [OF assms(1), of st'] by (simp add: ac_simps)
  with assms(2) show ?thesis by simp
qed

lemma recv_stream_data_keeps:
  assumes "session_inv s"
  shows "keeps s {#} (recv_stream_data s sid d fin now)"
proof (cases "fmlookup (ses_streams s) sid")
  case None
  with assms show ?thesis by (simp add: recv_stream_data_def)
next
  case (Some st)
  let ?n = "len64 d" and ?st = "snd (stream_recv_data st d fin)" and ?es = "fst (stream_recv_data st d fin)"
  let ?s = "s\<lparr>ses_data_received := ses_data_received s + ?n\<rparr>"
  let ?t = "?s\<lparr>ses_streams := fmupd sid ?st (ses_streams s), ses_data_consumed := ses_data_consumed s + ?n\<rparr>"
  have isopen: "is_open_state (ses_state s)"
    using assms Some by (auto simp: session_inv_def gone_ok_def)
  show ?thesis
  proof (cases "ses_flow_control_negotiated s \<and> ses_local_max_data s < ses_data_received s + ?n")
    case True
    have "streams_ok ?s" "writers_ok ?s" "window_ok ?s" "slots_ok ?s" "queues_ok ?s"
      by (rule session_frames, use assms in \<open>simp add: session_inv_def\<close>, simp_all)+
    then have "session_base ?s" by (simp add: session_base_def)
    note abort = session_abort_open [OF this, simplified, OF isopen]
    have "moves s {#} ([], ?s)"
      by (rule moves_quiet) (simp_all add: session_holds_def grows_def same_session_def)
    from moves_trans0 [OF this, simplified, OF abort(2)] abort(1) True Some show ?thesis
      by (simp add: recv_stream_data_def keeps_def Let_def)
  next
    case False
    have good: "stream_good sid st"
      using assms Some by (simp add: session_inv_def streams_ok_def)
    have good': "stream_good sid ?st"
      using stream_call_good [OF good, of "StreamRecvData d fin"] by (simp add: stream_call_ok_def settled_call_def)
    have t: "session_inv ?t"
      using receive_into_inv [OF assms Some good', of ?n] stream_call_blocked [of "StreamRecvData d fin" st] False by auto
    have "mset (answered ?es) + stream_holds ?st = stream_holds st"
      using stream_call_conserve [of st "StreamRecvData d fin"] good by (simp add: stream_good_def stream_call_ok_def)
    then have "mset (answered ?es) + session_holds (s\<lparr>ses_streams := fmupd sid ?st (ses_streams s)\<rparr>) = session_holds s"
      by (rule put_stream_conserve [OF Some])
    then have "moves s {#} (?es, ?t)"
      using stream_effects_sum [OF stream_op_effects(3)]
      by (simp add: moves_def grows_def same_session_def session_holds_def)
    then have "keeps s {#} (?es, ?t)" using t by (simp add: keeps_def)
    moreover have "keeps ?t {#} (option_effect (fst (replenish_data_credit ?t False)), snd (replenish_data_credit ?t False))"
      (is "keeps ?t {#} (?fs, ?u)")
      using replenish_data_inv [OF t] replenish_data_moves by (simp add: keeps_def)
    moreover from this have "keeps ?u {#} (session_handle_closed ?u sid)"
      using handle_closed_inv handle_closed_moves by (simp add: keeps_def session_inv_def)
    ultimately have "keeps s {#} ((?es @ ?fs) @ fst (session_handle_closed ?u sid), snd (session_handle_closed ?u sid))"
      using keeps_trans [of s "(?es, ?t)" "{#}" "(?fs, ?u)"] keeps_trans [of s "(?es @ ?fs, ?u)" "{#}" "session_handle_closed ?u sid"]
      by simp
    with Some False show ?thesis
      by (auto simp: recv_stream_data_def Let_def case_prod_beta)
  qed
qed

subsection \<open>Opening streams\<close>

lemma window_requests_inv:
  assumes "session_inv s"
    "ses_flow_control_negotiated s \<Longrightarrow> ub \<le> ses_peer_max_streams_bidi s \<and> uu \<le> ses_peer_max_streams_uni s"
    "\<not> is_open_state (ses_state s) \<Longrightarrow> rb = [] \<and> ru = []"
    "t = s\<lparr>ses_local_streams_bidi_opened := ub, ses_local_streams_uni_opened := uu,
      ses_blocked_stream_requests_bidi := rb, ses_blocked_stream_requests_uni := ru\<rparr>"
  shows "session_inv t"
  using flush_requests_inv [OF assms(1-3)] assms(4) by simp

lemma queue_request_keeps:
  assumes "session_inv s" "is_open_state (ses_state s)"
  shows "keeps s {#r#} ([], s\<lparr>ses_blocked_stream_requests_uni := ses_blocked_stream_requests_uni s @ [r]\<rparr>)"
    and "keeps s {#r#} ([], s\<lparr>ses_blocked_stream_requests_bidi := ses_blocked_stream_requests_bidi s @ [r]\<rparr>)"
proof -
  have w: "window_ok s" using assms(1) by (simp add: session_inv_def)
  have "session_inv (s\<lparr>ses_blocked_stream_requests_uni := ses_blocked_stream_requests_uni s @ [r]\<rparr>)"
    by (rule window_requests_inv [where s = s and ub = "ses_local_streams_bidi_opened s" and uu = "ses_local_streams_uni_opened s"
          and rb = "ses_blocked_stream_requests_bidi s" and ru = "ses_blocked_stream_requests_uni s @ [r]"])
       (use assms w in \<open>simp_all add: window_ok_def\<close>)
  moreover have "session_inv (s\<lparr>ses_blocked_stream_requests_bidi := ses_blocked_stream_requests_bidi s @ [r]\<rparr>)"
    by (rule window_requests_inv [where s = s and ub = "ses_local_streams_bidi_opened s" and uu = "ses_local_streams_uni_opened s"
          and rb = "ses_blocked_stream_requests_bidi s @ [r]" and ru = "ses_blocked_stream_requests_uni s"])
       (use assms w in \<open>simp_all add: window_ok_def\<close>)
  ultimately show "keeps s {#r#} ([], s\<lparr>ses_blocked_stream_requests_uni := ses_blocked_stream_requests_uni s @ [r]\<rparr>)"
    and "keeps s {#r#} ([], s\<lparr>ses_blocked_stream_requests_bidi := ses_blocked_stream_requests_bidi s @ [r]\<rparr>)"
    by (simp_all add: keeps_def moves_def session_holds_def grows_def same_session_def)
qed

lemma emit_streams_blocked_keeps:
  "keeps s R (es, t) \<Longrightarrow> keeps s R (es @ option_effect (fst (emit_streams_blocked t u)), snd (emit_streams_blocked t u))"
  using moves_trans [of s R "(es, t)" "{#}"] emit_streams_blocked_inv [of t u] emit_streams_blocked_moves [of t u]
  by (fastforce simp: keeps_def)

lemma create_stream_keeps:
  assumes "session_inv s"
  shows "keeps s {#r#} (create_stream s r u)"
proof (cases "is_open_state (ses_state s)")
  case False
  then show ?thesis using assms by (simp add: create_stream_def)
next
  case True
  have w: "window_ok s" using assms by (simp add: session_inv_def)
  consider (full) "ses_flow_control_negotiated s" "if u then ses_peer_max_streams_uni s \<le> ses_local_streams_uni_opened s
      else ses_peer_max_streams_bidi s \<le> ses_local_streams_bidi_opened s"
    | (free) "ses_flow_control_negotiated s \<longrightarrow> (if u then ses_local_streams_uni_opened s < ses_peer_max_streams_uni s
        else ses_local_streams_bidi_opened s < ses_peer_max_streams_bidi s)"
    by (cases u) (metis (full_types) not_le)+
  then show ?thesis
  proof cases
    case full
    then show ?thesis
      using True emit_streams_blocked_keeps [OF queue_request_keeps(1) [OF assms True, of r], of u]
        emit_streams_blocked_keeps [OF queue_request_keeps(2) [OF assms True, of r], of u]
      by (cases u) (simp_all add: create_stream_def Let_def case_prod_beta)
  next
    case free
    let ?t = "if u then s\<lparr>ses_local_streams_uni_opened := ses_local_streams_uni_opened s + 1\<rparr>
      else s\<lparr>ses_local_streams_bidi_opened := ses_local_streams_bidi_opened s + 1\<rparr>"
    have "session_inv ?t"
      by (rule window_requests_inv [where s = s and ub = "ses_local_streams_bidi_opened ?t" and uu = "ses_local_streams_uni_opened ?t"
            and rb = "ses_blocked_stream_requests_bidi s" and ru = "ses_blocked_stream_requests_uni s"])
         (use assms w True free increment_below in \<open>auto simp: window_ok_def\<close>)
    then have "keeps s {#r#} ([CreateQuicStream r (ses_id s) u], ?t)"
      by (cases u) (simp_all add: keeps_def moves_def session_holds_def grows_def same_session_def)
    moreover have "create_stream s r u = ([CreateQuicStream r (ses_id s) u], ?t)"
      using True free by (cases u) (auto simp: create_stream_def Let_def not_le)
    ultimately show ?thesis by simp
  qed
qed

lemma decrement_le: "0 < (a :: u64) \<Longrightarrow> a \<le> b \<Longrightarrow> a - 1 \<le> b"
  by unat_arith

lemma defer_stream_keeps:
  assumes "session_inv s"
    "is_open_state (ses_state s) \<Longrightarrow> (if u then 0 < ses_local_streams_uni_opened s else 0 < ses_local_streams_bidi_opened s)"
  shows "keeps s {#r#} (defer_stream s r u)"
proof (cases "is_open_state (ses_state s)")
  case False
  then show ?thesis using assms by (simp add: defer_stream_def)
next
  case True
  have w: "window_ok s" using assms by (simp add: session_inv_def)
  let ?t = "snd (defer_stream s r u)"
  have "session_inv ?t"
    by (rule window_requests_inv [where s = s and ub = "ses_local_streams_bidi_opened ?t" and uu = "ses_local_streams_uni_opened ?t"
          and rb = "ses_blocked_stream_requests_bidi ?t" and ru = "ses_blocked_stream_requests_uni ?t"])
       (use assms w True decrement_le in \<open>cases u; auto simp: window_ok_def defer_stream_def\<close>)+
  then show ?thesis
    using True by (cases u) (simp_all add: keeps_def moves_def session_holds_def grows_def same_session_def defer_stream_def)
qed

end
