(* ===== verification/Session_Opening.thy ===== *)
theory Session_Opening
  imports Session_Calls
begin

text \<open>
  Streams that join the session: the one the transport opened for a request (\<open>bind_stream\<close>) and
  those of the peer (\<open>handle_stream_opened\<close>), which take a slot each, or give it back at once when
  the queue of a session that is not accepted yet is full.
\<close>

lemma insert_stream_inv:
  assumes inv: "session_inv s" and isopen: "is_open_state (ses_state s)" and st: "stream_good sid st" "\<not> stream_is_blocked st"
    and ps: "length ps \<le> unat (ses_max_pending_streams s)"
    and slots: "slots_ok (s\<lparr>ses_streams := fmupd sid st (ses_streams s), ses_peer_streams_bidi_opened := ob,
      ses_peer_streams_uni_opened := ou\<rparr>)"
  shows "session_inv (s\<lparr>ses_peer_streams_bidi_opened := ob, ses_peer_streams_uni_opened := ou, ses_pending_streams := ps,
    ses_streams := fmupd sid st (ses_streams s)\<rparr>)" (is "session_inv ?t")
proof -
  have "window_ok ?t" "received_ok ?t"
    by (rule session_frames, use inv in \<open>simp add: session_inv_def\<close>, simp_all)+
  moreover have "slots_ok ?t"
    by (rule slots_frame [OF slots]) simp_all
  moreover have "streams_ok ?t" "writers_ok ?t" "queues_ok ?t" "gone_ok ?t"
    using inv st isopen ps
    by (auto simp: session_inv_def streams_ok_def writers_ok_def queues_ok_def gone_ok_def session_credit_def)
  ultimately show ?thesis by (simp add: session_inv_def)
qed

lemma insert_stream_holds:
  assumes "fmlookup (ses_streams s) sid = None" "stream_holds st = {#}"
  shows "fm_sum (\<lambda>_. stream_holds) (fmupd sid st (ses_streams s)) = fm_sum (\<lambda>_. stream_holds) (ses_streams s)"
  using assms by (simp add: fm_sum_upd fmdrop_idle fmdom_notI)

lemma peer_open_insert:
  assumes "fmlookup (ses_streams s) sid = None"
  shows "fm_sum (\<lambda>sid _. of_bool (peer_slot c u sid)) (fmupd sid st (ses_streams s)) =
    of_bool (peer_slot c u sid) + fm_sum (\<lambda>sid _. of_bool (peer_slot c u sid)) (ses_streams s)"
  using assms by (simp add: fm_sum_upd fmdrop_idle fmdom_notI split del: split_of_bool)

lemma bind_stream_keeps:
  assumes "session_inv s" "fmlookup (ses_streams s) sid = None" "\<not> is_peer_initiated_stream sid (ses_is_client s)"
  shows "keeps s {#r#} (bind_stream s sid r u now)"
proof (cases "is_open_state (ses_state s)")
  case False
  then show ?thesis using assms(1) by (simp add: bind_stream_def keeps_def moves_def session_failure_def)
next
  case True
  define dir where "dir = (if u then SendOnly else Bidirectional)"
  let ?st = "stream_new sid (ses_id s) dir False
    \<lparr>sp_max_write_buffer_size = ses_max_write_buffer_size s\<rparr> now"
  have good: "stream_good sid ?st"
    using assms(1) by (intro stream_new_good) (simp add: session_inv_def streams_ok_def)
  let ?t = "s\<lparr>ses_streams := fmupd sid ?st (ses_streams s)\<rparr>"
  have "\<not> peer_slot (ses_is_client s) w sid" for w
    using assms(3) by (simp add: peer_slot_def)
  then have "slots_ok ?t"
    using assms(1) by (simp add: session_inv_def slots_ok_def peer_open_def peer_open_insert [OF assms(2)])
  moreover have "length (ses_pending_streams s) \<le> unat (ses_max_pending_streams s)"
    using assms(1) by (simp add: session_inv_def queues_ok_def)
  ultimately have "session_inv ?t"
    using insert_stream_inv [OF assms(1) True good, where ps = "ses_pending_streams s"
        and ob = "ses_peer_streams_bidi_opened s" and ou = "ses_peer_streams_uni_opened s"] by simp
  then show ?thesis
    using True insert_stream_holds [OF assms(2), of ?st]
    by (simp add: bind_stream_def dir_def [symmetric] keeps_def moves_def session_holds_def grows_def same_session_def)
qed

subsection \<open>Streams of the peer\<close>

definition take_slot :: "Session \<Rightarrow> bool \<Rightarrow> Session" where
  "take_slot s u = (if u then s\<lparr>ses_peer_streams_uni_opened := ses_peer_streams_uni_opened s + 1\<rparr>
    else s\<lparr>ses_peer_streams_bidi_opened := ses_peer_streams_bidi_opened s + 1\<rparr>)"

definition slot_free :: "Session \<Rightarrow> bool \<Rightarrow> bool" where
  "slot_free s u \<longleftrightarrow> (if u
    then \<not> (ses_flow_control_negotiated s \<and> ses_local_max_streams_uni s \<le> ses_peer_streams_uni_opened s)
    else \<not> (ses_flow_control_negotiated s \<and> ses_local_max_streams_bidi s \<le> ses_peer_streams_bidi_opened s))"

lemma insert_peer_keeps:
  assumes inv: "session_inv s" and isopen: "is_open_state (ses_state s)" and fresh: "fmlookup (ses_streams s) sid = None"
    and peer: "is_peer_initiated_stream sid (ses_is_client s)" and free: "slot_free s (is_unidirectional_stream sid)"
    and ps: "length ps \<le> unat (ses_max_pending_streams s)"
  shows "keeps s {#} (insert_peer_stream ((take_slot s (is_unidirectional_stream sid))\<lparr>ses_pending_streams := ps\<rparr>) sid dir now)"
proof -
  let ?u = "is_unidirectional_stream sid"
  let ?st = "stream_new sid (ses_id s) dir True \<lparr>sp_max_write_buffer_size = ses_max_write_buffer_size s\<rparr> now"
  have good: "stream_good sid ?st"
    using inv by (intro stream_new_good) (simp add: session_inv_def streams_ok_def)
  have slot: "peer_slot (ses_is_client s) w sid \<longleftrightarrow> w = ?u" for w
    using peer by (auto simp: peer_slot_def)
  let ?ob = "ses_peer_streams_bidi_opened (take_slot s ?u)" and ?ou = "ses_peer_streams_uni_opened (take_slot s ?u)"
  have "slots_ok (s\<lparr>ses_streams := fmupd sid ?st (ses_streams s), ses_peer_streams_bidi_opened := ?ob,
      ses_peer_streams_uni_opened := ?ou\<rparr>)"
    using inv free slot_ok_open
    by (cases ?u) (auto simp: session_inv_def slots_ok_def peer_open_def peer_open_insert [OF fresh] slot take_slot_def slot_free_def)
  note inserted = insert_stream_inv [OF inv isopen good stream_new_idle(2) ps this]
  have "(take_slot s ?u)\<lparr>ses_pending_streams := ps, ses_streams := fmupd sid ?st (ses_streams s)\<rparr> =
    s\<lparr>ses_peer_streams_bidi_opened := ?ob, ses_peer_streams_uni_opened := ?ou, ses_pending_streams := ps,
      ses_streams := fmupd sid ?st (ses_streams s)\<rparr>"
    by (simp add: take_slot_def)
  then show ?thesis
    using inserted insert_stream_holds [OF fresh, of ?st]
    by (auto simp: insert_peer_stream_def keeps_def moves_def session_holds_def grows_def same_session_def Let_def take_slot_def)
qed

definition give_slot_back :: "Session \<Rightarrow> bool \<Rightarrow> Session" where
  "give_slot_back s u = (if u then s\<lparr>ses_peer_streams_uni_closed := ses_peer_streams_uni_closed s + 1\<rparr>
    else s\<lparr>ses_peer_streams_bidi_closed := ses_peer_streams_bidi_closed s + 1\<rparr>)"

lemma refuse_eq:
  assumes "dir = stream_direction_from_id sid c" "is_peer_initiated_stream sid c"
  shows "refuse_pending_stream s sid dir = (let t = give_slot_back s (is_unidirectional_stream sid) in
    (((if dir = Bidirectional then [ResetQuicStream sid ERR_WT_BUFFERED_STREAM_REJECTED] else [])
        @ [StopQuicStream sid ERR_WT_BUFFERED_STREAM_REJECTED])
       @ option_effect (fst (replenish_streams_credit t (is_unidirectional_stream sid) False)),
     snd (replenish_streams_credit t (is_unidirectional_stream sid) False)))"
  using assms
  by (cases "is_unidirectional_stream sid")
     (simp_all add: refuse_pending_stream_def give_slot_back_def stream_direction_from_id_def Let_def case_prod_beta)

lemma refuse_keeps:
  assumes inv: "session_inv s" and peer: "is_peer_initiated_stream sid (ses_is_client s)"
    and free: "slot_free s (is_unidirectional_stream sid)"
  shows "keeps s {#} (refuse_pending_stream (take_slot s (is_unidirectional_stream sid)) sid
    (stream_direction_from_id sid (ses_is_client s)))"
proof -
  let ?u = "is_unidirectional_stream sid"
  let ?t = "give_slot_back (take_slot s ?u) ?u"
  have "slots_ok ?t"
    using inv free slot_ok_open [THEN slot_ok_close]
    by (cases ?u) (auto simp: session_inv_def slots_ok_def peer_open_def take_slot_def give_slot_back_def slot_free_def)
  moreover have "streams_ok ?t" "writers_ok ?t" "window_ok ?t" "received_ok ?t" "queues_ok ?t" "gone_ok ?t"
    by (cases ?u; rule session_frames [of s]; use inv in \<open>simp add: session_inv_def take_slot_def give_slot_back_def\<close>)+
  ultimately have t: "session_inv ?t" by (simp add: session_inv_def)
  have "moves s {#} ([], ?t)"
    by (rule moves_quiet)
       (simp_all add: session_holds_def grows_def same_session_def take_slot_def give_slot_back_def)
  from moves_trans0 [OF this, simplified, OF replenish_streams_moves] replenish_streams_inv [OF t]
  have "keeps s {#} (option_effect (fst (replenish_streams_credit ?t ?u False)), snd (replenish_streams_credit ?t ?u False))"
    by (simp add: keeps_def)
  from keeps_quiet [OF this, of "(if stream_direction_from_id sid (ses_is_client s) = Bidirectional
      then [ResetQuicStream sid ERR_WT_BUFFERED_STREAM_REJECTED] else []) @ [StopQuicStream sid ERR_WT_BUFFERED_STREAM_REJECTED]" "[]"]
  show ?thesis by (simp add: refuse_eq [OF refl peer] Let_def)
qed

lemma len64_ge: "\<not> len64 xs \<ge> (n :: u64) \<Longrightarrow> length xs < 2 ^ 64 \<Longrightarrow> length xs < unat n"
  by (simp add: len64_def word_le_nat_alt unat_of_nat)

lemma admit_keeps:
  assumes "session_inv s" "is_open_state (ses_state s)" "fmlookup (ses_streams s) sid = None"
    "is_peer_initiated_stream sid (ses_is_client s)" "slot_free s (is_unidirectional_stream sid)"
  shows "keeps s {#} (admit_peer_stream (take_slot s (is_unidirectional_stream sid)) sid
    (stream_direction_from_id sid (ses_is_client s)) now)"
proof -
  let ?u = "is_unidirectional_stream sid" and ?ps = "ses_pending_streams s"
  have ps: "length ?ps \<le> unat (ses_max_pending_streams s)"
    using assms(1) by (simp add: session_inv_def queues_ok_def)
  have fields: "ses_pending_streams (take_slot s ?u) = ?ps" "ses_state (take_slot s ?u) = ses_state s"
    "ses_max_pending_streams (take_slot s ?u) = ses_max_pending_streams s"
    "(take_slot s ?u)\<lparr>ses_pending_streams := ?ps\<rparr> = take_slot s ?u"
    by (simp_all add: take_slot_def)
  have "length ?ps < 2 ^ 64"
    using le_less_trans [OF ps unat_u64_bound] by simp
  then have "\<not> len64 ?ps \<ge> ses_max_pending_streams s \<Longrightarrow> length (?ps @ [sid]) \<le> unat (ses_max_pending_streams s)"
    using len64_ge [of "ses_max_pending_streams s" ?ps] by simp
  then show ?thesis
    using refuse_keeps [OF assms(1,4,5)] insert_peer_keeps [OF assms ps] insert_peer_keeps [OF assms, of "?ps @ [sid]"]
    by (simp add: admit_peer_stream_def fields)
qed

lemma handle_stream_opened_keeps:
  assumes "session_inv s" "fmlookup (ses_streams s) sid = None" "is_peer_initiated_stream sid (ses_is_client s)"
  shows "keeps s {#} (handle_stream_opened s sid now)"
proof (cases "is_open_state (ses_state s)")
  case False
  then show ?thesis
    using assms(1) by (simp add: handle_stream_opened_def keeps_def moves_quiet Let_def)
next
  case True
  note abort = session_abort_facts [OF assms(1), of ERR_WT_FLOW_CONTROL_ERROR "''wt_session validate exceeded''" now]
  let ?a = "session_abort s ERR_WT_FLOW_CONTROL_ERROR ''wt_session validate exceeded'' now"
  have "keeps s {#} ?a" using abort by (simp add: keeps_def)
  then have refused: "quiet es \<Longrightarrow> keeps s {#} (es @ fst ?a, snd ?a)" for es
    using keeps_quiet [of s "{#}" ?a es "[]"] by simp
  note admitted = admit_keeps [OF assms(1) True assms(2,3), where now = now]
  show ?thesis
  proof (cases "is_unidirectional_stream sid")
    case uni: True
    then show ?thesis
      using True assms(3) admitted refused [of "[StopQuicStream sid ERR_WT_SESSION_GONE]"]
      by (auto simp: handle_stream_opened_def stream_direction_from_id_def take_slot_def slot_free_def Let_def case_prod_beta)
  next
    case bidi: False
    then show ?thesis
      using True admitted
        refused [of "[ResetQuicStream sid ERR_WT_SESSION_GONE, StopQuicStream sid ERR_WT_SESSION_GONE]"]
      by (auto simp: handle_stream_opened_def stream_direction_from_id_def take_slot_def slot_free_def Let_def case_prod_beta)
  qed
qed

end
