(* ===== verification/Session_Capsules.thy ===== *)
theory Session_Capsules
  imports Session_Opening
begin

text \<open>
  Capsules and datagrams from the peer, their replay when a session that buffered them is
  accepted, and the ways a session opens, drains and closes.
\<close>

lemma abort_keeps: "session_inv s \<Longrightarrow> keeps s {#} (session_abort s ec m now)"
  using session_abort_facts by (simp add: keeps_def)

lemma quiet_keeps: "session_inv s \<Longrightarrow> quiet es \<Longrightarrow> keeps s {#} (es, s)"
  by (simp add: keeps_def moves_quiet)

lemma step_keeps:
  assumes "session_inv t" "session_holds t = session_holds s" "ses_data_sent t = ses_data_sent s" "grows s t" "keeps t R p"
  shows "keeps s R p"
  using keeps_trans [of s "([], t)" R p] assms moves_quiet [of "[]" t s] by (simp add: keeps_def)

lemma state_inv:
  assumes "session_inv s" "is_open_state (ses_state s)" "is_open_state st"
  shows "session_inv (s\<lparr>ses_state := st\<rparr>)" (is "session_inv ?t")
proof -
  have "streams_ok ?t" "writers_ok ?t" "window_ok ?t" "slots_ok ?t" "queues_ok ?t"
    by (rule session_frames, use assms(1) in \<open>simp add: session_inv_def\<close>, simp_all)+
  moreover have "received_ok ?t" "gone_ok ?t"
    using assms by (simp_all add: session_inv_def received_ok_def gone_ok_def)
  ultimately show ?thesis by (simp add: session_inv_def)
qed

subsection \<open>Capsules\<close>

lemma capsule_close_keeps:
  assumes "session_inv s" "is_open_state (ses_state s)"
  shows "keeps s {#} (capsule_close_session s v now)"
proof -
  let ?c = "\<lambda>ec m. close_down s (Some ec) (Some m) SessionState.Closed now"
  have "session_base s" using assms(1) session_inv_base by blast
  from close_down_facts [OF this, of SessionState.Closed] have "keeps s {#} (?c ec m)" for ec m
    by (simp add: keeps_def)
  from keeps_quiet [OF this, of "[]" "[SendQuicData i [] True, session_closed_event t ec m]" for i t ec m]
  have "keeps s {#} (fst (?c ec m) @ [SendQuicData i [] True, session_closed_event t a b], snd (?c ec m))" for ec m i t a b
    by (simp add: session_closed_event_def)
  then show ?thesis
    using abort_keeps [OF assms(1)] by (simp add: capsule_close_session_def Let_def case_prod_beta)
qed

lemma replenish_data_keeps:
  "session_inv s \<Longrightarrow> keeps s {#} (option_effect (fst (replenish_data_credit s f)), snd (replenish_data_credit s f))"
  using replenish_data_inv replenish_data_moves by (simp add: keeps_def)

lemma replenish_streams_keeps:
  "session_inv s \<Longrightarrow> keeps s {#} (option_effect (fst (replenish_streams_credit s u f)), snd (replenish_streams_credit s u f))"
  using replenish_streams_inv replenish_streams_moves by (simp add: keeps_def)

lemma capsule_data_blocked_keeps:
  assumes "session_inv s"
  shows "keeps s {#} (capsule_data_blocked s)"
  using replenish_data_keeps [OF assms, of True]
    keeps_quiet [of s "{#}" "([], snd (replenish_data_credit s True))" "[EmitSessionEvent i t f]" "[]" for i t f]
  by (cases "replenish_data_credit s True") (auto simp: capsule_data_blocked_def split: option.split)

lemma capsule_streams_blocked_keeps:
  assumes "session_inv s"
  shows "keeps s {#} (capsule_streams_blocked s u v now)"
  using replenish_streams_keeps [OF assms, of u True] abort_keeps [OF assms]
    keeps_quiet [of s "{#}" "([], snd (replenish_streams_credit s u True))" "[EmitSessionEvent i t f]" "[]" for i t f]
  by (cases "replenish_streams_credit s u True")
     (auto simp: capsule_streams_blocked_def varint_abort_def split: option.split sum.split)

lemma capsule_drain_keeps:
  assumes "session_inv s" "ses_state s = SessionState.Connected"
  shows "keeps s {#} (capsule_drain_session s)"
  using state_inv [OF assms(1), of SessionState.Draining] assms(2)
  by (simp add: capsule_drain_session_def keeps_def moves_def session_holds_def grows_def same_session_def)

lemma max_data_core:
  assumes "session_inv s" "ses_peer_max_data s < m"
  shows "session_core (s\<lparr>ses_peer_max_data := m\<rparr>)" (is "session_core ?t")
proof -
  have "streams_ok ?t" "slots_ok ?t" "received_ok ?t" "queues_ok ?t" "gone_ok ?t"
    by (rule session_frames, use assms(1) in \<open>simp add: session_inv_def\<close>, simp_all)+
  moreover have "window_ok ?t" "writers_queued ?t"
    using assms by (auto simp: session_inv_def window_ok_def writers_queued_def writers_ok_def)
  ultimately show ?thesis by (simp add: session_core_def)
qed

lemma capsule_max_data_keeps:
  assumes "session_inv s"
  shows "keeps s {#} (capsule_max_data s v now)"
proof -
  have raised: "keeps s {#} (EmitSessionEvent i t f # fst (flush_blocked_writes (s\<lparr>ses_peer_max_data := m\<rparr>)),
      snd (flush_blocked_writes (s\<lparr>ses_peer_max_data := m\<rparr>)))" (is "keeps s _ (_ # fst ?f, _)")
    if "ses_peer_max_data s < m" for m i t f
  proof -
    let ?t = "s\<lparr>ses_peer_max_data := m\<rparr>"
    note facts = flush_blocked_writes_facts [OF max_data_core [OF assms that]]
    have "moves s {#} ([], ?t)"
      using that by (intro moves_quiet) (simp_all add: session_holds_def grows_def same_session_def)
    from moves_trans0 [OF this, simplified, OF facts(2)] facts(1) have "keeps s {#} ?f"
      by (simp add: keeps_def)
    from keeps_quiet [OF this, of "[EmitSessionEvent i t f]" "[]"] show ?thesis by simp
  qed
  show ?thesis
    using raised abort_keeps [OF assms]
    by (simp add: capsule_max_data_def varint_abort_def Let_def case_prod_beta split: sum.split)
qed

lemma max_streams_inv:
  assumes "session_inv s" "ses_peer_max_streams_bidi s \<le> b" "ses_peer_max_streams_uni s \<le> u"
  shows "session_inv (s\<lparr>ses_peer_max_streams_bidi := b, ses_peer_max_streams_uni := u\<rparr>)" (is "session_inv ?t")
proof -
  have "streams_ok ?t" "writers_ok ?t" "slots_ok ?t" "received_ok ?t" "queues_ok ?t" "gone_ok ?t"
    by (rule session_frames, use assms(1) in \<open>simp add: session_inv_def\<close>, simp_all)+
  moreover have "window_ok ?t"
    using assms by (auto simp: session_inv_def window_ok_def)
  ultimately show ?thesis by (simp add: session_inv_def)
qed

lemma max_streams_raised:
  assumes "session_inv s" "session_inv t" "session_holds t = session_holds s" "ses_data_sent t = ses_data_sent s" "grows s t"
  shows "keeps s {#} (EmitSessionEvent i e f # fst (flush_blocked_stream_requests t u), snd (flush_blocked_stream_requests t u))"
proof -
  have "keeps t {#} (flush_blocked_stream_requests t u)"
    using flush_blocked_stream_requests_facts [OF assms(2)] by (simp add: keeps_def)
  from keeps_quiet [OF step_keeps [OF assms(2-5) this], of "[EmitSessionEvent i e f]" "[]"] show ?thesis by simp
qed

lemma capsule_max_streams_keeps:
  assumes "session_inv s"
  shows "keeps s {#} (capsule_max_streams_bidi s v now)" "keeps s {#} (capsule_max_streams_uni s v now)"
proof -
  have "keeps s {#} (EmitSessionEvent i e f # fst (flush_blocked_stream_requests (s\<lparr>ses_peer_max_streams_bidi := m\<rparr>) u),
      snd (flush_blocked_stream_requests (s\<lparr>ses_peer_max_streams_bidi := m\<rparr>) u))"
    if "ses_peer_max_streams_bidi s < m" for m i e f u
    using that max_streams_inv [OF assms, of m "ses_peer_max_streams_uni s"]
    by (intro max_streams_raised [OF assms]) (simp_all add: session_holds_def grows_def same_session_def)
  then show "keeps s {#} (capsule_max_streams_bidi s v now)"
    using abort_keeps [OF assms]
    by (simp add: capsule_max_streams_bidi_def varint_abort_def Let_def case_prod_beta split: sum.split)
  have "keeps s {#} (EmitSessionEvent i e f # fst (flush_blocked_stream_requests (s\<lparr>ses_peer_max_streams_uni := m\<rparr>) u),
      snd (flush_blocked_stream_requests (s\<lparr>ses_peer_max_streams_uni := m\<rparr>) u))"
    if "ses_peer_max_streams_uni s < m" for m i e f u
    using that max_streams_inv [OF assms, of "ses_peer_max_streams_bidi s" m]
    by (intro max_streams_raised [OF assms]) (simp_all add: session_holds_def grows_def same_session_def)
  then show "keeps s {#} (capsule_max_streams_uni s v now)"
    using abort_keeps [OF assms]
    by (simp add: capsule_max_streams_uni_def varint_abort_def Let_def case_prod_beta split: sum.split)
qed

lemma dispatch_capsule_keeps:
  assumes "session_inv s" "is_open_state (ses_state s)"
  shows "keeps s {#} (dispatch_capsule s ct v now)"
  using capsule_close_keeps [OF assms] capsule_data_blocked_keeps [OF assms(1)] capsule_drain_keeps [OF assms(1)]
    capsule_max_data_keeps [OF assms(1)] capsule_max_streams_keeps [OF assms(1)] capsule_streams_blocked_keeps [OF assms(1)]
    abort_keeps [OF assms(1)] assms(1)
  by (simp add: dispatch_capsule_def)

lemma push_within:
  assumes "length xs \<le> unat (n :: u64)" "\<not> len64 xs \<ge> n"
  shows "length (xs @ [x]) \<le> unat n"
proof -
  have "length xs < 2 ^ 64" using le_less_trans [OF assms(1) unat_u64_bound] by simp
  with len64_ge [OF assms(2)] show ?thesis by simp
qed

lemma waiting_inv:
  assumes "session_inv s" "is_open_state (ses_state s)" "length pc \<le> unat (ses_max_pending_capsules s)"
    "length pd \<le> unat (ses_max_pending_datagrams s)" "length ps \<le> unat (ses_max_pending_streams s)"
  shows "session_inv (s\<lparr>ses_pending_capsules := pc, ses_pending_datagrams := pd, ses_pending_streams := ps,
    ses_pending_datagram_requests := rs\<rparr>)" (is "session_inv ?t")
proof -
  have "streams_ok ?t" "writers_ok ?t" "window_ok ?t" "slots_ok ?t" "received_ok ?t"
    by (rule session_frames, use assms(1) in \<open>simp add: session_inv_def\<close>, simp_all)+
  moreover have "queues_ok ?t" "gone_ok ?t"
    using assms(2-) by (simp_all add: queues_ok_def gone_ok_def)
  ultimately show ?thesis by (simp add: session_inv_def)
qed

lemma queues_bounded:
  assumes "session_inv s"
  shows "length (ses_pending_capsules s) \<le> unat (ses_max_pending_capsules s)"
    "length (ses_pending_datagrams s) \<le> unat (ses_max_pending_datagrams s)"
    "length (ses_pending_streams s) \<le> unat (ses_max_pending_streams s)"
  using assms by (simp_all add: session_inv_def queues_ok_def)

lemma waiting_keeps:
  assumes "session_inv s" "is_open_state (ses_state s)" "length pc \<le> unat (ses_max_pending_capsules s)"
    "length pd \<le> unat (ses_max_pending_datagrams s)" "length ps \<le> unat (ses_max_pending_streams s)"
    "mset (dispatched es) + mset rs = mset (ses_pending_datagram_requests s) + R" "total_payload es = 0"
  shows "keeps s R (es, s\<lparr>ses_pending_capsules := pc, ses_pending_datagrams := pd, ses_pending_streams := ps,
    ses_pending_datagram_requests := rs\<rparr>)"
  using waiting_inv [OF assms(1-5)] assms(6,7)
  by (simp add: keeps_def moves_def session_holds_def grows_def same_session_def ac_simps)

lemma recv_capsule_keeps:
  assumes "session_inv s"
  shows "keeps s {#} (recv_capsule s ct v now)"
proof (cases "ses_state s")
  case Connecting
  have "keeps s {#} ([], s\<lparr>ses_pending_capsules := ses_pending_capsules s @ [(ct, v)]\<rparr>)"
    if "\<not> len64 (ses_pending_capsules s) \<ge> ses_max_pending_capsules s"
    using waiting_keeps [OF assms _ push_within [OF queues_bounded(1) [OF assms] that, of "(ct, v)"] queues_bounded(2,3) [OF assms],
        of "[]" "ses_pending_datagram_requests s" "{#}"] Connecting by simp
  with abort_keeps [OF assms] Connecting show ?thesis by (simp add: recv_capsule_def)
qed (use assms dispatch_capsule_keeps [OF assms] in \<open>simp_all add: recv_capsule_def quiet_keeps\<close>)

subsection \<open>Datagrams\<close>

lemma recv_datagram_keeps:
  assumes "session_inv s"
  shows "keeps s {#} (recv_datagram s d)"
proof (cases "is_open_state (ses_state s)")
  case True
  note q = queues_bounded [OF assms]
  have "keeps s {#} ([NotifyRequestDone (hd (ses_pending_datagram_requests s)) (RequestResult.Datagram d)],
      s\<lparr>ses_pending_datagram_requests := tl (ses_pending_datagram_requests s)\<rparr>)" if "ses_pending_datagram_requests s \<noteq> []"
    using waiting_keeps [OF assms True q, of "[NotifyRequestDone (hd (ses_pending_datagram_requests s)) (RequestResult.Datagram d)]"
        "tl (ses_pending_datagram_requests s)" "{#}"] that by (cases "ses_pending_datagram_requests s") simp_all
  moreover have "keeps s {#} ([], s\<lparr>ses_pending_datagrams := ses_pending_datagrams s @ [d]\<rparr>)"
    if "\<not> len64 (ses_pending_datagrams s) \<ge> ses_max_pending_datagrams s"
    using waiting_keeps [OF assms True q(1) push_within [OF q(2) that, of d] q(3),
        of "[]" "ses_pending_datagram_requests s" "{#}"] by simp
  ultimately show ?thesis
    using assms True by (simp add: recv_datagram_def)
qed (use assms in \<open>simp add: recv_datagram_def\<close>)

lemma read_datagram_keeps:
  assumes "session_inv s"
  shows "keeps s {#r#} (read_datagram s r)"
proof (cases "is_open_state (ses_state s)")
  case True
  note q = queues_bounded [OF assms]
  have "keeps s {#r#} ([NotifyRequestDone r v], s\<lparr>ses_pending_datagrams := tl (ses_pending_datagrams s)\<rparr>)" for v
    using waiting_keeps [OF assms True q(1) _ q(3), of "tl (ses_pending_datagrams s)" "[NotifyRequestDone r v]"
        "ses_pending_datagram_requests s" "{#r#}"] q(2) by simp
  moreover have "keeps s {#r#} ([], s\<lparr>ses_pending_datagram_requests := ses_pending_datagram_requests s @ [r]\<rparr>)"
    using waiting_keeps [OF assms True q, of "[]" "ses_pending_datagram_requests s @ [r]" "{#r#}"] by simp
  ultimately show ?thesis
    using assms True by (simp add: read_datagram_def)
qed (use assms in \<open>simp add: read_datagram_def\<close>)

lemma send_datagram_keeps: "session_inv s \<Longrightarrow> keeps s {#r#} (send_datagram s r d n)"
  by (simp add: send_datagram_def Let_def) (simp add: keeps_def moves_def)

end
