(* ===== verification/Session_Lifecycle.thy ===== *)
theory Session_Lifecycle
  imports Session_Capsules
begin

text \<open>
  The replay of what arrived before the session was accepted, the operations that open, drain and
  close a session, and the queries.
\<close>

lemma keeps_trans_left:
  assumes "keeps s R p" "keeps (snd p) {#} q"
  shows "keeps s R (fst p @ fst q, snd q)"
  using assms moves_trans [of s R p "{#}" q] by (simp add: keeps_def)

lemma keeps_inv: "keeps s R p \<Longrightarrow> session_inv (snd p)"
  by (simp add: keeps_def)

subsection \<open>Replay\<close>

lemma replay_capsules_keeps: "session_inv s \<Longrightarrow> keeps s {#} (replay_capsules n s now)"
proof (induction n arbitrary: s)
  case (Suc n)
  show ?case
  proof (cases "ses_pending_capsules s")
    case Nil
    with Suc.prems show ?thesis by simp
  next
    case (Cons cap caps)
    obtain ct v where cap: "cap = (ct, v)" by (cases cap)
    let ?s = "s\<lparr>ses_pending_capsules := caps\<rparr>" and ?r = "recv_capsule (s\<lparr>ses_pending_capsules := caps\<rparr>) ct v now"
    have "is_open_state (ses_state s)"
      using Suc.prems Cons by (auto simp: session_inv_def gone_ok_def)
    then have s: "session_inv ?s"
      using waiting_inv [OF Suc.prems _ _ queues_bounded(2,3) [OF Suc.prems], of caps "ses_pending_datagram_requests s"]
        queues_bounded(1) [OF Suc.prems] Cons by simp
    have r: "keeps s {#} ?r"
      by (rule step_keeps [OF s _ _ _ recv_capsule_keeps [OF s]]) (simp_all add: session_holds_def grows_def same_session_def)
    moreover have "keeps s {#} (fst ?r @ fst (replay_capsules n (snd ?r) now), snd (replay_capsules n (snd ?r) now))"
      using keeps_trans [OF r Suc.IH] r by (simp add: keeps_def)
    ultimately show ?thesis
      using Cons cap by (simp add: Let_def case_prod_beta)
  qed
qed simp

lemma replay_datagrams_keeps: "session_inv s \<Longrightarrow> keeps s {#} (replay_datagrams n s)"
proof (induction n arbitrary: s)
  case (Suc n)
  show ?case
  proof (cases "ses_pending_datagram_requests s \<noteq> [] \<and> ses_pending_datagrams s \<noteq> []")
    case True
    let ?s = "s\<lparr>ses_pending_datagrams := tl (ses_pending_datagrams s)\<rparr>"
    let ?r = "recv_datagram ?s (hd (ses_pending_datagrams s))"
    have "is_open_state (ses_state s)"
      using Suc.prems True by (auto simp: session_inv_def gone_ok_def)
    then have s: "session_inv ?s"
      using waiting_inv [OF Suc.prems _ queues_bounded(1) [OF Suc.prems] _ queues_bounded(3) [OF Suc.prems],
          of "tl (ses_pending_datagrams s)" "ses_pending_datagram_requests s"] queues_bounded(2) [OF Suc.prems] by simp
    have r: "keeps s {#} ?r"
      by (rule step_keeps [OF s _ _ _ recv_datagram_keeps [OF s]]) (simp_all add: session_holds_def grows_def same_session_def)
    then have "keeps s {#} (fst ?r @ fst (replay_datagrams n (snd ?r)), snd (replay_datagrams n (snd ?r)))"
      using keeps_trans [OF r Suc.IH] by (simp add: keeps_def)
    with True show ?thesis by (simp add: Let_def case_prod_beta)
  next
    case False
    with Suc.prems show ?thesis by auto
  qed
qed simp

lemma replay_streams_keeps:
  assumes "session_inv s"
  shows "keeps s {#} (replay_streams s)"
proof -
  have "session_inv (s\<lparr>ses_pending_streams := []\<rparr>)"
  proof (cases "is_open_state (ses_state s)")
    case True
    then show ?thesis
      using waiting_inv [OF assms True queues_bounded(1,2) [OF assms], of "[]" "ses_pending_datagram_requests s"] by simp
  next
    case False
    then have "ses_pending_streams s = []" using assms by (simp add: session_inv_def gone_ok_def)
    then have "s\<lparr>ses_pending_streams := []\<rparr> = s" by simp
    with assms show ?thesis by simp
  qed
  then show ?thesis
    by (simp add: replay_streams_def keeps_def moves_quiet list_all_iff session_holds_def grows_def same_session_def)
qed

lemma replay_pending_keeps:
  assumes "session_inv s"
  shows "keeps s {#} (replay_pending_queues s now)"
proof -
  let ?c = "replay_capsules (length (ses_pending_capsules s)) s now"
  let ?d = "replay_datagrams (length (ses_pending_datagrams (snd ?c))) (snd ?c)"
  have c: "keeps s {#} ?c" using assms by (rule replay_capsules_keeps)
  then have d: "keeps (snd ?c) {#} ?d" by (intro replay_datagrams_keeps keeps_inv)
  then have "keeps (snd ?d) {#} (replay_streams (snd ?d))" by (intro replay_streams_keeps keeps_inv)
  from keeps_trans [OF keeps_trans [OF c d], simplified, OF this] c show ?thesis
    by (simp add: replay_pending_queues_def Let_def case_prod_beta)
qed

subsection \<open>Opening, draining and closing\<close>

lemma connected_inv:
  assumes "session_inv s" "ses_state s = SessionState.Connecting"
  shows "session_inv (s\<lparr>ses_ready_at := ready, ses_wt_protocol := p, ses_state := SessionState.Connected\<rparr>)"
proof -
  have "session_inv ((s\<lparr>ses_state := SessionState.Connected\<rparr>)\<lparr>ses_ready_at := ready, ses_wt_protocol := p\<rparr>)"
    using state_inv [OF assms(1), of SessionState.Connected] assms(2) by (simp only: session_inv_notes) simp
  then show ?thesis by (cases s) (simp del: session_inv_notes)
qed

lemma connected_keeps:
  assumes "session_inv s" "ses_state s = SessionState.Connecting" "mset (dispatched es) = R" "total_payload es = 0"
  shows "keeps s R (es, s\<lparr>ses_ready_at := ready, ses_wt_protocol := p, ses_state := SessionState.Connected\<rparr>)"
  using connected_inv [OF assms(1,2)] assms(2-)
  by (simp add: keeps_def moves_def session_holds_def grows_def same_session_def)

lemma accept_keeps:
  assumes "session_inv s"
  shows "keeps s {#r#} (session_accept s r hs p now)"
proof -
  let ?t = "s\<lparr>ses_ready_at := Some now, ses_wt_protocol := p, ses_state := SessionState.Connected\<rparr>"
  let ?q = "replay_pending_queues ?t now"
  have "keeps s {#r#} ([SendH3Headers i h False, EmitSessionEvent j e f, NotifyRequestDone r ResultNone] @ fst ?q, snd ?q)"
    if "ses_state s = SessionState.Connecting" for i h j e f
  proof -
    have "keeps s {#r#} ([SendH3Headers i h False, EmitSessionEvent j e f, NotifyRequestDone r ResultNone], ?t)"
      by (rule connected_keeps [OF assms that]) simp_all
    from keeps_trans_left [OF this] replay_pending_keeps [OF connected_inv [OF assms that]] show ?thesis
      by fastforce
  qed
  with assms show ?thesis
    by (simp add: session_accept_def session_ready_event_def Let_def case_prod_beta split: sum.split)
qed

lemma confirm_keeps:
  assumes "session_inv s"
  shows "keeps s {#} (session_confirm s p now)"
proof -
  let ?t = "s\<lparr>ses_ready_at := Some now, ses_wt_protocol := p, ses_state := SessionState.Connected\<rparr>"
  let ?q = "replay_pending_queues ?t now"
  have "keeps s {#} (EmitSessionEvent j e f # fst ?q, snd ?q)" if "ses_state s = SessionState.Connecting" for j e f
  proof -
    have "keeps s {#} ([EmitSessionEvent j e f], ?t)"
      by (rule connected_keeps [OF assms that]) simp_all
    from keeps_trans [OF this] replay_pending_keeps [OF connected_inv [OF assms that]] show ?thesis
      by fastforce
  qed
  with assms show ?thesis
    by (simp add: session_confirm_def session_ready_event_def Let_def case_prod_beta)
qed

lemma drain_keeps:
  assumes "session_inv s"
  shows "keeps s {#} (session_drain s)"
  using assms state_inv [OF assms, of SessionState.Draining]
  by (simp add: session_drain_def) (simp add: keeps_def moves_def session_holds_def grows_def same_session_def)

lemma close_down_keeps:
  assumes "session_inv s" "\<not> is_open_state st" "state_rank (ses_state s) \<le> state_rank st"
  shows "keeps s {#} (close_down s cc cr st now)"
  using close_down_facts [OF _ assms(2,3)] assms(1) session_inv_base by (simp add: keeps_def)

lemma close_keeps:
  assumes "session_inv s"
  shows "keeps s {#r#} (session_close s r ec m now)"
proof (cases "ses_state s \<in> {SessionState.Closed, SessionState.Closing}")
  case True
  with assms show ?thesis by (simp add: session_close_def)
next
  case False
  then have "state_rank (ses_state s) \<le> state_rank SessionState.Closing"
    by (cases "ses_state s") simp_all
  note closing = close_down_keeps [OF assms _ this]
  show ?thesis
    using False keeps_answer_last [OF closing, where r = r and v = ResultNone and es = "[x, y]" for x y]
    by (simp add: session_close_def session_closed_event_def Let_def case_prod_beta)
qed

lemma connect_close_keeps:
  assumes "session_inv s"
  shows "keeps s {#} (recv_connect_close s ec m now)"
proof (cases "ses_state s")
  case Closing
  let ?t = "s\<lparr>ses_state := SessionState.Closed\<rparr>"
  have "streams_ok ?t" "writers_ok ?t" "window_ok ?t" "slots_ok ?t" "queues_ok ?t"
    by (rule session_frames, use assms in \<open>simp add: session_inv_def\<close>, simp_all)+
  moreover have "received_ok ?t" "gone_ok ?t"
    using assms Closing by (simp_all add: session_inv_def received_ok_def gone_ok_def)
  ultimately have "session_inv ?t" by (simp add: session_inv_def)
  with Closing show ?thesis
    by (simp add: recv_connect_close_def keeps_def moves_def session_holds_def grows_def same_session_def)
qed (use assms keeps_quiet [OF close_down_keeps [OF assms], of SessionState.Closed "[]" "[EmitSessionEvent i e f]" for i e f]
  in \<open>simp_all add: recv_connect_close_def session_closed_event_def Let_def case_prod_beta\<close>)

lemma reject_keeps:
  assumes "session_inv s"
  shows "keeps s {#r#} (session_reject s r hs sc now)"
  using assms keeps_answer_last [OF close_down_keeps [OF assms], of SessionState.Closed, where r = r and v = ResultNone and es = "[x, y]" for x y]
  by (simp add: session_reject_def Let_def case_prod_beta)

lemma export_keeps: "session_inv s \<Longrightarrow> keeps s {#r#} (export_keying_material s r label ctx n, s)"
  by (simp add: export_keying_material_def) (simp add: keeps_def moves_def)

lemma diagnose_keeps:
  "session_inv s \<Longrightarrow> keeps s {#r#} (session_diagnose s r, s)"
  "session_inv s \<Longrightarrow> keeps s {#r#} (diagnose_stream s sid r, s)"
  by (simp_all add: session_diagnose_def diagnose_stream_def stream_diagnose_def split: option.split)

end
