(* ===== verification/Session_Machine.thy ===== *)
theory Session_Machine
  imports Session_Lifecycle
begin

text \<open>
  The session as a machine: every operation of \<open>session.rs\<close> is a call, sequences of calls are runs,
  and the properties of a session hold in every run whose calls respect the transport's side of
  the contract (\<open>session_call_ok\<close>).
\<close>

datatype SessionCall =
    SessionAbort ErrorCode string f64
  | SessionAccept RequestId Headers "string option" f64
  | SessionBindStream StreamId RequestId bool f64
  | SessionClose RequestId ErrorCode "string option" f64
  | SessionCompleteWrite StreamId
  | SessionConfirm "string option" f64
  | SessionCreateStream RequestId bool
  | SessionDeferStream RequestId bool
  | SessionDiagnose RequestId
  | SessionDiagnoseStream StreamId RequestId
  | SessionDrain
  | SessionExport RequestId string bytes u32
  | SessionFlushRequests bool
  | SessionStreamAcknowledged StreamId
  | SessionStreamOpened StreamId f64
  | SessionReadDatagram RequestId
  | SessionReadStream StreamId RequestId u64
  | SessionRecvCapsule u64 bytes f64
  | SessionRecvConnectClose ErrorCode string f64
  | SessionRecvDatagram bytes
  | SessionRecvStopSending StreamId ErrorCode
  | SessionRecvStreamData StreamId bytes bool f64
  | SessionRecvStreamReset StreamId ErrorCode
  | SessionReject RequestId Headers u16 f64
  | SessionResetStream StreamId RequestId ErrorCode
  | SessionSendDatagram RequestId bytes u64
  | SessionStopStream StreamId RequestId ErrorCode
  | SessionWriteStream StreamId RequestId bytes bool

primrec session_call :: "SessionCall \<Rightarrow> Session \<Rightarrow> effects \<times> Session" where
  "session_call (SessionAbort ec m now) s = session_abort s ec m now"
| "session_call (SessionAccept r hs p now) s = session_accept s r hs p now"
| "session_call (SessionBindStream sid r u now) s = bind_stream s sid r u now"
| "session_call (SessionClose r ec m now) s = session_close s r ec m now"
| "session_call (SessionCompleteWrite sid) s = complete_stream_write s sid"
| "session_call (SessionConfirm p now) s = session_confirm s p now"
| "session_call (SessionCreateStream r u) s = create_stream s r u"
| "session_call (SessionDeferStream r u) s = defer_stream s r u"
| "session_call (SessionDiagnose r) s = (session_diagnose s r, s)"
| "session_call (SessionDiagnoseStream sid r) s = (diagnose_stream s sid r, s)"
| "session_call SessionDrain s = session_drain s"
| "session_call (SessionExport r label context n) s = (export_keying_material s r label context n, s)"
| "session_call (SessionFlushRequests u) s = flush_blocked_stream_requests s u"
| "session_call (SessionStreamAcknowledged sid) s = session_stream_acknowledged s sid"
| "session_call (SessionStreamOpened sid now) s = handle_stream_opened s sid now"
| "session_call (SessionReadDatagram r) s = read_datagram s r"
| "session_call (SessionReadStream sid r n) s = read_stream s sid r n"
| "session_call (SessionRecvCapsule ct v now) s = recv_capsule s ct v now"
| "session_call (SessionRecvConnectClose ec m now) s = recv_connect_close s ec m now"
| "session_call (SessionRecvDatagram d) s = recv_datagram s d"
| "session_call (SessionRecvStopSending sid ec) s = session_recv_stop_sending s sid ec"
| "session_call (SessionRecvStreamData sid d e now) s = recv_stream_data s sid d e now"
| "session_call (SessionRecvStreamReset sid ec) s = recv_stream_reset s sid ec"
| "session_call (SessionReject r hs sc now) s = session_reject s r hs sc now"
| "session_call (SessionResetStream sid r ec) s = reset_stream s sid r ec"
| "session_call (SessionSendDatagram r d n) s = send_datagram s r d n"
| "session_call (SessionStopStream sid r ec) s = stop_stream s sid r ec"
| "session_call (SessionWriteStream sid r d e) s = write_stream s sid r d e"

text \<open>The requests a call submits.  A request handed to the transport (\<open>CreateQuicStream\<close>) comes
  back in the call that binds or defers its stream.\<close>

primrec session_submits :: "SessionCall \<Rightarrow> RequestId list" where
  "session_submits (SessionAbort x0 x1 x2) = []"
| "session_submits (SessionAccept r x1 x2 x3) = [r]"
| "session_submits (SessionBindStream x0 r x2 x3) = [r]"
| "session_submits (SessionClose r x1 x2 x3) = [r]"
| "session_submits (SessionCompleteWrite x0) = []"
| "session_submits (SessionConfirm x0 x1) = []"
| "session_submits (SessionCreateStream r x1) = [r]"
| "session_submits (SessionDeferStream r x1) = [r]"
| "session_submits (SessionDiagnose r) = [r]"
| "session_submits (SessionDiagnoseStream x0 r) = [r]"
| "session_submits SessionDrain = []"
| "session_submits (SessionExport r x1 x2 x3) = [r]"
| "session_submits (SessionFlushRequests x0) = []"
| "session_submits (SessionStreamAcknowledged x0) = []"
| "session_submits (SessionStreamOpened x0 x1) = []"
| "session_submits (SessionReadDatagram r) = [r]"
| "session_submits (SessionReadStream x0 r x2) = [r]"
| "session_submits (SessionRecvCapsule x0 x1 x2) = []"
| "session_submits (SessionRecvConnectClose x0 x1 x2) = []"
| "session_submits (SessionRecvDatagram x0) = []"
| "session_submits (SessionRecvStopSending x0 x1) = []"
| "session_submits (SessionRecvStreamData x0 x1 x2 x3) = []"
| "session_submits (SessionRecvStreamReset x0 x1) = []"
| "session_submits (SessionReject r x1 x2 x3) = [r]"
| "session_submits (SessionResetStream x0 r x2) = [r]"
| "session_submits (SessionSendDatagram r x1 x2) = [r]"
| "session_submits (SessionStopStream x0 r x2) = [r]"
| "session_submits (SessionWriteStream x0 r x2 x3) = [r]"

text \<open>
  The contract of the caller: stream identifiers the transport reports are new and of the side
  that opened them, a deferred request was counted as opened, the acknowledgement of a stream
  follows the completion of its last write, and a write comes with a request that is not in use
  and data that fits in memory.
\<close>

definition session_call_ok :: "SessionCall \<Rightarrow> Session \<Rightarrow> bool" where
  "session_call_ok c s =
    (case c of
       SessionBindStream sid r u now \<Rightarrow>
         fmlookup (ses_streams s) sid = None \<and> \<not> is_peer_initiated_stream sid (ses_is_client s)
     | SessionDeferStream r u \<Rightarrow> is_open_state (ses_state s) \<longrightarrow>
         (if u then 0 < ses_local_streams_uni_opened s else 0 < ses_local_streams_bidi_opened s)
     | SessionStreamAcknowledged sid \<Rightarrow>
         (case fmlookup (ses_streams s) sid of None \<Rightarrow> True | Some st \<Rightarrow> settled_call StreamAcknowledged st)
     | SessionStreamOpened sid now \<Rightarrow>
         fmlookup (ses_streams s) sid = None \<and> is_peer_initiated_stream sid (ses_is_client s)
     | SessionWriteStream sid r d e \<Rightarrow> r \<notin># session_holds s \<and> length d < 2 ^ 63
     | _ \<Rightarrow> True)"

lemma session_call_keeps:
  assumes "session_inv s" "session_call_ok c s"
  shows "keeps s (mset (session_submits c)) (session_call c s)"
proof (cases c)
  case (SessionStreamAcknowledged sid)
  with assms acknowledged_keeps [OF assms(1), of sid] show ?thesis
    by (auto simp: session_call_ok_def split: option.splits)
next
  case (SessionFlushRequests u)
  with flush_blocked_stream_requests_facts [OF assms(1)] show ?thesis by (simp add: keeps_def)
qed (use assms in \<open>simp_all add: session_call_ok_def abort_keeps accept_keeps bind_stream_keeps close_keeps
      complete_stream_write_keeps confirm_keeps create_stream_keeps defer_stream_keeps diagnose_keeps drain_keeps
      export_keeps handle_stream_opened_keeps read_datagram_keeps read_stream_keeps recv_capsule_keeps
      connect_close_keeps recv_datagram_keeps recv_stop_sending_keeps recv_stream_data_keeps recv_stream_reset_keeps
      reject_keeps reset_stream_keeps send_datagram_keeps stop_stream_keeps write_stream_keeps\<close>)

interpretation session_requests: request_machine session_call session_call_ok session_inv session_submits dispatched session_holds
proof unfold_locales
  fix s c es fs
  show "dispatched (es @ fs) = dispatched es @ dispatched fs" "dispatched [] = []" by simp_all
  assume "session_inv s" "session_call_ok c s"
  note k = session_call_keeps [OF this]
  show "session_inv (snd (session_call c s))" using k by (simp add: keeps_def)
  show "mset (dispatched (fst (session_call c s))) + session_holds (snd (session_call c s))
      = session_holds s + mset (session_submits c)"
    using k by (simp add: keeps_def moves_def)
qed

lemma session_run_moves:
  assumes "session_inv s" "calls_ok session_call session_call_ok s cs"
  shows "moves s (mset (concat (map session_submits cs))) (run_calls session_call s cs)"
  using assms
proof (induction cs arbitrary: s)
  case Nil
  then show ?case by simp
next
  case (Cons c cs)
  have k: "session_inv (snd (session_call c s))" "moves s (mset (session_submits c)) (session_call c s)"
    using session_call_keeps [of s c] Cons.prems by (simp_all add: keeps_def)
  have eq: "run_calls session_call s (c # cs) = (fst (session_call c s) @ fst (run_calls session_call (snd (session_call c s)) cs),
      snd (run_calls session_call (snd (session_call c s)) cs))"
    by (simp add: prod_eq_iff)
  show ?case
    unfolding eq using moves_trans [OF k(2) Cons.IH [OF k(1)]] Cons.prems by simp
qed

text \<open>User requests, the requests the transport gives back, and those an effect hands to it.\<close>

definition transport_returns :: "SessionCall \<Rightarrow> RequestId list" where
  "transport_returns c = (case c of SessionBindStream sid r u now \<Rightarrow> [r] | SessionDeferStream r u \<Rightarrow> [r] | _ \<Rightarrow> [])"

definition user_submits :: "SessionCall \<Rightarrow> RequestId list" where
  "user_submits c = (if transport_returns c = [] then session_submits c else [])"

definition handed_out :: "effects \<Rightarrow> RequestId list" where
  "handed_out es = concat (map handed es)"

lemma handed_out_simps [simp]: "handed_out [] = []" "handed_out (e # es) = handed e @ handed_out es"
  by (simp_all add: handed_out_def)

lemma dispatched_split: "mset (dispatched es) = mset (answered es) + mset (handed_out es)"
  by (induction es) (simp_all add: ac_simps)

lemma submits_split:
  "mset (concat (map session_submits cs)) = mset (concat (map user_submits cs)) + mset (concat (map transport_returns cs))"
proof (induction cs)
  case (Cons c cs)
  have "mset (session_submits c) = mset (user_submits c) + mset (transport_returns c)"
    by (cases c) (simp_all add: user_submits_def transport_returns_def)
  with Cons show ?case by (simp add: ac_simps)
qed simp

lemma distinct_submset:
  assumes "mset xs \<subseteq># mset ys" "distinct ys"
  shows "distinct xs"
proof -
  obtain zs where "mset ys = mset (xs @ zs)"
    using assms(1) by (metis ex_mset mset_append mset_subset_eq_exists_conv)
  with assms(2) have "distinct (xs @ zs)"
    using mset_eq_imp_distinct_iff by blast
  then show ?thesis by simp
qed

lemma conserve_returned:
  assumes "A + H + S = U + B" "B \<subseteq># H"
  shows "A + (H - B) + S = U"
proof -
  have "A + (H - B) + S + B = A + (H - B + B) + S" by (simp add: ac_simps)
  also have "\<dots> = U + B" using assms by simp
  finally show ?thesis by simp
qed

lemma session_new_inv:
  assumes "unat (ssp_max_write_buffer_size p) < 2 ^ 63"
  shows "session_inv (session_new i path hs ps c p now)"
  using assms by (simp add: session_inv_def session_ok_defs session_new_def slot_ok_def)

lemma session_new_holds [simp]:
  "session_holds (session_new i path hs ps c p now) = {#}" "ses_data_sent (session_new i path hs ps c p now) = 0"
  "ses_flow_control_negotiated (session_new i path hs ps c p now) = ssp_flow_control_negotiated p"
  by (simp_all add: session_holds_def session_new_def)

end
