(* ===== verification/Session_Theorems.thy ===== *)
theory Session_Theorems
  imports Session_Machine "HOL-Library.Code_Target_Nat"
begin

text \<open>
  The properties of a session in every admissible run, and the round trips and bounds of its
  single operations.
\<close>

subsection \<open>The replay loops run to their end\<close>

lemma emit_kept [simp]:
  "ses_pending_capsules (snd (emit_data_blocked s)) = ses_pending_capsules s"
  "ses_pending_capsules (snd (emit_streams_blocked s u)) = ses_pending_capsules s"
  "ses_pending_capsules (snd (replenish_data_credit s f)) = ses_pending_capsules s"
  "ses_pending_capsules (snd (replenish_streams_credit s u f)) = ses_pending_capsules s"
  by (rule emit_data_blocked_shape [of s], simp) (rule emit_streams_blocked_shape [of s u], simp,
    rule replenish_data_shape [of s f], simp, rule replenish_streams_shape [of s u f], simp)

lemma flush_loop_kept [simp]: "ses_pending_capsules (snd (flush_blocked_loop n s)) = ses_pending_capsules s"
  by (induction n arbitrary: s) (simp_all add: Let_def case_prod_beta split: list.split option.split)

lemma flush_kept [simp]:
  "ses_pending_capsules (snd (flush_blocked_writes s)) = ses_pending_capsules s"
  "ses_pending_capsules (snd (flush_blocked_stream_requests s u)) = ses_pending_capsules s"
  by (simp_all add: flush_blocked_writes_def flush_blocked_stream_requests_def Let_def case_prod_beta)

lemma closed_queue_empty:
  "ses_pending_capsules (snd (close_down s cc cr st now)) = []" if "session_inv s" "\<not> is_open_state st" "state_rank (ses_state s) \<le> state_rank st"
  using close_down_keeps [OF that] close_down_facts(3) [OF _ that(2,3)] that session_inv_base
  by (auto simp: keeps_def session_inv_def gone_ok_def)

lemma abort_queue:
  assumes "session_inv s"
  shows "ses_pending_capsules (snd (session_abort s ec m now)) = []"
  using session_abort_facts(1,3) [OF assms, of ec m now] by (simp add: session_inv_def gone_ok_def)

text \<open>Processing a capsule adds none to the queue.\<close>

lemma blocked_capsules_queue:
  assumes "session_inv s"
  shows "ses_pending_capsules (snd (capsule_data_blocked s)) = ses_pending_capsules s"
    and "ses_pending_capsules (snd (capsule_streams_blocked s u v now)) \<in> {ses_pending_capsules s, []}"
proof -
  obtain e t where r: "replenish_data_credit s True = (e, t)" by fastforce
  with emit_kept(3) [of s True] show "ses_pending_capsules (snd (capsule_data_blocked s)) = ses_pending_capsules s"
    by (simp add: capsule_data_blocked_def split: option.split)
  obtain f w where "replenish_streams_credit s u True = (f, w)" by fastforce
  with emit_kept(4) [of s u True] abort_queue [OF assms]
  show "ses_pending_capsules (snd (capsule_streams_blocked s u v now)) \<in> {ses_pending_capsules s, []}"
    by (simp add: capsule_streams_blocked_def varint_abort_def split: sum.split option.split)
qed

lemma limit_capsules_queue:
  assumes "session_inv s"
  shows "ses_pending_capsules (snd (capsule_max_data s v now)) \<in> {ses_pending_capsules s, []}"
    and "ses_pending_capsules (snd (capsule_max_streams_bidi s v now)) \<in> {ses_pending_capsules s, []}"
    and "ses_pending_capsules (snd (capsule_max_streams_uni s v now)) \<in> {ses_pending_capsules s, []}"
  using abort_queue [OF assms]
  by (simp_all add: capsule_max_data_def capsule_max_streams_bidi_def capsule_max_streams_uni_def varint_abort_def
      Let_def case_prod_beta split: sum.split)

lemma close_capsule_queue:
  assumes "session_inv s"
  shows "ses_pending_capsules (snd (capsule_close_session s v now)) = []"
  using abort_queue [OF assms] closed_queue_empty [OF assms, of SessionState.Closed]
  by (simp add: capsule_close_session_def Let_def case_prod_beta)

lemma recv_capsule_queue:
  assumes "session_inv s" "ses_state s \<noteq> SessionState.Connecting"
  shows "ses_pending_capsules (snd (recv_capsule s ct v now)) \<in> {ses_pending_capsules s, []}"
proof -
  have "ses_pending_capsules (snd (dispatch_capsule s ct v now)) \<in> {ses_pending_capsules s, []}"
    using blocked_capsules_queue [OF assms(1)] limit_capsules_queue [OF assms(1)] close_capsule_queue [OF assms(1)]
      abort_queue [OF assms(1)]
    by (simp add: dispatch_capsule_def capsule_drain_session_def)
  with assms(2) show ?thesis by (simp add: recv_capsule_def)
qed

lemma replay_capsules_done:
  assumes "session_inv s" "ses_state s = SessionState.Connected" "length (ses_pending_capsules s) \<le> n"
  shows "ses_state (snd (replay_capsules n s now)) \<noteq> SessionState.Connected
    \<or> ses_pending_capsules (snd (replay_capsules n s now)) = []"
  using assms
proof (induction n arbitrary: s)
  case (Suc n)
  show ?case
  proof (cases "ses_pending_capsules s")
    case (Cons cap caps)
    obtain ct v where cap: "cap = (ct, v)" by (cases cap)
    let ?s = "s\<lparr>ses_pending_capsules := caps\<rparr>" and ?r = "recv_capsule (s\<lparr>ses_pending_capsules := caps\<rparr>) ct v now"
    have s: "session_inv ?s"
      using waiting_inv [OF Suc.prems(1) _ _ queues_bounded(2,3) [OF Suc.prems(1)], of caps "ses_pending_datagram_requests s"]
        queues_bounded(1) [OF Suc.prems(1)] Cons Suc.prems(2) by simp
    have "length (ses_pending_capsules (snd ?r)) \<le> n"
      using recv_capsule_queue [OF s, of ct v now] Suc.prems(2,3) Cons by auto
    with Suc.IH [OF keeps_inv [OF recv_capsule_keeps [OF s]]] Cons cap show ?thesis
      by (simp add: Let_def case_prod_beta)
  qed simp
qed simp

lemma replay_datagrams_done:
  assumes "is_open_state (ses_state s)" "ses_state s \<noteq> SessionState.Connecting" "length (ses_pending_datagrams s) \<le> n"
  shows "let t = snd (replay_datagrams n s) in
    (ses_pending_datagram_requests t = [] \<or> ses_pending_datagrams t = []) \<and> ses_state t = ses_state s
    \<and> ses_pending_capsules t = ses_pending_capsules s"
  using assms
proof (induction n arbitrary: s)
  case (Suc n)
  show ?case
  proof (cases "ses_pending_datagram_requests s \<noteq> [] \<and> ses_pending_datagrams s \<noteq> []")
    case True
    let ?s = "s\<lparr>ses_pending_datagrams := tl (ses_pending_datagrams s)\<rparr>"
    let ?t = "?s\<lparr>ses_pending_datagram_requests := tl (ses_pending_datagram_requests s)\<rparr>"
    have "snd (recv_datagram ?s (hd (ses_pending_datagrams s))) = ?t"
      using True Suc.prems(1,2) by (simp add: recv_datagram_def)
    with Suc.IH [of ?t] Suc.prems True show ?thesis
      by (simp add: Let_def case_prod_beta)
  qed (auto simp: Let_def)
qed (simp add: Let_def)

subsection \<open>Runs of a session\<close>

definition example_parameters :: SessionParameters where
  "example_parameters =
    \<lparr>ssp_flow_control_negotiated = True, ssp_initial_max_data = 100, ssp_initial_max_streams_bidi = 2,
     ssp_initial_max_streams_uni = 2, ssp_max_pending_capsules = 4, ssp_max_pending_datagrams = 4,
     ssp_max_pending_streams = 4, ssp_max_write_buffer_size = 64, ssp_peer_max_data = 3,
     ssp_peer_max_streams_bidi = 1, ssp_peer_max_streams_uni = 0, ssp_receive_window = 100\<rparr>"

definition example_session :: Session where
  "example_session = session_new 0 ''/'' [] None False example_parameters 0"

definition example_session_calls :: "SessionCall list" where
  "example_session_calls =
    [SessionStreamOpened 4 0, SessionAccept 1 [] None 0, SessionWriteStream 4 2 [1, 2, 3, 4, 5] False,
     SessionCompleteWrite 4, SessionCreateStream 3 False, SessionBindStream 1 3 False 0]"

abbreviation example_end :: "effects \<times> Session" where
  "example_end \<equiv> run_calls session_call example_session example_session_calls"

lemma example_session_ok: "calls_ok session_call session_call_ok example_session example_session_calls"
  by code_simp

lemma example_session_end:
  "let (es, s) = example_end in
    (case fmlookup (ses_streams s) 4 of None \<Rightarrow> False | Some st \<Rightarrow> stream_is_blocked st) \<and> handed_out es = [3]"
  by code_simp

lemma example_parameters_simps [simp]:
  "ssp_max_write_buffer_size example_parameters = 64" "ssp_flow_control_negotiated example_parameters"
  by (simp_all add: example_parameters_def)

text \<open>
  C6. However the calls of a session interleave, its state stays consistent: every stream is in
  its own invariant, blocked writers are queued and there are none while there is credit, what was
  sent, received and opened is within the limits of the two ends, the slots of the peer's streams
  are accounted for one by one, the queues of a session that is not accepted yet are bounded, and
  a session that has ended holds no stream and no request.
\<close>

theorem session_invariant:
  assumes "unat (ssp_max_write_buffer_size p) < 2 ^ 63"
    and "calls_ok session_call session_call_ok (session_new i path hs ps c p now) cs"
  shows "session_inv (snd (run_calls session_call (session_new i path hs ps c p now) cs))"
  using session_requests.run_inv session_new_inv assms by blast

theorem session_invariant_witness: "session_inv (snd example_end)"
  using session_invariant [of example_parameters 0 "''/''" "[]" None False 0 example_session_calls, folded example_session_def]
    example_session_ok by simp

text \<open>
  C7. Every request a user submits to a session is accounted for at any time: it has been answered
  once, or it is with the transport (a stream being opened or a TLS export), or the session holds
  it; none is lost and none is answered twice.  The transport gives back a request at most once.
\<close>

theorem session_requests_once:
  assumes "unat (ssp_max_write_buffer_size p) < 2 ^ 63"
    and "calls_ok session_call session_call_ok (session_new i path hs ps c p now) cs"
    and "run_calls session_call (session_new i path hs ps c p now) cs = (es, s)"
    and "distinct (concat (map user_submits cs))"
    and "mset (concat (map transport_returns cs)) \<subseteq># mset (handed_out es)"
  shows "mset (answered es) + (mset (handed_out es) - mset (concat (map transport_returns cs))) + session_holds s
      = mset (concat (map user_submits cs)) \<and> distinct (answered es)"
proof -
  have "mset (dispatched es) + session_holds s = mset (concat (map session_submits cs))"
    using session_requests.run_conserve [OF session_new_inv [OF assms(1)] assms(2)] assms(3) by simp
  then have "mset (answered es) + mset (handed_out es) + session_holds s
      = mset (concat (map user_submits cs)) + mset (concat (map transport_returns cs))"
    by (simp add: dispatched_split submits_split)
  from conserve_returned [OF this assms(5)]
  have eq: "mset (answered es) + (mset (handed_out es) - mset (concat (map transport_returns cs))) + session_holds s
      = mset (concat (map user_submits cs))" .
  have "mset (answered es) \<subseteq># mset (concat (map user_submits cs))"
    unfolding eq [symmetric] add.assoc by (rule mset_subset_eq_add_left)
  from eq distinct_submset [OF this assms(4)] show ?thesis by blast
qed

theorem session_requests_once_witness:
  "mset (answered (fst example_end)) + (mset (handed_out (fst example_end)) - mset (concat (map transport_returns example_session_calls)))
      + session_holds (snd example_end) = mset (concat (map user_submits example_session_calls))
    \<and> distinct (answered (fst example_end))"
proof -
  have "concat (map transport_returns example_session_calls) = [3]" "concat (map user_submits example_session_calls) = [1, 2, 3]"
    by (simp_all add: example_session_calls_def transport_returns_def user_submits_def)
  then show ?thesis
    using session_requests_once [of example_parameters 0 "''/''" "[]" None False 0 example_session_calls
        "fst example_end" "snd example_end", folded example_session_def] example_session_ok example_session_end
    by (simp add: case_prod_beta)
qed

text \<open>
  C22. A session never overruns the peer: with flow control negotiated, the stream data handed to
  the transport since the session began is exactly what is charged to the window, and it and the
  streams opened are within the limits the peer has granted so far.
\<close>

theorem session_flow_control:
  assumes "unat (ssp_max_write_buffer_size p) < 2 ^ 63" and "ssp_flow_control_negotiated p"
    and "calls_ok session_call session_call_ok (session_new i path hs ps c p now) cs"
    and "run_calls session_call (session_new i path hs ps c p now) cs = (es, s)"
  shows "total_payload es = unat (ses_data_sent s) \<and> ses_data_sent s \<le> ses_peer_max_data s
    \<and> ses_local_streams_bidi_opened s \<le> ses_peer_max_streams_bidi s
    \<and> ses_local_streams_uni_opened s \<le> ses_peer_max_streams_uni s"
proof -
  note inv = session_new_inv [OF assms(1), of i path hs ps c now]
  have "moves (session_new i path hs ps c p now) (mset (concat (map session_submits cs))) (es, s)"
    using session_run_moves [OF inv assms(3)] assms(4) by simp
  moreover have "session_inv s"
    using session_requests.run_inv [OF inv assms(3)] assms(4) by simp
  ultimately show ?thesis
    using assms(2) by (simp add: moves_def grows_def same_session_def session_inv_def window_ok_def)
qed

theorem session_flow_control_witness:
  "total_payload (fst example_end) = unat (ses_data_sent (snd example_end))
    \<and> ses_data_sent (snd example_end) \<le> ses_peer_max_data (snd example_end)
    \<and> ses_local_streams_bidi_opened (snd example_end) \<le> ses_peer_max_streams_bidi (snd example_end)
    \<and> ses_local_streams_uni_opened (snd example_end) \<le> ses_peer_max_streams_uni (snd example_end)"
  using session_flow_control [of example_parameters 0 "''/''" "[]" None False 0 example_session_calls
      "fst example_end" "snd example_end", folded example_session_def] example_session_ok
  by simp

text \<open>
  C23. No wake-up is lost: in every run, a stream with data that waits and no write in flight
  waits for the peer's window only, which is then exhausted, and it is in the queue that the next
  MAX_DATA capsule serves.
\<close>

theorem session_no_lost_wakeup:
  assumes "unat (ssp_max_write_buffer_size p) < 2 ^ 63"
    and "calls_ok session_call session_call_ok (session_new i path hs ps c p now) cs"
    and "snd (run_calls session_call (session_new i path hs ps c p now) cs) = s"
    and "fmlookup (ses_streams s) sid = Some st" and "stream_is_blocked st"
  shows "ses_flow_control_negotiated s \<and> ses_data_sent s = ses_peer_max_data s
    \<and> sid \<in> ses_blocked_streams s \<and> sid \<in> set (ses_blocked_streams_queue s)"
proof -
  have "session_inv s"
    using session_requests.run_inv [OF session_new_inv [OF assms(1)] assms(2)] assms(3) by simp
  then show ?thesis
    using assms(4,5) credit_zero_iff [of s] by (auto simp: session_inv_def writers_ok_def window_ok_def)
qed

theorem session_no_lost_wakeup_witness:
  "4 \<in> set (ses_blocked_streams_queue (snd example_end)) \<and> ses_data_sent (snd example_end) = ses_peer_max_data (snd example_end)"
proof -
  obtain st where st: "fmlookup (ses_streams (snd example_end)) 4 = Some st" "stream_is_blocked st"
    using example_session_end by (auto simp: case_prod_beta split: option.splits)
  show ?thesis
    using session_no_lost_wakeup [of example_parameters 0 "''/''" "[]" None False 0 example_session_calls
        "snd example_end" 4 st, folded example_session_def] st example_session_ok
    by simp
qed

text \<open>
  C25. A peer never has more streams open than this end allowed it initially: with flow control
  negotiated, the streams of either kind that the peer opened and that still exist number at most
  the initial limit, because the limit is raised only by the streams that were closed.
\<close>

theorem session_peer_streams_bounded:
  assumes "unat (ssp_max_write_buffer_size p) < 2 ^ 63" and "ssp_flow_control_negotiated p"
    and "calls_ok session_call session_call_ok (session_new i path hs ps c p now) cs"
    and "snd (run_calls session_call (session_new i path hs ps c p now) cs) = s"
  shows "card {sid \<in> fset (fmdom (ses_streams s)). peer_slot c u sid}
    \<le> unat (if u then ssp_initial_max_streams_uni p else ssp_initial_max_streams_bidi p)"
proof -
  note inv = session_new_inv [OF assms(1), of i path hs ps c now]
  have "moves (session_new i path hs ps c p now) (mset (concat (map session_submits cs))) (run_calls session_call (session_new i path hs ps c p now) cs)"
    by (rule session_run_moves [OF inv assms(3)])
  then have same: "same_session (session_new i path hs ps c p now) s"
    using assms(4) by (simp add: moves_def grows_def)
  have "session_inv s"
    using session_requests.run_inv [OF inv assms(3)] assms(4) by simp
  then have "peer_open u s \<le> unat (if u then ses_initial_max_streams_uni s else ses_initial_max_streams_bidi s)"
    using same assms(2)
    by (auto simp: session_inv_def slots_ok_def slot_ok_def same_session_def word_le_nat_alt)
  moreover have "peer_open u s = card {sid \<in> fset (fmdom (ses_streams s)). peer_slot c u sid}"
    using same by (simp add: peer_open_def fm_sum_def same_session_def session_new_def sum_of_bool_eq Collect_conj_eq)
  ultimately show ?thesis
    using same by (simp add: same_session_def session_new_def split: if_splits)
qed

theorem session_peer_streams_bounded_witness:
  "card {sid \<in> fset (fmdom (ses_streams (snd example_end))). peer_slot False False sid} \<le> 2"
  using session_peer_streams_bounded [of example_parameters 0 "''/''" "[]" None False 0 example_session_calls
      "snd example_end" False, folded example_session_def] example_session_ok
  by (simp add: example_parameters_def)


definition closing_calls :: "SessionCall list" where
  "closing_calls = [SessionReadDatagram 1, SessionClose 2 7 None 0]"

lemma closing_calls_eval:
  "calls_ok session_call session_call_ok example_session closing_calls
    \<and> ses_state (snd (run_calls session_call example_session closing_calls)) = SessionState.Closing"
  by code_simp


text \<open>
  A session only moves forward: no call takes its state back (connecting, connected, draining,
  closing, closed), and neither the limits it has advertised nor those the peer has granted ever
  decrease.
\<close>

theorem session_monotone:
  assumes "session_inv s" and "session_call_ok c s" and "session_call c s = (es, t)"
  shows "state_rank (ses_state s) \<le> state_rank (ses_state t)
    \<and> ses_local_max_data s \<le> ses_local_max_data t \<and> ses_peer_max_data s \<le> ses_peer_max_data t
    \<and> ses_local_max_streams_bidi s \<le> ses_local_max_streams_bidi t \<and> ses_peer_max_streams_bidi s \<le> ses_peer_max_streams_bidi t
    \<and> ses_local_max_streams_uni s \<le> ses_local_max_streams_uni t \<and> ses_peer_max_streams_uni s \<le> ses_peer_max_streams_uni t"
  using session_call_keeps [OF assms(1,2)] assms(3) by (simp add: keeps_def moves_def grows_def)

theorem session_monotone_witness:
  "ses_peer_max_data example_session \<le> ses_peer_max_data (snd (session_call (SessionRecvCapsule WT_CAPSULE_TYPE_MAX_DATA [9] 0) example_session))"
  using session_monotone [of example_session "SessionRecvCapsule WT_CAPSULE_TYPE_MAX_DATA [9] 0"
      "fst (session_call (SessionRecvCapsule WT_CAPSULE_TYPE_MAX_DATA [9] 0) example_session)"
      "snd (session_call (SessionRecvCapsule WT_CAPSULE_TYPE_MAX_DATA [9] 0) example_session)"]
    session_new_inv [of example_parameters 0 "''/''" "[]" None False 0, folded example_session_def]
  by (simp add: session_call_ok_def)

end
