(* ===== verification/Session_Wire.thy ===== *)
theory Session_Wire
  imports Session_Theorems
begin

text \<open>
  Properties of single operations of a session: the close capsule between two sessions, the
  datagram size, the exporter context, the order in which stream requests are served, and the
  replay of what was buffered.
\<close>

subsection \<open>The close capsule\<close>

lemma close_value_parts:
  fixes code :: ErrorCode and reason :: string
  assumes "utf8_valid (as_bytes reason)"
  defines "n \<equiv> floor_char_boundary (as_bytes reason) 1024"
  defines "v \<equiv> close_capsule_value code reason"
  shows "take 4 v = put_be 4 (case u32_try_from code of None \<Rightarrow> u32_MAX | Some c \<Rightarrow> c)"
    "drop 4 v = as_bytes (take n reason)" "length v \<le> 1028" "4 \<le> length v" "utf8_valid (drop 4 v)"
    "length (drop 4 v) \<le> 1024"
proof -
  have limit: "unat WT_CLOSE_REASON_SIZE_LIMIT = 1024" by (simp add: const_defs)
  have take: "take n (as_bytes reason) = as_bytes (take n reason)"
    by (simp add: as_bytes_def take_map)
  have v: "v = put_be 4 (case u32_try_from code of None \<Rightarrow> u32_MAX | Some c \<Rightarrow> c) @ as_bytes (take n reason)"
    by (simp add: v_def close_capsule_value_def limit n_def [symmetric] take)
  have n: "n \<le> 1024" "n \<le> length reason"
    using floor_char_boundary_le [of "as_bytes reason" 1024] by (simp_all add: n_def)
  have "utf8_valid (take n (as_bytes reason))"
    unfolding n_def using assms(1) by (rule floor_char_boundary_valid)
  then show "take 4 v = put_be 4 (case u32_try_from code of None \<Rightarrow> u32_MAX | Some c \<Rightarrow> c)"
    "drop 4 v = as_bytes (take n reason)" "length v \<le> 1028" "4 \<le> length v" "utf8_valid (drop 4 v)"
    "length (drop 4 v) \<le> 1024"
    using n by (simp_all add: v take)
qed

lemma close_code_value:
  "ucast (case u32_try_from code of None \<Rightarrow> u32_MAX | Some c \<Rightarrow> c) = (if code \<le> 0xFFFFFFFF then code else (0xFFFFFFFF :: u64))"
proof (cases "code \<le> 0xFFFFFFFF")
  case True
  then have "unat code < 2 ^ 32" by (simp add: word_le_nat_alt)
  then have "ucast (ucast code :: u32) = code"
    by (simp add: word_unat_eq_iff unsigned_ucast_eq unsigned_take_bit_eq take_bit_nat_eq_self)
  with True show ?thesis by (simp add: u32_try_from_def)
next
  case False
  then show ?thesis by (simp add: u32_try_from_def u32_MAX_def)
qed

text \<open>
  C26. What one end says when it closes a session, the other end records: the capsule is accepted,
  the code arrives (saturated to 32 bits), and the reason arrives cut at a character boundary
  within 1024 bytes, whole if it is not longer; the receiving session closes.
\<close>

theorem close_capsule_roundtrip:
  assumes "session_inv s" and "utf8_valid (as_bytes reason)"
    and "ses_state s \<in> {SessionState.Connected, SessionState.Draining}"
    and "recv_capsule s WT_CAPSULE_TYPE_CLOSE_SESSION (close_capsule_value code reason) now = (es, t)"
  shows "ses_state t = SessionState.Closed
    \<and> ses_close_code t = Some (if code \<le> 0xFFFFFFFF then code else 0xFFFFFFFF)
    \<and> ses_close_reason t = Some (take (floor_char_boundary (as_bytes reason) 1024) reason)
    \<and> (length reason \<le> 1024 \<longrightarrow> ses_close_reason t = Some reason)"
proof -
  let ?v = "close_capsule_value code reason"
  note v = close_value_parts [OF assms(2), of code]
  have limit: "unat WT_CLOSE_REASON_SIZE_LIMIT = 1024" by (simp add: const_defs)
  have "\<not> is_flow_control_capsule WT_CAPSULE_TYPE_CLOSE_SESSION"
    by (simp add: is_flow_control_capsule_def const_defs)
  then have "recv_capsule s WT_CAPSULE_TYPE_CLOSE_SESSION ?v now = capsule_close_session s ?v now"
    using assms(3) by (auto simp: recv_capsule_def dispatch_capsule_def)
  also have "snd \<dots> = snd (close_down s (Some (if code \<le> 0xFFFFFFFF then code else 0xFFFFFFFF))
      (Some (take (floor_char_boundary (as_bytes reason) 1024) reason)) SessionState.Closed now)"
    using v floor_char_boundary_le(1) [of "as_bytes reason" 1024]
    by (simp add: capsule_close_session_def limit Let_def case_prod_beta get_be_word close_code_value not_less)
  finally have "t = snd (close_down s (Some (if code \<le> 0xFFFFFFFF then code else 0xFFFFFFFF))
      (Some (take (floor_char_boundary (as_bytes reason) 1024) reason)) SessionState.Closed now)"
    using assms(4) by simp
  moreover have "session_base s" using assms(1) session_inv_base by blast
  ultimately show ?thesis
    using close_down_facts(3-5) [of s SessionState.Closed] by (simp add: floor_char_boundary_def)
qed

definition connected_example :: Session where
  "connected_example = snd (session_accept example_session 1 [] None 0)"

lemma connected_example_ok: "session_inv connected_example" "ses_state connected_example = SessionState.Connected"
proof -
  have "session_inv example_session"
    by (simp add: example_session_def session_new_inv)
  then show "session_inv connected_example"
    unfolding connected_example_def by (rule keeps_inv [OF accept_keeps])
  show "ses_state connected_example = SessionState.Connected"
    by (simp add: connected_example_def) code_simp
qed

theorem close_capsule_roundtrip_witness:
  "ses_close_code (snd (recv_capsule connected_example WT_CAPSULE_TYPE_CLOSE_SESSION (close_capsule_value 7 ''bye'') 0)) = Some 7"
proof -
  have "utf8_valid (as_bytes ''bye'')" by code_simp
  then show ?thesis
    using close_capsule_roundtrip [of connected_example "''bye''" 7 0
        "fst (recv_capsule connected_example WT_CAPSULE_TYPE_CLOSE_SESSION (close_capsule_value 7 ''bye'') 0)"
        "snd (recv_capsule connected_example WT_CAPSULE_TYPE_CLOSE_SESSION (close_capsule_value 7 ''bye'') 0)"]
      connected_example_ok by simp
qed

subsection \<open>Datagrams\<close>

text \<open>
  A datagram is either handed over whole together with its confirmation or refused with no
  other effect, it is never changed, and a non-empty datagram that is handed over fits in the
  frame the peer accepts together with the identifier in front of it.
\<close>

theorem datagram_fits:
  assumes "length d < 2 ^ 64" and "is_open_state (ses_state s)"
  shows "snd (send_datagram s r d n) = s
    \<and> (fst (send_datagram s r d n) = [SendH3Datagram (ses_id s) d, NotifyRequestDone r ResultNone]
         \<and> (d \<noteq> [] \<longrightarrow> varint_size (ses_id s div 4) + length d \<le> unat n)
       \<or> fst (send_datagram s r d n) = [NotifyRequestFailed r ErrorSource.Datagram None ''wt_datagram validate exceeded'']
         \<and> unat n < varint_size (ses_id s div 4) + length d)"
proof -
  let ?h = "varint_size (ses_id s div 4)"
  have h: "unat (of_nat ?h :: u64) = ?h"
    by (simp add: varint_size_def unat_of_nat)
  have d: "unat (len64 d) = length d"
    using assms(1) by (simp add: len64_def unat_of_nat)
  have allowed: "unat (saturating_sub n (of_nat ?h)) = unat n - ?h"
    by (simp add: unat_saturating_sub h)
  show ?thesis
    using assms(2) d allowed
    by (cases d) (auto simp: send_datagram_def Let_def word_less_nat_alt)
qed

theorem datagram_fits_witness:
  "fst (send_datagram connected_example 5 [1, 2] 3) = [SendH3Datagram (ses_id connected_example) [1, 2], NotifyRequestDone 5 ResultNone]"
proof -
  have "ses_id connected_example = 0" by (simp add: connected_example_def) code_simp
  then show ?thesis
    using datagram_fits [of "[1, 2]" connected_example 5 3] connected_example_ok(2) by (simp add: varint_size_def)
qed

subsection \<open>Exported keying material\<close>

text \<open>
  The context of a TLS export separates sessions, labels and contexts: two exports that pass
  the length checks share a context only if all three agree.
\<close>

theorem exporter_context_injective:
  assumes "length label \<le> 255" "length context \<le> 255" "length label' \<le> 255" "length context' \<le> 255"
    and "exporter_context i label context = exporter_context i' label' context'"
  shows "i = i' \<and> label = label' \<and> context = context'"
proof -
  have small: "n \<le> 255 \<Longrightarrow> m \<le> 255 \<Longrightarrow> (of_nat n :: u8) = of_nat m \<Longrightarrow> n = m" for n m
    by (simp add: word_unat_eq_iff unat_of_nat)
  have id: "put_be 8 i = put_be 8 i'"
    and rest: "of_nat (length label) # as_bytes label @ of_nat (length context) # context
      = (of_nat (length label') :: u8) # as_bytes label' @ of_nat (length context') # context'"
    using assms(5) by (simp_all add: exporter_context_def)
  have "i = i'" using id get_be_word(3) by metis
  moreover have "length label = length label'"
    using rest small assms(1,3) by simp
  then have "as_bytes label = as_bytes label'" "context = context'"
    using rest by (simp_all add: append_eq_append_conv)
  ultimately show ?thesis by simp
qed

theorem exporter_context_injective_witness:
  "exporter_context 4 ''a'' [1] \<noteq> exporter_context 4 ''ab'' []"
  using exporter_context_injective [of "''a''" "[1]" "''ab''" "[]" 4 4] by auto

subsection \<open>Requests for streams\<close>

lemma emit_streams_blocked_parts:
  "handed_out (option_effect (fst (emit_streams_blocked s u))) = []"
  "ses_blocked_stream_requests_bidi (snd (emit_streams_blocked s u)) = ses_blocked_stream_requests_bidi s"
  "ses_blocked_stream_requests_uni (snd (emit_streams_blocked s u)) = ses_blocked_stream_requests_uni s"
  "ses_local_streams_bidi_opened (snd (emit_streams_blocked s u)) = ses_local_streams_bidi_opened s"
  "ses_local_streams_uni_opened (snd (emit_streams_blocked s u)) = ses_local_streams_uni_opened s"
proof -
  have "quiet es \<Longrightarrow> handed_out es = []" for es
    by (induction es) (simp_all add: quiet_effect_def)
  then show "handed_out (option_effect (fst (emit_streams_blocked s u))) = []"
    by (rule emit_streams_blocked_shape [of s u]) simp
qed (rule emit_streams_blocked_shape [of s u], simp)+

lemma handed_out_append: "handed_out (es @ fs) = handed_out es @ handed_out fs"
  by (simp add: handed_out_def)

lemma handed_out_creates: "handed_out (map (\<lambda>r. CreateQuicStream r sid u) rs) = rs"
  by (induction rs) simp_all

lemma requests_served:
  assumes "opened \<le> limit"
  shows "flush_requests_loop sid u True opened limit rs = (let n = min (length rs) (unat limit - unat opened) in
    (map (\<lambda>r. CreateQuicStream r sid u) (take n rs), opened + of_nat n, drop n rs))"
proof (rule flush_requests_loop_eq [of True opened limit rs sid u])
  fix n
  assume n: "n \<le> length rs" and eq: "flush_requests_loop sid u True opened limit rs =
      (map (\<lambda>r. CreateQuicStream r sid u) (take n rs), opened + of_nat n, drop n rs)"
    and up: "True \<Longrightarrow> opened + of_nat n \<le> limit \<and> unat (opened + of_nat n) = unat opened + n"
    and stop: "n < length rs \<Longrightarrow> True \<and> limit = opened + of_nat n"
  have "n = min (length rs) (unat limit - unat opened)"
    using n up stop by (cases "n < length rs") (auto simp: word_le_nat_alt)
  with eq show ?thesis by (simp add: Let_def)
qed (use assms in simp)

text \<open>
  Requests for streams that wait for the peer's limit are served in the order they came, as
  many as the limit allows, each with one slot of it; the rest keeps waiting in order.
\<close>

theorem stream_requests_fifo:
  assumes "session_inv s" and "ses_flow_control_negotiated s"
    and "n = min (length (ses_blocked_stream_requests_bidi s))
      (unat (ses_peer_max_streams_bidi s) - unat (ses_local_streams_bidi_opened s))"
    and "flush_blocked_stream_requests s False = (es, t)"
  shows "handed_out es = take n (ses_blocked_stream_requests_bidi s)
    \<and> ses_blocked_stream_requests_bidi t = drop n (ses_blocked_stream_requests_bidi s)
    \<and> ses_local_streams_bidi_opened t = ses_local_streams_bidi_opened s + of_nat n"
proof -
  have "ses_local_streams_bidi_opened s \<le> ses_peer_max_streams_bidi s"
    using assms(1,2) by (simp add: session_inv_def window_ok_def)
  note loop = requests_served [OF this, of "ses_id s" False "ses_blocked_stream_requests_bidi s", folded assms(3), simplified Let_def]
  show ?thesis
    using assms(2,4) loop
    by (auto simp: flush_blocked_stream_requests_def Let_def case_prod_beta handed_out_append handed_out_creates
        emit_streams_blocked_parts)
qed

definition queued_example :: Session where
  "queued_example = connected_example\<lparr>ses_blocked_stream_requests_bidi := [8, 9]\<rparr>"

theorem stream_requests_fifo_witness: "handed_out (fst (flush_blocked_stream_requests queued_example False)) = [8]"
proof -
  have q: "session_inv queued_example"
    unfolding queued_example_def
    by (rule window_requests_inv [where s = connected_example and ub = "ses_local_streams_bidi_opened connected_example"
          and uu = "ses_local_streams_uni_opened connected_example" and rb = "[8, 9]"
          and ru = "ses_blocked_stream_requests_uni connected_example"])
       (use connected_example_ok in \<open>simp_all add: session_inv_def window_ok_def\<close>)
  have "ses_flow_control_negotiated queued_example \<and> ses_peer_max_streams_bidi queued_example = 1
      \<and> ses_local_streams_bidi_opened queued_example = 0"
    by (simp add: queued_example_def connected_example_def) code_simp
  then show ?thesis
    using stream_requests_fifo [OF q, of 1 "fst (flush_blocked_stream_requests queued_example False)"
        "snd (flush_blocked_stream_requests queued_example False)"]
    by (simp add: queued_example_def)
qed

subsection \<open>Replay\<close>

text \<open>
  C27. The replay of a session that has just been accepted runs to its end: it leaves the session
  in another state than connected, or nothing that arrived early is left waiting, neither a
  capsule nor the announcement of a stream, and no datagram is left while a read waits for one.
\<close>

theorem replay_complete:
  assumes "session_inv s" and "ses_state s = SessionState.Connected"
    and "replay_pending_queues s now = (es, t)" and "ses_state t = SessionState.Connected"
  shows "ses_pending_capsules t = [] \<and> ses_pending_streams t = []
    \<and> (ses_pending_datagram_requests t = [] \<or> ses_pending_datagrams t = [])"
proof -
  let ?c = "snd (replay_capsules (length (ses_pending_capsules s)) s now)"
  let ?d = "snd (replay_datagrams (length (ses_pending_datagrams ?c)) ?c)"
  have "ses_state ?c = SessionState.Connected"
  proof (rule ccontr)
    assume "ses_state ?c \<noteq> SessionState.Connected"
    moreover from this have "ses_pending_capsules s \<noteq> []" using assms(2) by auto
    ultimately show False
      using assms(3,4) by (auto simp: replay_pending_queues_def Let_def case_prod_beta)
  qed
  moreover have "t = snd (replay_streams ?d)"
    using assms(3) calculation by (auto simp: replay_pending_queues_def Let_def case_prod_beta)
  moreover have "ses_pending_capsules ?c = []"
    using replay_capsules_done [OF assms(1,2), of "length (ses_pending_capsules s)" now] calculation(1) by simp
  ultimately show ?thesis
    using replay_datagrams_done [of ?c "length (ses_pending_datagrams ?c)"] by (simp add: replay_streams_def Let_def)
qed

definition replay_example :: Session where
  "replay_example = connected_example\<lparr>ses_pending_datagrams := [[1], [2]], ses_pending_datagram_requests := [5]\<rparr>"

theorem replay_complete_witness:
  "ses_pending_datagram_requests (snd (replay_pending_queues replay_example 0)) = []
    \<or> ses_pending_datagrams (snd (replay_pending_queues replay_example 0)) = []"
proof -
  have max: "ses_max_pending_datagrams connected_example = 4"
    by (simp add: connected_example_def) code_simp
  have "session_inv replay_example"
    unfolding replay_example_def
    using waiting_inv [OF connected_example_ok(1) _ queues_bounded(1) _ queues_bounded(3), of "[[1], [2]]" "[5]"] max
      connected_example_ok by simp
  moreover have "ses_state replay_example = SessionState.Connected"
    using connected_example_ok(2) by (simp add: replay_example_def)
  moreover have "ses_state (snd (replay_pending_queues replay_example 0)) = SessionState.Connected"
    by (simp add: replay_example_def connected_example_def) code_simp
  ultimately show ?thesis
    using replay_complete [of replay_example 0 "fst (replay_pending_queues replay_example 0)"
        "snd (replay_pending_queues replay_example 0)"] by simp
qed

text \<open>
  C28. The exception: the capsule that drains a session ends the replay as well, although the session
  is still open.  Everything that was buffered behind it, the capsules as well as the
  announcements of the streams of the peer, stays as it was.
\<close>

theorem replay_stops_at_drain:
  assumes "ses_state s = SessionState.Connected"
    and "ses_pending_capsules s = (WT_CAPSULE_TYPE_DRAIN_SESSION, capsule_value) # rest"
  shows "replay_pending_queues s now =
    ([EmitSessionEvent (ses_id s) SessionDraining no_fields],
     s\<lparr>ses_pending_capsules := rest, ses_state := SessionState.Draining\<rparr>)"
proof -
  let ?t = "s\<lparr>ses_pending_capsules := rest\<rparr>"
  have "recv_capsule ?t WT_CAPSULE_TYPE_DRAIN_SESSION capsule_value now = capsule_drain_session ?t"
    using assms(1) by (simp add: recv_capsule_def dispatch_capsule_def is_flow_control_capsule_def const_defs)
  then show ?thesis
    using assms by (simp add: replay_pending_queues_def capsule_drain_session_def)
qed

definition drained_example :: Session where
  "drained_example = connected_example\<lparr>ses_pending_streams := [4],
     ses_pending_capsules := [(WT_CAPSULE_TYPE_DRAIN_SESSION, []), (WT_CAPSULE_TYPE_CLOSE_SESSION, [0, 0, 0, 7])]\<rparr>"

theorem replay_stops_at_drain_witness:
  "ses_pending_capsules (snd (replay_pending_queues drained_example 0))
     = [(WT_CAPSULE_TYPE_CLOSE_SESSION, [0, 0, 0, 7])]
   \<and> ses_pending_streams (snd (replay_pending_queues drained_example 0)) = [4]"
  using replay_stops_at_drain [of drained_example "[]" "[(WT_CAPSULE_TYPE_CLOSE_SESSION, [0, 0, 0, 7])]" 0]
    connected_example_ok(2) by (simp add: drained_example_def)

end
