(* ===== verification/Session_Tables.thy ===== *)
theory Session_Tables
  imports Session_Machine
begin

text \<open>
  Which streams a session has after a call: only \<open>bind_stream\<close> and \<open>handle_stream_opened\<close> add
  one, and only the stream they are about.  The connection's table of streams relies on this.
\<close>

abbreviation sids :: "Session \<Rightarrow> StreamId set" where
  "sids s \<equiv> fset (fmdom (ses_streams s))"

lemma replenish_streams_same [simp]:
  "ses_streams (snd (replenish_data_credit s f)) = ses_streams s"
  "ses_streams (snd (replenish_streams_credit s u f)) = ses_streams s"
  "ses_streams (snd (emit_data_blocked s)) = ses_streams s"
  "ses_streams (snd (emit_streams_blocked s u)) = ses_streams s"
  by (simp_all add: replenish_data_credit_def replenish_streams_credit_def emit_data_blocked_def emit_streams_blocked_def
      Let_def split: sum.splits)

lemma handle_closed_sids: "sids (snd (session_handle_closed s sid)) \<subseteq> sids s"
  by (auto simp: session_handle_closed_def Let_def case_prod_beta)

lemma update_stream_sids: "sid \<in> sids s \<Longrightarrow> sids (snd (update_stream s sid p)) \<subseteq> sids s"
  using handle_closed_sids [of "s\<lparr>ses_streams := fmupd sid (snd p) (ses_streams s)\<rparr>" sid]
  by (auto simp: update_stream_def Let_def case_prod_beta)

lemma account_write_sids: "sid \<in> sids s \<Longrightarrow> sids (snd (account_write s sid p)) \<subseteq> sids s"
  by (auto simp: account_write_def Let_def case_prod_beta)

lemma flush_blocked_loop_sids: "sids (snd (flush_blocked_loop n s)) \<subseteq> sids s"
proof (induction n arbitrary: s)
  case (Suc n)
  have step: "sids t \<subseteq> sids s \<Longrightarrow> sids (snd (flush_blocked_loop n t)) \<subseteq> sids s" for t
    using Suc.IH [of t] by (rule subset_trans)
  show ?case
  proof (cases "ses_blocked_streams_queue s")
    case (Cons sid queue)
    then show ?thesis
      by (cases "fmlookup (ses_streams s) sid")
         (simp_all add: Let_def case_prod_beta step fmdomI)
  qed simp
qed simp

lemma flush_blocked_writes_sids: "sids (snd (flush_blocked_writes s)) \<subseteq> sids s"
  using flush_blocked_loop_sids by (simp add: flush_blocked_writes_def Let_def case_prod_beta)

lemma abort_each_sids: "sids (snd (abort_each_stream xs s)) \<subseteq> sids s"
proof (induction xs arbitrary: s)
  case (Cons sid xs)
  let ?t = "snd (case fmlookup (ses_streams s) sid of None \<Rightarrow> ([], s)
    | Some stream \<Rightarrow> (let (stream_effects, stream) = stream_abort stream ERR_WT_SESSION_GONE;
         self = s\<lparr>ses_streams := fmupd sid stream (ses_streams s)\<rparr>
       in (suppress_pending_stream_events self sid stream_effects, self)))"
  have "sids ?t \<subseteq> sids s"
    by (auto simp: Let_def case_prod_beta split: option.splits dest: fmdomI)
  with handle_closed_sids [of ?t sid] Cons.IH [of "snd (session_handle_closed ?t sid)"] show ?case
    by (simp add: Let_def case_prod_beta)
qed simp

lemma close_down_sids: "sids (snd (close_down s ec m st now)) \<subseteq> sids s"
  using abort_each_sids by (fastforce simp: close_down_def abort_streams_def Let_def case_prod_beta)

lemma abort_sids: "sids (snd (session_abort s ec m now)) \<subseteq> sids s"
  using close_down_sids by (simp add: session_abort_def Let_def case_prod_beta)

lemma flush_requests_sids [simp]: "ses_streams (snd (flush_blocked_stream_requests s u)) = ses_streams s"
  by (simp add: flush_blocked_stream_requests_def Let_def case_prod_beta)

lemma capsules_sids:
  "sids (snd (capsule_close_session s v now)) \<subseteq> sids s"
  "sids (snd (capsule_data_blocked s)) \<subseteq> sids s"
  "sids (snd (capsule_drain_session s)) \<subseteq> sids s"
  "sids (snd (capsule_max_data s v now)) \<subseteq> sids s"
  "sids (snd (capsule_max_streams_bidi s v now)) \<subseteq> sids s"
  "sids (snd (capsule_max_streams_uni s v now)) \<subseteq> sids s"
  "sids (snd (capsule_streams_blocked s u v now)) \<subseteq> sids s"
proof -
  show "sids (snd (capsule_close_session s v now)) \<subseteq> sids s"
    using close_down_sids abort_sids by (simp add: capsule_close_session_def Let_def case_prod_beta)
  show "sids (snd (capsule_data_blocked s)) \<subseteq> sids s"
    using replenish_streams_same(1) [of s True]
    by (cases "replenish_data_credit s True") (auto simp: capsule_data_blocked_def split: option.splits)
  show "sids (snd (capsule_drain_session s)) \<subseteq> sids s"
    by (simp add: capsule_drain_session_def)
  show "sids (snd (capsule_max_data s v now)) \<subseteq> sids s"
    using flush_blocked_writes_sids [of "s\<lparr>ses_peer_max_data := m\<rparr>" for m] abort_sids
    by (simp add: capsule_max_data_def varint_abort_def Let_def case_prod_beta split: sum.splits)
  show "sids (snd (capsule_max_streams_bidi s v now)) \<subseteq> sids s"
    using abort_sids
    by (simp add: capsule_max_streams_bidi_def varint_abort_def Let_def case_prod_beta split: sum.splits)
  show "sids (snd (capsule_max_streams_uni s v now)) \<subseteq> sids s"
    using abort_sids
    by (simp add: capsule_max_streams_uni_def varint_abort_def Let_def case_prod_beta split: sum.splits)
  show "sids (snd (capsule_streams_blocked s u v now)) \<subseteq> sids s"
    using abort_sids replenish_streams_same(2) [of s u True]
    by (simp add: capsule_streams_blocked_def varint_abort_def Let_def case_prod_beta split: sum.splits prod.splits option.splits)
qed

lemma recv_capsule_sids: "sids (snd (recv_capsule s ct v now)) \<subseteq> sids s"
  using capsules_sids abort_sids by (simp add: recv_capsule_def dispatch_capsule_def)

lemma recv_datagram_sids [simp]: "ses_streams (snd (recv_datagram s d)) = ses_streams s"
  by (simp add: recv_datagram_def)

lemma replay_capsules_sids: "sids (snd (replay_capsules n s now)) \<subseteq> sids s"
proof (induction n arbitrary: s)
  case (Suc n)
  show ?case
  proof (cases "ses_pending_capsules s")
    case (Cons cap caps)
    then show ?thesis
      using recv_capsule_sids [of "s\<lparr>ses_pending_capsules := caps\<rparr>" "fst cap" "snd cap" now]
        Suc.IH [of "snd (recv_capsule (s\<lparr>ses_pending_capsules := caps\<rparr>) (fst cap) (snd cap) now)"]
      by (auto simp: Let_def case_prod_beta)
  qed simp
qed simp

lemma replay_datagrams_sids [simp]: "ses_streams (snd (replay_datagrams n s)) = ses_streams s"
  by (induction n arbitrary: s) (simp_all add: Let_def case_prod_beta)

lemma replay_pending_sids: "sids (snd (replay_pending_queues s now)) \<subseteq> sids s"
  using replay_capsules_sids by (simp add: replay_pending_queues_def replay_streams_def Let_def case_prod_beta)

lemma lifecycle_sids:
  "sids (snd (session_accept s r hs p now)) \<subseteq> sids s"
  "sids (snd (session_confirm s p now)) \<subseteq> sids s"
  "sids (snd (session_close s r ec m now)) \<subseteq> sids s"
  "sids (snd (recv_connect_close s ec text now)) \<subseteq> sids s"
  "sids (snd (session_reject s r hs sc now)) \<subseteq> sids s"
  using replay_pending_sids [of "s\<lparr>ses_ready_at := Some now, ses_wt_protocol := p, ses_state := SessionState.Connected\<rparr>" now]
    close_down_sids
  by (simp_all add: session_accept_def session_confirm_def session_close_def recv_connect_close_def session_reject_def
      Let_def case_prod_beta split: sum.splits)

lemma recv_stream_data_sids: "sids (snd (recv_stream_data s sid d e now)) \<subseteq> sids s"
proof (cases "fmlookup (ses_streams s) sid")
  case (Some st)
  let ?u = "s\<lparr>ses_data_received := ses_data_received s + len64 d\<rparr>"
  let ?v = "?u\<lparr>ses_streams := fmupd sid (snd (stream_recv_data st d e)) (ses_streams s),
    ses_data_consumed := ses_data_consumed s + len64 d\<rparr>"
  have "insert sid (sids s) = sids s"
    using Some by (auto dest: fmdomI)
  then show ?thesis
    using Some abort_sids [of ?u] handle_closed_sids [of "snd (replenish_data_credit ?v False)" sid]
    by (simp add: recv_stream_data_def Let_def case_prod_beta)
qed (simp add: recv_stream_data_def)

text \<open>The streams a call may add.\<close>

definition opens :: "SessionCall \<Rightarrow> StreamId set" where
  "opens c = (case c of SessionBindStream sid r u now \<Rightarrow> {sid} | SessionStreamOpened sid now \<Rightarrow> {sid} | _ \<Rightarrow> {})"

lemma admit_sids: "sids (snd (admit_peer_stream s sid dir now)) \<subseteq> insert sid (sids s)"
  by (auto simp: admit_peer_stream_def insert_peer_stream_def refuse_pending_stream_def Let_def case_prod_beta)

lemma stream_opened_sids: "sids (snd (handle_stream_opened s sid now)) \<subseteq> insert sid (sids s)"
proof -
  have "sids (snd (admit_peer_stream (s\<lparr>ses_peer_streams_bidi_opened := n\<rparr>) sid dir now)) \<subseteq> insert sid (sids s)"
    "sids (snd (admit_peer_stream (s\<lparr>ses_peer_streams_uni_opened := n\<rparr>) sid dir now)) \<subseteq> insert sid (sids s)" for n dir
    using admit_sids [of "s\<lparr>ses_peer_streams_bidi_opened := n\<rparr>"] admit_sids [of "s\<lparr>ses_peer_streams_uni_opened := n\<rparr>"]
    by simp_all
  moreover have "sids (snd (session_abort s ec m now)) \<subseteq> insert sid (sids s)" for ec m
    using abort_sids by blast
  ultimately show ?thesis
    by (auto simp: handle_stream_opened_def Let_def case_prod_beta split: StreamDirection.splits)
qed

lemma session_call_sids: "sids (snd (session_call c s)) \<subseteq> sids s \<union> opens c"
proof (cases c)
  case (SessionBindStream sid r u now)
  then show ?thesis by (auto simp: bind_stream_def opens_def Let_def)
next
  case (SessionStreamOpened sid now)
  then show ?thesis using stream_opened_sids by (simp add: opens_def)
qed (auto simp: opens_def fmdomI abort_sids lifecycle_sids recv_capsule_sids recv_stream_data_sids
      complete_stream_write_def create_stream_def defer_stream_def
      session_drain_def session_stream_acknowledged_def read_datagram_def read_stream_def session_recv_stop_sending_def
      recv_stream_reset_def reset_stream_def send_datagram_def stop_stream_def write_stream_def Let_def case_prod_beta
      split: option.splits dest: subsetD [OF abort_sids] subsetD [OF lifecycle_sids(1)] subsetD [OF lifecycle_sids(2)]
        subsetD [OF lifecycle_sids(3)] subsetD [OF lifecycle_sids(4)] subsetD [OF lifecycle_sids(5)]
        subsetD [OF recv_capsule_sids] subsetD [OF recv_stream_data_sids] subsetD [OF update_stream_sids, rotated]
        subsetD [OF account_write_sids, rotated])

end
