(* ===== verification/Protocol_Events.thy ===== *)
theory Protocol_Events
  imports Events
begin

text \<open>
  The events of \<open>protocol/events.rs\<close> that drive the engine, with the SETTINGS of
  \<open>protocol/h3.rs\<close> they carry.  Constructors keep the source's names and the order of their
  fields.
\<close>

record H3Settings =
  set_enable_connect_protocol :: "u64 option"
  set_h3_datagram :: "u64 option"
  set_max_field_section_size :: "u64 option"
  set_qpack_blocked_streams :: "u64 option"
  set_qpack_max_table_capacity :: "u64 option"
  set_unknown :: "(u64 \<times> u64) list"
  set_wt_enabled :: "u64 option"
  set_wt_initial_max_data :: "u64 option"
  set_wt_initial_max_streams_bidi :: "u64 option"
  set_wt_initial_max_streams_uni :: "u64 option"

datatype (plugins only: code) ProtocolEvent =
    H3CapsuleReceived StreamId u64 bytes
  | H3ConnectStreamClosed StreamId
  | H3DatagramReceived SessionId bytes
  | H3GoawayReceived
  | H3HeadersReceived StreamId Headers
  | H3SettingsReceived H3Settings
  | H3WebTransportStreamOpened SessionId StreamId
  | InternalBindH3ConnectStream RequestId StreamId
  | InternalBindH3LocalStreams StreamId StreamId StreamId
  | InternalBindQuicStream RequestId StreamId SessionId bool
  | InternalCleanupEarlyEvents
  | InternalCleanupResources
  | InternalCloseConnection
  | InternalCompleteQuicData StreamId
  | InternalDeferH3ConnectStream RequestId
  | InternalDeferQuicStream RequestId SessionId bool
  | InternalFailH3ConnectStream RequestId "ErrorCode option" string
  | InternalFailH3LocalStreams
  | TransportConnectionTerminated ErrorCode string
  | TransportDatagramReceived bytes
  | TransportHandshakeCompleted
  | TransportMaxStreamsReceived bool
  | TransportQuicParametersReceived u64
  | TransportResetStreamReceived StreamId ErrorCode
  | TransportStopSendingReceived StreamId ErrorCode
  | TransportStreamDataAcknowledged StreamId
  | TransportStreamDataReceived StreamId bytes bool
  | TransportStreamOpened StreamId
  | UserAcceptSession RequestId SessionId Headers "string option"
  | UserCloseConnection RequestId ErrorCode "string option"
  | UserCloseConnectionGracefully RequestId
  | UserCloseSession RequestId SessionId ErrorCode "string option"
  | UserCreateSession RequestId string string Headers "string list option"
  | UserCreateSessionOptimistic RequestId string string Headers "string list option"
  | UserCreateStream RequestId SessionId bool
  | UserDiagnoseConnection RequestId
  | UserDiagnoseSession RequestId SessionId
  | UserDiagnoseStream RequestId StreamId
  | UserExportKeyingMaterial RequestId SessionId string bytes u32
  | UserReadDatagram RequestId SessionId
  | UserReadStream RequestId StreamId u64
  | UserRejectSession RequestId SessionId Headers u16
  | UserResetStream RequestId StreamId ErrorCode
  | UserSendDatagram RequestId SessionId bytes
  | UserStopSending RequestId StreamId ErrorCode
  | UserWriteStream RequestId StreamId bytes bool

end
