(* ===== verification/Connection_State.thy ===== *)
theory Connection_State
  imports WtSession Protocol_Events
begin

text \<open>
  The state of one connection (\<open>protocol/connection.rs\<close>): its sessions, the table from streams to
  sessions, the session requests that are still being set up, and the buffer for events of
  sessions that do not exist yet.  \<open>early_event_count\<close> is a \<open>usize\<close> and so a natural number.
\<close>

record ConnectionParameters =
  cp_early_event_ttl :: f64
  cp_initial_max_data :: u64
  cp_initial_max_streams_bidi :: u64
  cp_initial_max_streams_uni :: u64
  cp_max_connection_pending_events :: u64
  cp_max_pending_capsules :: u64
  cp_max_pending_datagrams :: u64
  cp_max_pending_streams :: u64
  cp_max_session_pending_events :: u64
  cp_max_sessions :: u64
  cp_max_write_buffer_size :: u64
  cp_session_receive_window :: u64

record SessionRequest =
  srq_authority :: string
  srq_created_at :: f64
  srq_headers :: Headers
  srq_optimistic :: bool
  srq_path :: string
  srq_wt_available_protocols :: "string list option"

record Connection =
  con_blocked_session_requests :: "RequestId list"
  con_close_code :: "ErrorCode option"
  con_close_reason :: "string option"
  con_closed_at :: "f64 option"
  con_connected_at :: "f64 option"
  con_early_event_buffer :: "(SessionId, (f64 \<times> ProtocolEvent) list) fmap"
  con_early_event_count :: nat
  con_early_event_ttl :: f64
  con_handle :: ConnectionHandle
  con_handshake_completed :: bool
  con_initial_max_data :: u64
  con_initial_max_streams_bidi :: u64
  con_initial_max_streams_uni :: u64
  con_is_client :: bool
  con_local_goaway_sent :: bool
  con_max_connection_pending_events :: u64
  con_max_pending_capsules :: u64
  con_max_pending_datagrams :: u64
  con_max_pending_streams :: u64
  con_max_session_pending_events :: u64
  con_max_sessions :: u64
  con_max_write_buffer_size :: u64
  con_peer_goaway_received :: bool
  con_peer_initial_max_data :: u64
  con_peer_initial_max_streams_bidi :: u64
  con_peer_initial_max_streams_uni :: u64
  con_peer_max_datagram_frame_size :: "u64 option"
  con_peer_settings_received :: bool
  con_pending_session_requests :: "(StreamId, RequestId) fmap"
  con_request_id :: "RequestId option"
  con_session_receive_window :: u64
  con_session_requests :: "(RequestId, SessionRequest) fmap"
  con_sessions :: "(SessionId, Session) fmap"
  con_state :: ConnectionState
  con_stream_map :: "(StreamId, SessionId) fmap"

definition connection_new :: "ConnectionHandle \<Rightarrow> RequestId option \<Rightarrow> bool \<Rightarrow> ConnectionParameters \<Rightarrow> Connection" where
  "connection_new handle request_id is_client parameters =
    \<lparr>con_blocked_session_requests = [],
     con_close_code = None,
     con_close_reason = None,
     con_closed_at = None,
     con_connected_at = None,
     con_early_event_buffer = fmempty,
     con_early_event_count = 0,
     con_early_event_ttl = cp_early_event_ttl parameters,
     con_handle = handle,
     con_handshake_completed = False,
     con_initial_max_data = cp_initial_max_data parameters,
     con_initial_max_streams_bidi = cp_initial_max_streams_bidi parameters,
     con_initial_max_streams_uni = cp_initial_max_streams_uni parameters,
     con_is_client = is_client,
     con_local_goaway_sent = False,
     con_max_connection_pending_events = cp_max_connection_pending_events parameters,
     con_max_pending_capsules = cp_max_pending_capsules parameters,
     con_max_pending_datagrams = cp_max_pending_datagrams parameters,
     con_max_pending_streams = cp_max_pending_streams parameters,
     con_max_session_pending_events = cp_max_session_pending_events parameters,
     con_max_sessions = cp_max_sessions parameters,
     con_max_write_buffer_size = cp_max_write_buffer_size parameters,
     con_peer_goaway_received = False,
     con_peer_initial_max_data = 0,
     con_peer_initial_max_streams_bidi = 0,
     con_peer_initial_max_streams_uni = 0,
     con_peer_max_datagram_frame_size = None,
     con_peer_settings_received = False,
     con_pending_session_requests = fmempty,
     con_request_id = request_id,
     con_session_receive_window = cp_session_receive_window parameters,
     con_session_requests = fmempty,
     con_sessions = fmempty,
     con_state = ConnectionState.Idle,
     con_stream_map = fmempty\<rparr>"

subsection \<open>Queries\<close>

definition has_flow_control :: "Connection \<Rightarrow> bool" where
  "has_flow_control self =
    (let local_intent = con_initial_max_data self > 0 \<or> con_initial_max_streams_bidi self > 0
           \<or> con_initial_max_streams_uni self > 0;
         peer_intent = con_peer_initial_max_data self > 0 \<or> con_peer_initial_max_streams_bidi self > 0
           \<or> con_peer_initial_max_streams_uni self > 0
     in local_intent \<and> peer_intent)"

definition connection_has_stream :: "Connection \<Rightarrow> StreamId \<Rightarrow> bool" where
  "connection_has_stream self stream_id \<longleftrightarrow> stream_id |\<in>| fmdom (con_stream_map self)"

definition is_connected :: "Connection \<Rightarrow> bool" where
  "is_connected self \<longleftrightarrow> con_state self = ConnectionState.Connected"

definition is_pre_connected :: "Connection \<Rightarrow> bool" where
  "is_pre_connected self \<longleftrightarrow> con_state self \<in> {ConnectionState.Connecting, ConnectionState.Idle}"

definition is_session_closed :: "Connection \<Rightarrow> SessionId \<Rightarrow> bool" where
  "is_session_closed self session_id \<longleftrightarrow>
    (case fmlookup (con_sessions self) session_id of None \<Rightarrow> False | Some session \<Rightarrow> session_is_closed session)"

definition is_session_stream :: "Connection \<Rightarrow> StreamId \<Rightarrow> bool" where
  "is_session_stream self stream_id \<longleftrightarrow> stream_id |\<in>| fmdom (con_sessions self)"

text \<open>The number of entries of a table, and the keys in the order the code visits them.\<close>

definition map_len :: "('k, 'v) fmap \<Rightarrow> nat" where
  "map_len m = fcard (fmdom m)"

definition sorted_keys :: "('k::linorder, 'v) fmap \<Rightarrow> 'k list" where
  "sorted_keys m = sorted_list_of_fset (fmdom m)"

text \<open>The parameters a session gets from its connection, and the limit on sessions.\<close>

definition session_parameters :: "Connection \<Rightarrow> SessionParameters" where
  "session_parameters self =
    \<lparr>ssp_flow_control_negotiated = has_flow_control self,
     ssp_initial_max_data = con_initial_max_data self,
     ssp_initial_max_streams_bidi = con_initial_max_streams_bidi self,
     ssp_initial_max_streams_uni = con_initial_max_streams_uni self,
     ssp_max_pending_capsules = con_max_pending_capsules self,
     ssp_max_pending_datagrams = con_max_pending_datagrams self,
     ssp_max_pending_streams = con_max_pending_streams self,
     ssp_max_write_buffer_size = con_max_write_buffer_size self,
     ssp_peer_max_data = con_peer_initial_max_data self,
     ssp_peer_max_streams_bidi = con_peer_initial_max_streams_bidi self,
     ssp_peer_max_streams_uni = con_peer_initial_max_streams_uni self,
     ssp_receive_window = con_session_receive_window self\<rparr>"

definition active_limit :: "Connection \<Rightarrow> u64" where
  "active_limit self = (if has_flow_control self then con_max_sessions self else 1)"

definition connection_diagnostics_snapshot :: "Connection \<Rightarrow> ConnectionDiagnostics" where
  "connection_diagnostics_snapshot self =
    \<lparr>cd_close_code = con_close_code self,
     cd_close_reason = con_close_reason self,
     cd_closed_at = con_closed_at self,
     cd_connected_at = con_connected_at self,
     cd_connection_handle = con_handle self,
     cd_handshake_completed = con_handshake_completed self,
     cd_is_client = con_is_client self,
     cd_local_goaway_sent = con_local_goaway_sent self,
     cd_peer_goaway_received = con_peer_goaway_received self,
     cd_peer_initial_max_data = con_peer_initial_max_data self,
     cd_peer_initial_max_streams_bidi = con_peer_initial_max_streams_bidi self,
     cd_peer_initial_max_streams_uni = con_peer_initial_max_streams_uni self,
     cd_peer_max_datagram_frame_size = con_peer_max_datagram_frame_size self,
     cd_peer_settings_received = con_peer_settings_received self,
     cd_state = con_state self\<rparr>"

end
