(* ===== verification/WtConnection.thy ===== *)
theory WtConnection
  imports Connection_State
begin

text \<open>
  The operations of \<open>protocol/connection.rs\<close>.  Most of them find the session a call is about and
  delegate to it (\<open>on_session\<close>, \<open>on_stream\<close>); the others set sessions up, close the connection
  down and manage the events that arrive before their session exists.  A method
  \<open>&mut self -> Vec<Effect>\<close> is a function to the effects and the new connection.
\<close>

subsection \<open>Delegation\<close>

definition session_resolve_failure :: "RequestId \<Rightarrow> Effect" where
  "session_resolve_failure request_id =
    NotifyRequestFailed request_id ErrorSource.Session (Some ERR_LIB_SESSION_STATE_ERROR) ''wt_session resolve failed''"

definition put_session :: "Connection \<Rightarrow> SessionId \<Rightarrow> effects \<times> Session \<Rightarrow> effects \<times> Connection" where
  "put_session self session_id outcome =
    (fst outcome, self\<lparr>con_sessions := fmupd session_id (snd outcome) (con_sessions self)\<rparr>)"

text \<open>\<open>if let Some(session) = self.sessions.get_mut(&session_id)\<close>, and what happens otherwise.\<close>

definition on_session ::
    "Connection \<Rightarrow> SessionId \<Rightarrow> (Session \<Rightarrow> effects \<times> Session) \<Rightarrow> effects \<times> Connection \<Rightarrow> effects \<times> Connection" where
  "on_session self session_id f missing =
    (case fmlookup (con_sessions self) session_id of
       None \<Rightarrow> missing
     | Some session \<Rightarrow> put_session self session_id (f session))"

text \<open>The same for the session of a stream; the stream leaves the table once its session has
  dropped it.\<close>

definition on_stream ::
    "Connection \<Rightarrow> StreamId \<Rightarrow> (Session \<Rightarrow> effects \<times> Session) \<Rightarrow> effects \<times> Connection \<Rightarrow> effects \<times> Connection" where
  "on_stream self stream_id f missing =
    (case fmlookup (con_stream_map self) stream_id of
       None \<Rightarrow> missing
     | Some session_id \<Rightarrow>
         (case fmlookup (con_sessions self) session_id of
            None \<Rightarrow> missing
          | Some session \<Rightarrow>
              (let outcome = f session;
                   (effects, self) = put_session self session_id outcome
               in (effects,
                   if \<not> has_stream (snd outcome) stream_id
                   then self\<lparr>con_stream_map := fmdrop stream_id (con_stream_map self)\<rparr> else self))))"

text \<open>A stream that its session has taken is entered in the table.\<close>

definition adopt_stream ::
    "Connection \<Rightarrow> SessionId \<Rightarrow> StreamId \<Rightarrow> effects \<times> Session \<Rightarrow> effects \<times> Connection" where
  "adopt_stream self session_id stream_id outcome =
    (let (effects, self) = put_session self session_id outcome
     in (effects,
         if has_stream (snd outcome) stream_id
         then self\<lparr>con_stream_map := fmupd stream_id session_id (con_stream_map self)\<rparr> else self))"

text \<open>The loops over all sessions, in the order of their identifiers.\<close>

fun each_session :: "SessionId list \<Rightarrow> (Session \<Rightarrow> effects \<times> Session) \<Rightarrow> Connection \<Rightarrow> effects \<times> Connection" where
  "each_session [] f self = ([], self)"
| "each_session (session_id # session_ids) f self =
    (let (effects, self) = on_session self session_id f ([], self);
         (more, self) = each_session session_ids f self
     in (effects @ more, self))"

definition on_all_sessions :: "Connection \<Rightarrow> (Session \<Rightarrow> effects \<times> Session) \<Rightarrow> effects \<times> Connection" where
  "on_all_sessions self f = each_session (sorted_keys (con_sessions self)) f self"

subsection \<open>Calls that concern one session\<close>

definition accept_session ::
    "Connection \<Rightarrow> SessionId \<Rightarrow> RequestId \<Rightarrow> Headers \<Rightarrow> string option \<Rightarrow> f64 \<Rightarrow> effects \<times> Connection" where
  "accept_session self session_id request_id headers wt_protocol now =
    on_session self session_id (\<lambda>session. session_accept session request_id headers wt_protocol now)
      ([session_resolve_failure request_id], self)"

definition connection_bind_stream ::
    "Connection \<Rightarrow> SessionId \<Rightarrow> StreamId \<Rightarrow> RequestId \<Rightarrow> bool \<Rightarrow> f64 \<Rightarrow> effects \<times> Connection" where
  "connection_bind_stream self session_id stream_id request_id is_unidirectional now =
    (case fmlookup (con_sessions self) session_id of
       Some session \<Rightarrow>
         adopt_stream self session_id stream_id (bind_stream session stream_id request_id is_unidirectional now)
     | None \<Rightarrow> ([session_resolve_failure request_id], self))"

definition close_session ::
    "Connection \<Rightarrow> SessionId \<Rightarrow> RequestId \<Rightarrow> ErrorCode \<Rightarrow> string option \<Rightarrow> f64 \<Rightarrow> effects \<times> Connection" where
  "close_session self session_id request_id error_code reason now =
    on_session self session_id (\<lambda>session. session_close session request_id error_code reason now)
      ([NotifyRequestDone request_id ResultNone], self)"

definition connection_create_stream :: "Connection \<Rightarrow> SessionId \<Rightarrow> RequestId \<Rightarrow> bool \<Rightarrow> effects \<times> Connection" where
  "connection_create_stream self session_id request_id is_unidirectional =
    on_session self session_id (\<lambda>session. create_stream session request_id is_unidirectional)
      ([session_resolve_failure request_id], self)"

definition connection_defer_stream :: "Connection \<Rightarrow> SessionId \<Rightarrow> RequestId \<Rightarrow> bool \<Rightarrow> effects \<times> Connection" where
  "connection_defer_stream self session_id request_id is_unidirectional =
    on_session self session_id (\<lambda>session. defer_stream session request_id is_unidirectional)
      ([session_resolve_failure request_id], self)"

definition diagnose_session :: "Connection \<Rightarrow> SessionId \<Rightarrow> RequestId \<Rightarrow> effects" where
  "diagnose_session self session_id request_id =
    (case fmlookup (con_sessions self) session_id of
       Some session \<Rightarrow> session_diagnose session request_id
     | None \<Rightarrow> [session_resolve_failure request_id])"

definition connection_export_keying_material ::
    "Connection \<Rightarrow> SessionId \<Rightarrow> RequestId \<Rightarrow> string \<Rightarrow> bytes \<Rightarrow> u32 \<Rightarrow> effects" where
  "connection_export_keying_material self session_id request_id label context len =
    (case fmlookup (con_sessions self) session_id of
       Some session \<Rightarrow> export_keying_material session request_id label context len
     | None \<Rightarrow> [session_resolve_failure request_id])"

definition connection_read_datagram :: "Connection \<Rightarrow> SessionId \<Rightarrow> RequestId \<Rightarrow> effects \<times> Connection" where
  "connection_read_datagram self session_id request_id =
    on_session self session_id (\<lambda>session. read_datagram session request_id)
      ([session_resolve_failure request_id], self)"

definition connection_recv_capsule :: "Connection \<Rightarrow> SessionId \<Rightarrow> u64 \<Rightarrow> bytes \<Rightarrow> f64 \<Rightarrow> effects \<times> Connection" where
  "connection_recv_capsule self session_id capsule_type capsule_value now =
    on_session self session_id (\<lambda>session. recv_capsule session capsule_type capsule_value now) ([], self)"

definition connection_recv_connect_close :: "Connection \<Rightarrow> SessionId \<Rightarrow> f64 \<Rightarrow> effects \<times> Connection" where
  "connection_recv_connect_close self session_id now =
    on_session self session_id (\<lambda>session. recv_connect_close session ERR_APP_NO_ERROR '''' now) ([], self)"

definition reject_session ::
    "Connection \<Rightarrow> SessionId \<Rightarrow> RequestId \<Rightarrow> Headers \<Rightarrow> u16 \<Rightarrow> f64 \<Rightarrow> effects \<times> Connection" where
  "reject_session self session_id request_id headers status_code now =
    on_session self session_id (\<lambda>session. session_reject session request_id headers status_code now)
      ([session_resolve_failure request_id], self)"

definition connection_send_datagram :: "Connection \<Rightarrow> SessionId \<Rightarrow> RequestId \<Rightarrow> bytes \<Rightarrow> effects \<times> Connection" where
  "connection_send_datagram self session_id request_id data =
    (let peer_max_datagram_frame_size =
           (case con_peer_max_datagram_frame_size self of None \<Rightarrow> 0 | Some n \<Rightarrow> n)
     in on_session self session_id (\<lambda>session. send_datagram session request_id data peer_max_datagram_frame_size)
          ([session_resolve_failure request_id], self))"

subsection \<open>Calls that concern one stream\<close>

definition connection_complete_stream_write :: "Connection \<Rightarrow> StreamId \<Rightarrow> effects \<times> Connection" where
  "connection_complete_stream_write self stream_id =
    on_stream self stream_id (\<lambda>session. complete_stream_write session stream_id) ([], self)"

definition connection_diagnose_stream :: "Connection \<Rightarrow> StreamId \<Rightarrow> RequestId \<Rightarrow> effects" where
  "connection_diagnose_stream self stream_id request_id =
    (case fmlookup (con_stream_map self) stream_id of
       Some session_id \<Rightarrow>
         (case fmlookup (con_sessions self) session_id of
            Some session \<Rightarrow> diagnose_stream session stream_id request_id
          | None \<Rightarrow> [stream_resolve_failure request_id])
     | None \<Rightarrow> [stream_resolve_failure request_id])"

definition handle_stream_data_acknowledged :: "Connection \<Rightarrow> StreamId \<Rightarrow> effects \<times> Connection" where
  "handle_stream_data_acknowledged self stream_id =
    on_stream self stream_id (\<lambda>session. session_stream_acknowledged session stream_id) ([], self)"

definition connection_read_stream :: "Connection \<Rightarrow> StreamId \<Rightarrow> RequestId \<Rightarrow> u64 \<Rightarrow> effects \<times> Connection" where
  "connection_read_stream self stream_id request_id max_size =
    on_stream self stream_id (\<lambda>session. read_stream session stream_id request_id max_size)
      ([stream_resolve_failure request_id], self)"

definition abort_session_stream :: "Connection \<Rightarrow> StreamId \<Rightarrow> ErrorCode \<Rightarrow> f64 \<Rightarrow> effects \<times> Connection" where
  "abort_session_stream self stream_id error_code now =
    on_session self stream_id (\<lambda>session. session_abort session error_code ''wt_session abort'' now) ([], self)"

definition connection_recv_stop_sending :: "Connection \<Rightarrow> StreamId \<Rightarrow> ErrorCode \<Rightarrow> f64 \<Rightarrow> effects \<times> Connection" where
  "connection_recv_stop_sending self stream_id error_code now =
    on_stream self stream_id (\<lambda>session. session_recv_stop_sending session stream_id error_code)
      (abort_session_stream self stream_id error_code now)"

definition connection_recv_stream_data ::
    "Connection \<Rightarrow> StreamId \<Rightarrow> bytes \<Rightarrow> bool \<Rightarrow> f64 \<Rightarrow> effects \<times> Connection" where
  "connection_recv_stream_data self stream_id data fin now =
    on_stream self stream_id (\<lambda>session. recv_stream_data session stream_id data fin now) ([], self)"

definition connection_recv_stream_reset :: "Connection \<Rightarrow> StreamId \<Rightarrow> ErrorCode \<Rightarrow> f64 \<Rightarrow> effects \<times> Connection" where
  "connection_recv_stream_reset self stream_id error_code now =
    on_stream self stream_id (\<lambda>session. recv_stream_reset session stream_id error_code)
      (abort_session_stream self stream_id error_code now)"

definition connection_reset_stream :: "Connection \<Rightarrow> StreamId \<Rightarrow> RequestId \<Rightarrow> ErrorCode \<Rightarrow> effects \<times> Connection" where
  "connection_reset_stream self stream_id request_id error_code =
    on_stream self stream_id (\<lambda>session. reset_stream session stream_id request_id error_code)
      ([NotifyRequestDone request_id ResultNone], self)"

definition connection_stop_stream :: "Connection \<Rightarrow> StreamId \<Rightarrow> RequestId \<Rightarrow> ErrorCode \<Rightarrow> effects \<times> Connection" where
  "connection_stop_stream self stream_id request_id error_code =
    on_stream self stream_id (\<lambda>session. stop_stream session stream_id request_id error_code)
      ([NotifyRequestDone request_id ResultNone], self)"

definition connection_write_stream ::
    "Connection \<Rightarrow> StreamId \<Rightarrow> RequestId \<Rightarrow> bytes \<Rightarrow> bool \<Rightarrow> effects \<times> Connection" where
  "connection_write_stream self stream_id request_id data end_stream =
    on_stream self stream_id (\<lambda>session. write_stream session stream_id request_id data end_stream)
      (if data = [] \<and> end_stream then [NotifyRequestDone request_id ResultNone]
       else [stream_resolve_failure request_id], self)"

subsection \<open>Events of sessions that do not exist yet\<close>

definition reject_buffered_stream :: "StreamId \<Rightarrow> effects" where
  "reject_buffered_stream stream_id =
    (if is_unidirectional_stream stream_id then [StopQuicStream stream_id ERR_WT_BUFFERED_STREAM_REJECTED]
     else [ResetQuicStream stream_id ERR_WT_BUFFERED_STREAM_REJECTED,
           StopQuicStream stream_id ERR_WT_BUFFERED_STREAM_REJECTED])"

definition early_events :: "Connection \<Rightarrow> SessionId \<Rightarrow> (f64 \<times> ProtocolEvent) list" where
  "early_events self session_id =
    (case fmlookup (con_early_event_buffer self) session_id of None \<Rightarrow> [] | Some events \<Rightarrow> events)"

definition buffer_early_event :: "Connection \<Rightarrow> SessionId \<Rightarrow> ProtocolEvent \<Rightarrow> f64 \<Rightarrow> bool \<times> Connection" where
  "buffer_early_event self session_id event now =
    (if of_nat (con_early_event_count self) \<ge> con_max_connection_pending_events self then (False, self)
     else
       (let session_buffer = early_events self session_id;
            self = self\<lparr>con_early_event_buffer := fmupd session_id session_buffer (con_early_event_buffer self)\<rparr>
        in if len64 session_buffer \<ge> con_max_session_pending_events self then (False, self)
           else (True, self\<lparr>con_early_event_buffer :=
                              fmupd session_id (session_buffer @ [(now, event)]) (con_early_event_buffer self),
                            con_early_event_count := con_early_event_count self + 1\<rparr>)))"

definition connection_stream_opened :: "Connection \<Rightarrow> SessionId \<Rightarrow> StreamId \<Rightarrow> f64 \<Rightarrow> effects \<times> Connection" where
  "connection_stream_opened self session_id stream_id now =
    (case fmlookup (con_sessions self) session_id of
       Some session \<Rightarrow> adopt_stream self session_id stream_id (handle_stream_opened session stream_id now)
     | None \<Rightarrow>
         (let (buffered, self) =
                buffer_early_event self session_id (H3WebTransportStreamOpened session_id stream_id) now
          in (if buffered then [] else reject_buffered_stream stream_id, self)))"

definition connection_recv_datagram :: "Connection \<Rightarrow> SessionId \<Rightarrow> bytes \<Rightarrow> f64 \<Rightarrow> effects \<times> Connection" where
  "connection_recv_datagram self session_id data now =
    on_session self session_id (\<lambda>session. recv_datagram session data)
      ([], snd (buffer_early_event self session_id (H3DatagramReceived session_id data) now))"

definition replay_event :: "bool \<Rightarrow> ProtocolEvent \<Rightarrow> f64 \<Rightarrow> Connection \<Rightarrow> effects \<times> Connection" where
  "replay_event is_session_present event now self =
    (case event of
       H3DatagramReceived session_id data \<Rightarrow>
         if is_session_present then connection_recv_datagram self session_id data now else ([], self)
     | H3WebTransportStreamOpened session_id stream_id \<Rightarrow>
         if is_session_present then connection_stream_opened self session_id stream_id now
         else (reject_buffered_stream stream_id, self)
     | _ \<Rightarrow> ([], self))"

fun replay_each :: "bool \<Rightarrow> (f64 \<times> ProtocolEvent) list \<Rightarrow> f64 \<Rightarrow> Connection \<Rightarrow> effects \<times> Connection" where
  "replay_each is_session_present [] now self = ([], self)"
| "replay_each is_session_present (event # events) now self =
    (let (effects, self) = replay_event is_session_present (snd event) now self;
         (more, self) = replay_each is_session_present events now self
     in (effects @ more, self))"

definition replay_early_events :: "Connection \<Rightarrow> SessionId \<Rightarrow> f64 \<Rightarrow> effects \<times> Connection" where
  "replay_early_events self session_id now =
    (case fmlookup (con_early_event_buffer self) session_id of
       None \<Rightarrow> ([], self)
     | Some events \<Rightarrow>
         (let self = self\<lparr>con_early_event_buffer := fmdrop session_id (con_early_event_buffer self),
                          con_early_event_count := con_early_event_count self - length events\<rparr>
          in replay_each (session_id |\<in>| fmdom (con_sessions self)) events now self))"

text \<open>Expiry.  A session whose events have all expired leaves the buffer.\<close>

definition expired_effects :: "ProtocolEvent \<Rightarrow> effects" where
  "expired_effects event =
    (case event of H3WebTransportStreamOpened _ stream_id \<Rightarrow> reject_buffered_stream stream_id | _ \<Rightarrow> [])"

fun prune_each :: "SessionId list \<Rightarrow> f64 \<Rightarrow> Connection \<Rightarrow> effects \<times> Connection" where
  "prune_each [] now self = ([], self)"
| "prune_each (session_id # session_ids) now self =
    (let events = early_events self session_id;
         is_valid = (\<lambda>(timestamp, event). now - timestamp < con_early_event_ttl self);
         valid_events = filter is_valid events;
         expired = filter (\<lambda>entry. \<not> is_valid entry) events;
         self = self\<lparr>con_early_event_count := con_early_event_count self - length expired,
                     con_early_event_buffer :=
                       (if valid_events = [] then fmdrop session_id (con_early_event_buffer self)
                        else fmupd session_id valid_events (con_early_event_buffer self))\<rparr>;
         (more, self) = prune_each session_ids now self
     in (concat (map (expired_effects \<circ> snd) expired) @ more, self))"

definition prune_early_events :: "Connection \<Rightarrow> f64 \<Rightarrow> effects \<times> Connection" where
  "prune_early_events self now = prune_each (sorted_keys (con_early_event_buffer self)) now self"

definition prune_resources :: "Connection \<Rightarrow> Connection" where
  "prune_resources self =
    (let closed = (\<lambda>session_id. is_session_closed self session_id)
     in self\<lparr>con_sessions := fmfilter (\<lambda>session_id. \<not> closed session_id) (con_sessions self),
             con_stream_map := fmfilter
               (\<lambda>stream_id. case fmlookup (con_stream_map self) stream_id of
                  None \<Rightarrow> False | Some session_id \<Rightarrow> \<not> closed session_id) (con_stream_map self)\<rparr>)"

end
