(* ===== verification/Connection_Setup.thy ===== *)
theory Connection_Setup
  imports WtConnection
begin

text \<open>
  The operations of \<open>protocol/connection.rs\<close> that set sessions up (\<open>create_session\<close>,
  \<open>bind_session\<close>, \<open>recv_headers\<close>) and that open, drain and close the connection itself, and
  the dispatch of \<open>protocol/engine.rs\<close> to the operations of a connection.
\<close>

subsection \<open>Opening and closing\<close>

definition connection_open :: "Connection \<Rightarrow> f64 \<Rightarrow> effects \<times> Connection" where
  "connection_open self now =
    ([EmitConnectionEvent (con_handle self) ConnectionEstablished None None]
       @ (case con_request_id self of
            None \<Rightarrow> []
          | Some request_id \<Rightarrow> [NotifyRequestDone request_id (RequestResult.ConnectionHandle (con_handle self))]),
     self\<lparr>con_connected_at := Some now, con_state := ConnectionState.Connected, con_request_id := None\<rparr>)"

definition handle_handshake_completed :: "Connection \<Rightarrow> f64 \<Rightarrow> effects \<times> Connection" where
  "handle_handshake_completed self now =
    (let self = (if con_state self = ConnectionState.Idle
                 then self\<lparr>con_state := ConnectionState.Connecting\<rparr> else self)
     in if con_state self \<noteq> ConnectionState.Connecting then ([], self)
        else
          (let self = self\<lparr>con_handshake_completed := True\<rparr>
           in if \<not> con_is_client self \<or> con_peer_settings_received self then
                (let (effects, self) = connection_open self now in (CreateH3LocalStreams # effects, self))
              else ([CreateH3LocalStreams], self)))"

definition or_keep :: "'a option \<Rightarrow> 'a \<Rightarrow> 'a" where
  "or_keep v old = (case v of None \<Rightarrow> old | Some new \<Rightarrow> new)"

definition recv_settings :: "Connection \<Rightarrow> H3Settings \<Rightarrow> f64 \<Rightarrow> effects \<times> Connection" where
  "recv_settings self settings now =
    (let self = self\<lparr>con_peer_settings_received := True,
                     con_peer_initial_max_data :=
                       or_keep (set_wt_initial_max_data settings) (con_peer_initial_max_data self),
                     con_peer_initial_max_streams_bidi :=
                       or_keep (set_wt_initial_max_streams_bidi settings) (con_peer_initial_max_streams_bidi self),
                     con_peer_initial_max_streams_uni :=
                       or_keep (set_wt_initial_max_streams_uni settings) (con_peer_initial_max_streams_uni self)\<rparr>
     in if con_state self = ConnectionState.Connecting \<and> con_handshake_completed self
        then connection_open self now else ([], self))"

definition recv_transport_parameters :: "Connection \<Rightarrow> u64 \<Rightarrow> effects \<times> Connection" where
  "recv_transport_parameters self peer_max_datagram_frame_size =
    ([], self\<lparr>con_peer_max_datagram_frame_size := Some peer_max_datagram_frame_size\<rparr>)"

definition option_done :: "RequestId option \<Rightarrow> effects" where
  "option_done request_id = (case request_id of None \<Rightarrow> [] | Some r \<Rightarrow> [NotifyRequestDone r ResultNone])"

definition connection_close ::
    "Connection \<Rightarrow> RequestId option \<Rightarrow> ErrorCode \<Rightarrow> string option \<Rightarrow> f64 \<Rightarrow> effects \<times> Connection" where
  "connection_close self request_id error_code reason now =
    (if con_state self \<in> {ConnectionState.Closed, ConnectionState.Closing} then (option_done request_id, self)
     else (CloseQuicConnection error_code reason # option_done request_id,
           self\<lparr>con_close_code := Some error_code, con_close_reason := reason, con_closed_at := Some now,
                con_state := ConnectionState.Closing\<rparr>))"

definition goaway_identifier :: "Connection \<Rightarrow> u64" where
  "goaway_identifier self =
    (if con_is_client self then 0
     else min (case sorted_keys (con_sessions self) of
                 [] \<Rightarrow> 0
               | k # ks \<Rightarrow> saturating_add (fold max ks k) QUIC_STREAM_TYPE_COUNT) QUIC_VARINT_LIMIT)"

definition close_gracefully :: "Connection \<Rightarrow> RequestId \<Rightarrow> effects \<times> Connection" where
  "close_gracefully self request_id =
    (if con_state self \<noteq> ConnectionState.Connected then ([NotifyRequestDone request_id ResultNone], self)
     else
       (let goaway = (if con_local_goaway_sent self then [] else [SendH3Goaway (goaway_identifier self)]);
            (effects, self) = on_all_sessions (self\<lparr>con_local_goaway_sent := True\<rparr>) session_drain
        in (goaway @ effects @ [NotifyRequestDone request_id ResultNone], self)))"

definition handle_terminated :: "Connection \<Rightarrow> ErrorCode \<Rightarrow> string \<Rightarrow> f64 \<Rightarrow> effects \<times> Connection" where
  "handle_terminated self error_code reason now =
    (if con_state self = ConnectionState.Closed then ([], self)
     else
       (let was_closing = con_state self = ConnectionState.Closing;
            request_ids = sort (sorted_keys (con_session_requests self)
              @ (case con_request_id self of None \<Rightarrow> [] | Some r \<Rightarrow> [r]));
            failure_reason = (if was_closing then ''wt_connection close'' else ''wt_connection abort'');
            self = (if was_closing then self
                    else self\<lparr>con_close_code := Some error_code, con_close_reason := Some reason,
                              con_closed_at := Some now\<rparr>);
            self = self\<lparr>con_state := ConnectionState.Closed, con_session_requests := fmempty,
                        con_request_id := None, con_blocked_session_requests := [],
                        con_pending_session_requests := fmempty\<rparr>;
            (effects, self) = on_all_sessions self (\<lambda>session. recv_connect_close session error_code reason now)
        in (effects
            @ [EmitConnectionEvent (con_handle self) ConnectionClosed (Some error_code) (Some reason)]
            @ map (\<lambda>request_id. NotifyRequestFailed request_id ErrorSource.Connection
                     (Some ERR_LIB_CONNECTION_STATE_ERROR) failure_reason) request_ids, self)))"

definition connection_diagnose :: "Connection \<Rightarrow> RequestId \<Rightarrow> effects" where
  "connection_diagnose self request_id =
    [NotifyRequestDone request_id (RequestResult.ConnectionDiagnostics (connection_diagnostics_snapshot self))]"

subsection \<open>Session requests of the client\<close>

definition connection_failure :: "RequestId \<Rightarrow> ErrorCode option \<Rightarrow> string \<Rightarrow> Effect" where
  "connection_failure request_id error_code reason =
    NotifyRequestFailed request_id ErrorSource.Connection error_code reason"

definition create_session :: "Connection \<Rightarrow> RequestId \<Rightarrow> SessionRequest \<Rightarrow> effects \<times> Connection" where
  "create_session self request_id session_request =
    (if \<not> con_is_client self then
       ([connection_failure request_id None ''wt_connection validate failed''], self)
     else if con_state self \<noteq> ConnectionState.Connected \<or> con_peer_goaway_received self then
       ([connection_failure request_id (Some ERR_LIB_CONNECTION_STATE_ERROR) ''wt_connection validate failed''], self)
     else if active_limit self > 0
          \<and> of_nat (map_len (con_sessions self) + map_len (con_session_requests self)) \<ge> active_limit self then
       ([connection_failure request_id (Some ERR_LIB_CONNECTION_STATE_ERROR) ''wt_session validate exceeded''], self)
     else if \<not> is_valid_user_headers (srq_headers session_request) True then
       ([connection_failure request_id None ''h3_headers validate invalid''], self)
     else
       (case (case srq_wt_available_protocols session_request of
                None \<Rightarrow> Inr (srq_headers session_request)
              | Some protocols \<Rightarrow>
                  (case encode_wt_protocol_list protocols of
                     Inl e \<Rightarrow> Inl e
                   | Inr encoded \<Rightarrow> Inr (srq_headers session_request @ [(WT_AVAILABLE_PROTOCOLS, encoded)]))) of
          Inl _ \<Rightarrow> ([connection_failure request_id None ''wt_available_protocols encode failed''], self)
        | Inr headers \<Rightarrow>
            ([CreateH3ConnectStream request_id (srq_authority session_request) (srq_path session_request) headers],
             self\<lparr>con_session_requests :=
                    fmupd request_id (session_request\<lparr>srq_headers := headers\<rparr>) (con_session_requests self)\<rparr>)))"

definition defer_session :: "Connection \<Rightarrow> RequestId \<Rightarrow> effects \<times> Connection" where
  "defer_session self request_id =
    ([], self\<lparr>con_blocked_session_requests := con_blocked_session_requests self @ [request_id]\<rparr>)"

definition fail_session :: "Connection \<Rightarrow> RequestId \<Rightarrow> ErrorCode option \<Rightarrow> string \<Rightarrow> effects \<times> Connection" where
  "fail_session self request_id error_code reason =
    ([NotifyRequestFailed request_id ErrorSource.Session error_code reason],
     self\<lparr>con_session_requests := fmdrop request_id (con_session_requests self)\<rparr>)"

definition request_session :: "Connection \<Rightarrow> StreamId \<Rightarrow> SessionRequest \<Rightarrow> Session" where
  "request_session self stream_id session_request =
    session_new stream_id (srq_path session_request) (srq_headers session_request)
      (srq_wt_available_protocols session_request) (con_is_client self) (session_parameters self)
      (srq_created_at session_request)"

definition bind_session :: "Connection \<Rightarrow> StreamId \<Rightarrow> RequestId \<Rightarrow> effects \<times> Connection" where
  "bind_session self stream_id request_id =
    (let self = self\<lparr>con_pending_session_requests :=
                       fmupd stream_id request_id (con_pending_session_requests self)\<rparr>
     in case fmlookup (con_session_requests self) request_id of
          None \<Rightarrow> ([], self)
        | Some session_request \<Rightarrow>
            if \<not> srq_optimistic session_request then ([], self)
            else
              (let self = self\<lparr>con_session_requests := fmdrop request_id (con_session_requests self)\<rparr>;
                   session = request_session self stream_id session_request
               in ([EmitSessionEvent stream_id SessionPending
                      (no_fields\<lparr>ev_path := Some (srq_path session_request),
                                 ev_headers := Some (srq_headers session_request)\<rparr>),
                    NotifyRequestDone request_id (RequestResult.SessionId stream_id)],
                   self\<lparr>con_sessions := fmupd stream_id session (con_sessions self)\<rparr>)))"

definition recv_goaway :: "Connection \<Rightarrow> effects \<times> Connection" where
  "recv_goaway self =
    (let blocked = con_blocked_session_requests self;
         failures = map (\<lambda>request_id. connection_failure request_id (Some ERR_LIB_CONNECTION_STATE_ERROR)
           ''wt_connection validate failed'') blocked;
         self = self\<lparr>con_peer_goaway_received := True, con_blocked_session_requests := [],
                     con_session_requests := fold fmdrop blocked (con_session_requests self)\<rparr>;
         (effects, self) = on_all_sessions self session_drain
     in (failures @ effects, self))"

definition retry_session :: "Connection \<Rightarrow> RequestId \<Rightarrow> effects" where
  "retry_session self request_id =
    (case fmlookup (con_session_requests self) request_id of
       None \<Rightarrow> []
     | Some session_request \<Rightarrow>
         [CreateH3ConnectStream request_id (srq_authority session_request) (srq_path session_request)
            (srq_headers session_request)])"

definition recv_max_streams :: "Connection \<Rightarrow> bool \<Rightarrow> effects \<times> Connection" where
  "recv_max_streams self is_unidirectional =
    (let retries = (if is_unidirectional then []
                    else concat (map (retry_session self) (con_blocked_session_requests self)));
         self = (if is_unidirectional then self else self\<lparr>con_blocked_session_requests := []\<rparr>);
         (effects, self) = on_all_sessions self (\<lambda>session. flush_blocked_stream_requests session is_unidirectional)
     in (retries @ effects, self))"

subsection \<open>Headers of a CONNECT stream\<close>

definition refuse_response ::
    "Connection \<Rightarrow> StreamId \<Rightarrow> RequestId \<Rightarrow> ErrorCode \<Rightarrow> string \<Rightarrow> f64 \<Rightarrow> effects \<times> Connection" where
  "refuse_response self stream_id request_id error_code reason now =
    on_session self stream_id (\<lambda>session. session_abort session error_code reason now)
      ([NotifyRequestFailed request_id ErrorSource.Session (Some error_code) reason,
        StopQuicStream stream_id error_code, ResetQuicStream stream_id error_code],
       self\<lparr>con_session_requests := fmdrop request_id (con_session_requests self)\<rparr>)"

definition confirm_response ::
    "Connection \<Rightarrow> StreamId \<Rightarrow> RequestId \<Rightarrow> string option \<Rightarrow> f64 \<Rightarrow> effects \<times> Connection" where
  "confirm_response self stream_id request_id wt_protocol now =
    on_session self stream_id (\<lambda>session. session_confirm session wt_protocol now)
      (case fmlookup (con_session_requests self) request_id of
         None \<Rightarrow> ([], self)
       | Some session_request \<Rightarrow>
           (let self = self\<lparr>con_session_requests := fmdrop request_id (con_session_requests self)\<rparr>;
                (effects, self) = put_session self stream_id
                  (session_confirm (request_session self stream_id session_request) wt_protocol now)
            in (effects @ [NotifyRequestDone request_id (RequestResult.SessionId stream_id)], self)))"

definition then_replay :: "effects \<times> Connection \<Rightarrow> SessionId \<Rightarrow> f64 \<Rightarrow> effects \<times> Connection" where
  "then_replay outcome session_id now =
    (let (effects, self) = outcome; (more, self) = replay_early_events self session_id now
     in (effects @ more, self))"

definition recv_response ::
    "Connection \<Rightarrow> StreamId \<Rightarrow> RequestId \<Rightarrow> string list option \<Rightarrow> Headers \<Rightarrow> f64 \<Rightarrow> effects \<times> Connection" where
  "recv_response self stream_id request_id wt_available_protocols headers now =
    (if find_header headers (bstr '':status'') = Some (bstr ''200'') then
       (let wt_protocol = Option.bind (combine_header headers WT_PROTOCOL) parse_wt_protocol_string;
            is_valid = (case wt_available_protocols of
                          None \<Rightarrow> True
                        | Some available \<Rightarrow>
                            (case wt_protocol of None \<Rightarrow> False | Some protocol \<Rightarrow> protocol \<in> set available))
        in if \<not> is_valid then
             refuse_response self stream_id request_id ERR_WT_ALPN_ERROR ''wt_protocol validate invalid'' now
           else then_replay (confirm_response self stream_id request_id wt_protocol now) stream_id now)
     else
       (let self = self\<lparr>con_session_requests := fmdrop request_id (con_session_requests self)\<rparr>
        in then_replay (refuse_response self stream_id request_id ERR_H3_REQUEST_REJECTED ''wt_session abort'' now)
             stream_id now))"

definition client_headers :: "Connection \<Rightarrow> StreamId \<Rightarrow> Headers \<Rightarrow> f64 \<Rightarrow> effects \<times> Connection" where
  "client_headers self stream_id headers now =
    (case fmlookup (con_pending_session_requests self) stream_id of
       None \<Rightarrow> ([], self)
     | Some request_id \<Rightarrow>
         (let self = self\<lparr>con_pending_session_requests := fmdrop stream_id (con_pending_session_requests self)\<rparr>
          in case fmlookup (con_sessions self) stream_id of
               Some session \<Rightarrow>
                 recv_response self stream_id request_id (ses_wt_available_protocols session) headers now
             | None \<Rightarrow>
                 (case fmlookup (con_session_requests self) request_id of
                    None \<Rightarrow>
                      ([NotifyRequestFailed request_id ErrorSource.Unspecified (Some ERR_LIB_INTERNAL_ERROR)
                          ''wt_session resolve failed''], self)
                  | Some session_request \<Rightarrow>
                      recv_response self stream_id request_id (srq_wt_available_protocols session_request)
                        headers now)))"

definition refuse_request :: "StreamId \<Rightarrow> string \<Rightarrow> effects" where
  "refuse_request stream_id status =
    [SendH3Headers stream_id [(bstr '':status'', bstr status)] True,
     StopQuicStream stream_id ERR_H3_REQUEST_REJECTED]"

definition server_headers :: "Connection \<Rightarrow> StreamId \<Rightarrow> Headers \<Rightarrow> f64 \<Rightarrow> effects \<times> Connection" where
  "server_headers self stream_id headers now =
    (if stream_id |\<in>| fmdom (con_sessions self) then ([], self)
     else if con_state self \<noteq> ConnectionState.Connected \<or> con_local_goaway_sent self
          \<or> active_limit self > 0 \<and> of_nat (map_len (con_sessions self)) \<ge> active_limit self then
       (refuse_request stream_id ''429'', self)
     else if find_header headers (bstr '':method'') \<noteq> Some (bstr ''CONNECT'')
          \<or> find_header headers (bstr '':protocol'') \<noteq> Some WT_UPGRADE_TOKEN then
       (refuse_request stream_id ''400'', self)
     else
       (let path = (case find_header headers (bstr '':path'') of
                      None \<Rightarrow> ''/''
                    | Some path \<Rightarrow> if utf8_valid path then from_bytes path else ''/'');
            wt_available_protocols =
              Option.bind (combine_header headers WT_AVAILABLE_PROTOCOLS) parse_wt_protocol_list;
            session = session_new stream_id path headers wt_available_protocols (con_is_client self)
              (session_parameters self) now;
            event = EmitSessionEvent stream_id SessionRequestReceived
              (no_fields\<lparr>ev_path := Some path, ev_headers := Some headers,
                         ev_wt_available_protocols := wt_available_protocols\<rparr>)
        in then_replay ([event], self\<lparr>con_sessions := fmupd stream_id session (con_sessions self)\<rparr>) stream_id now))"

definition recv_headers :: "Connection \<Rightarrow> StreamId \<Rightarrow> Headers \<Rightarrow> f64 \<Rightarrow> effects \<times> Connection" where
  "recv_headers self stream_id headers now =
    (if con_is_client self then client_headers self stream_id headers now
     else server_headers self stream_id headers now)"

end
