(* ===== verification/Connection_Machine.thy ===== *)
theory Connection_Machine
  imports Connection_Setup
begin

text \<open>
  The connection as a machine: the dispatch of \<open>WebTransportEngine::handle_event\<close>
  (\<open>protocol/engine.rs\<close>) to the operations of a connection.  Events that the engine gives to the
  HTTP/3 layer only leave the connection alone.
\<close>

definition session_request ::
    "string \<Rightarrow> string \<Rightarrow> Headers \<Rightarrow> string list option \<Rightarrow> bool \<Rightarrow> f64 \<Rightarrow> SessionRequest" where
  "session_request authority path headers wt_available_protocols optimistic now =
    \<lparr>srq_authority = authority, srq_created_at = now, srq_headers = headers, srq_optimistic = optimistic,
     srq_path = path, srq_wt_available_protocols = wt_available_protocols\<rparr>"

primrec connection_event :: "ProtocolEvent \<Rightarrow> f64 \<Rightarrow> Connection \<Rightarrow> effects \<times> Connection" where
  "connection_event (H3CapsuleReceived sid ct v) now c = connection_recv_capsule c sid ct v now"
| "connection_event (H3ConnectStreamClosed sid) now c = connection_recv_connect_close c sid now"
| "connection_event (H3DatagramReceived i d) now c = connection_recv_datagram c i d now"
| "connection_event H3GoawayReceived now c = recv_goaway c"
| "connection_event (H3HeadersReceived sid hs) now c = recv_headers c sid hs now"
| "connection_event (H3SettingsReceived settings) now c = recv_settings c settings now"
| "connection_event (H3WebTransportStreamOpened i sid) now c = connection_stream_opened c i sid now"
| "connection_event (InternalBindH3ConnectStream r sid) now c = bind_session c sid r"
| "connection_event (InternalBindH3LocalStreams x y z) now c = ([], c)"
| "connection_event (InternalBindQuicStream r sid i u) now c = connection_bind_stream c i sid r u now"
| "connection_event InternalCleanupEarlyEvents now c = prune_early_events c now"
| "connection_event InternalCleanupResources now c = ([], prune_resources c)"
| "connection_event InternalCloseConnection now c = connection_close c None ERR_H3_NO_ERROR None now"
| "connection_event (InternalCompleteQuicData sid) now c = connection_complete_stream_write c sid"
| "connection_event (InternalDeferH3ConnectStream r) now c = defer_session c r"
| "connection_event (InternalDeferQuicStream r i u) now c = connection_defer_stream c i r u"
| "connection_event (InternalFailH3ConnectStream r ec m) now c = fail_session c r ec m"
| "connection_event InternalFailH3LocalStreams now c = ([], c)"
| "connection_event (TransportConnectionTerminated ec m) now c = handle_terminated c ec m now"
| "connection_event (TransportDatagramReceived d) now c = ([], c)"
| "connection_event TransportHandshakeCompleted now c = handle_handshake_completed c now"
| "connection_event (TransportMaxStreamsReceived u) now c = recv_max_streams c u"
| "connection_event (TransportQuicParametersReceived n) now c = recv_transport_parameters c n"
| "connection_event (TransportResetStreamReceived sid ec) now c = connection_recv_stream_reset c sid ec now"
| "connection_event (TransportStopSendingReceived sid ec) now c = connection_recv_stop_sending c sid ec now"
| "connection_event (TransportStreamDataAcknowledged sid) now c = handle_stream_data_acknowledged c sid"
| "connection_event (TransportStreamDataReceived sid d e) now c = connection_recv_stream_data c sid d e now"
| "connection_event (TransportStreamOpened sid) now c = ([], c)"
| "connection_event (UserAcceptSession r i hs p) now c = accept_session c i r hs p now"
| "connection_event (UserCloseConnection r ec m) now c = connection_close c (Some r) ec m now"
| "connection_event (UserCloseConnectionGracefully r) now c = close_gracefully c r"
| "connection_event (UserCloseSession r i ec m) now c = close_session c i r ec m now"
| "connection_event (UserCreateSession r a p hs ps) now c = create_session c r (session_request a p hs ps False now)"
| "connection_event (UserCreateSessionOptimistic r a p hs ps) now c = create_session c r (session_request a p hs ps True now)"
| "connection_event (UserCreateStream r i u) now c = connection_create_stream c i r u"
| "connection_event (UserDiagnoseConnection r) now c = (connection_diagnose c r, c)"
| "connection_event (UserDiagnoseSession r i) now c = (diagnose_session c i r, c)"
| "connection_event (UserDiagnoseStream r sid) now c = (connection_diagnose_stream c sid r, c)"
| "connection_event (UserExportKeyingMaterial r i l x n) now c = (connection_export_keying_material c i r l x n, c)"
| "connection_event (UserReadDatagram r i) now c = connection_read_datagram c i r"
| "connection_event (UserReadStream r sid n) now c = connection_read_stream c sid r n"
| "connection_event (UserRejectSession r i hs sc) now c = reject_session c i r hs sc now"
| "connection_event (UserResetStream r sid ec) now c = connection_reset_stream c sid r ec"
| "connection_event (UserSendDatagram r i d) now c = connection_send_datagram c i r d"
| "connection_event (UserStopSending r sid ec) now c = connection_stop_stream c sid r ec"
| "connection_event (UserWriteStream r sid d e) now c = connection_write_stream c sid r d e"

text \<open>The requests an event submits; a stream that was handed to the transport comes back with its
  request, while a CONNECT stream's request stays in the table of session requests.\<close>

primrec event_submits :: "ProtocolEvent \<Rightarrow> RequestId list" where
  "event_submits (H3CapsuleReceived x0 x1 x2) = []"
| "event_submits (H3ConnectStreamClosed x0) = []"
| "event_submits (H3DatagramReceived x0 x1) = []"
| "event_submits H3GoawayReceived = []"
| "event_submits (H3HeadersReceived x0 x1) = []"
| "event_submits (H3SettingsReceived x0) = []"
| "event_submits (H3WebTransportStreamOpened x0 x1) = []"
| "event_submits (InternalBindH3ConnectStream x0 x1) = []"
| "event_submits (InternalBindH3LocalStreams x0 x1 x2) = []"
| "event_submits (InternalBindQuicStream r x1 x2 x3) = [r]"
| "event_submits InternalCleanupEarlyEvents = []"
| "event_submits InternalCleanupResources = []"
| "event_submits InternalCloseConnection = []"
| "event_submits (InternalCompleteQuicData x0) = []"
| "event_submits (InternalDeferH3ConnectStream x0) = []"
| "event_submits (InternalDeferQuicStream r x1 x2) = [r]"
| "event_submits (InternalFailH3ConnectStream x0 x1 x2) = []"
| "event_submits InternalFailH3LocalStreams = []"
| "event_submits (TransportConnectionTerminated x0 x1) = []"
| "event_submits (TransportDatagramReceived x0) = []"
| "event_submits TransportHandshakeCompleted = []"
| "event_submits (TransportMaxStreamsReceived x0) = []"
| "event_submits (TransportQuicParametersReceived x0) = []"
| "event_submits (TransportResetStreamReceived x0 x1) = []"
| "event_submits (TransportStopSendingReceived x0 x1) = []"
| "event_submits (TransportStreamDataAcknowledged x0) = []"
| "event_submits (TransportStreamDataReceived x0 x1 x2) = []"
| "event_submits (TransportStreamOpened x0) = []"
| "event_submits (UserAcceptSession r x1 x2 x3) = [r]"
| "event_submits (UserCloseConnection r x1 x2) = [r]"
| "event_submits (UserCloseConnectionGracefully r) = [r]"
| "event_submits (UserCloseSession r x1 x2 x3) = [r]"
| "event_submits (UserCreateSession r x1 x2 x3 x4) = [r]"
| "event_submits (UserCreateSessionOptimistic r x1 x2 x3 x4) = [r]"
| "event_submits (UserCreateStream r x1 x2) = [r]"
| "event_submits (UserDiagnoseConnection r) = [r]"
| "event_submits (UserDiagnoseSession r x1) = [r]"
| "event_submits (UserDiagnoseStream r x1) = [r]"
| "event_submits (UserExportKeyingMaterial r x1 x2 x3 x4) = [r]"
| "event_submits (UserReadDatagram r x1) = [r]"
| "event_submits (UserReadStream r x1 x2) = [r]"
| "event_submits (UserRejectSession r x1 x2 x3) = [r]"
| "event_submits (UserResetStream r x1 x2) = [r]"
| "event_submits (UserSendDatagram r x1 x2) = [r]"
| "event_submits (UserStopSending r x1 x2) = [r]"
| "event_submits (UserWriteStream r x1 x2 x3) = [r]"

end
