(* ===== verification/Connection_Invariants.thy ===== *)
theory Connection_Invariants
  imports Session_Tables Connection_Machine
begin

text \<open>
  The invariant of a connection.  Its sessions are in states their own machine reaches
  (\<open>session_reachable\<close>); the table of streams finds every stream of every session; the buffer of
  early events is counted, bounded and holds each stream once; the requests for sessions that are
  being set up are accounted for; a closed connection holds nothing; and the number of sessions
  is limited.
\<close>

inductive session_reachable :: "Session \<Rightarrow> bool" where
  created: "unat (ssp_max_write_buffer_size p) < 2 ^ 63 \<Longrightarrow> session_reachable (session_new i path hs ps client p now)"
| called: "session_reachable s \<Longrightarrow> session_call_ok c s \<Longrightarrow> session_reachable (snd (session_call c s))"

lemma reachable_inv: "session_reachable s \<Longrightarrow> session_inv s"
proof (induction rule: session_reachable.induct)
  case (created p i path hs ps client now)
  then show ?case by (rule session_new_inv)
next
  case (called s c)
  then show ?case using session_call_keeps keeps_inv by blast
qed

subsection \<open>The parts\<close>

definition sessions_ok :: "Connection \<Rightarrow> bool" where
  "sessions_ok c \<longleftrightarrow> unat (con_max_write_buffer_size c) < 2 ^ 63
    \<and> (\<forall>i s. fmlookup (con_sessions c) i = Some s \<longrightarrow>
         session_reachable s \<and> ses_id s = i \<and> ses_is_client s = con_is_client c)"

definition table_ok :: "Connection \<Rightarrow> bool" where
  "table_ok c \<longleftrightarrow>
    (\<forall>i s sid. fmlookup (con_sessions c) i = Some s \<longrightarrow> sid \<in> sids s \<longrightarrow> fmlookup (con_stream_map c) sid = Some i)
    \<and> (\<forall>sid i. fmlookup (con_stream_map c) sid = Some i \<longrightarrow> i |\<in>| fmdom (con_sessions c))"

definition early_stream :: "ProtocolEvent \<Rightarrow> StreamId list" where
  "early_stream e = (case e of H3WebTransportStreamOpened i sid \<Rightarrow> [sid] | _ \<Rightarrow> [])"

definition early_event_of :: "SessionId \<Rightarrow> ProtocolEvent \<Rightarrow> bool" where
  "early_event_of i e \<longleftrightarrow>
    (case e of H3WebTransportStreamOpened j sid \<Rightarrow> j = i | H3DatagramReceived j d \<Rightarrow> j = i | _ \<Rightarrow> False)"

lemma early_simps [simp]:
  "early_stream (H3WebTransportStreamOpened i sid) = [sid]" "early_stream (H3DatagramReceived i d) = []"
  "early_event_of i (H3WebTransportStreamOpened j sid) \<longleftrightarrow> j = i" "early_event_of i (H3DatagramReceived j d) \<longleftrightarrow> j = i"
  by (simp_all add: early_stream_def early_event_of_def)

definition early_sids :: "(f64 \<times> ProtocolEvent) list \<Rightarrow> StreamId list" where
  "early_sids es = concat (map (early_stream \<circ> snd) es)"

definition buffer_ok :: "Connection \<Rightarrow> bool" where
  "buffer_ok c \<longleftrightarrow> con_early_event_count c = fm_sum (\<lambda>_. length) (con_early_event_buffer c)
    \<and> con_early_event_count c \<le> unat (con_max_connection_pending_events c)
    \<and> (\<forall>i es. fmlookup (con_early_event_buffer c) i = Some es \<longrightarrow>
         length es \<le> unat (con_max_session_pending_events c) \<and> (\<forall>e\<in>set es. early_event_of i (snd e)))"

definition early_ok :: "Connection \<Rightarrow> bool" where
  "early_ok c \<longleftrightarrow>
    (\<forall>i es. fmlookup (con_early_event_buffer c) i = Some es \<longrightarrow> distinct (early_sids es)
      \<and> (\<forall>sid\<in>set (early_sids es). sid |\<notin>| fmdom (con_stream_map c) \<and> is_peer_initiated_stream sid (con_is_client c)))
    \<and> (\<forall>i j es fs. fmlookup (con_early_event_buffer c) i = Some es \<longrightarrow> fmlookup (con_early_event_buffer c) j = Some fs
        \<longrightarrow> i \<noteq> j \<longrightarrow> set (early_sids es) \<inter> set (early_sids fs) = {})"

definition requests_ok :: "Connection \<Rightarrow> bool" where
  "requests_ok c \<longleftrightarrow>
    (\<forall>sid r. fmlookup (con_pending_session_requests c) sid = Some r \<longrightarrow>
       (sid |\<in>| fmdom (con_sessions c) \<or> r |\<in>| fmdom (con_session_requests c)) \<and> r \<notin> set (con_blocked_session_requests c))
    \<and> (\<forall>sid sid' r. fmlookup (con_pending_session_requests c) sid = Some r \<longrightarrow>
         fmlookup (con_pending_session_requests c) sid' = Some r \<longrightarrow> sid = sid')
    \<and> (\<forall>sid r. fmlookup (con_pending_session_requests c) sid = Some r \<longrightarrow>
         sid |\<in>| fmdom (con_sessions c) \<longrightarrow> r |\<notin>| fmdom (con_session_requests c))
    \<and> distinct (con_blocked_session_requests c)
    \<and> set (con_blocked_session_requests c) \<subseteq> fset (fmdom (con_session_requests c))
    \<and> (\<not> con_is_client c \<longrightarrow> con_session_requests c = fmempty)"

definition state_ok :: "Connection \<Rightarrow> bool" where
  "state_ok c \<longleftrightarrow> (con_state c = ConnectionState.Connected \<longrightarrow> con_request_id c = None)
    \<and> (con_state c = ConnectionState.Closed \<longrightarrow> con_request_id c = None \<and> con_session_requests c = fmempty
        \<and> (\<forall>i s. fmlookup (con_sessions c) i = Some s \<longrightarrow> ses_state s = SessionState.Closed))"

definition session_total :: "Connection \<Rightarrow> nat" where
  "session_total c = map_len (con_sessions c) + map_len (con_session_requests c)"

definition limit_ok :: "Connection \<Rightarrow> bool" where
  "limit_ok c \<longleftrightarrow> (\<not> has_flow_control c \<longrightarrow> session_total c \<le> 1)
    \<and> (con_max_sessions c \<noteq> 0 \<longrightarrow> session_total c \<le> unat (con_max_sessions c))
    \<and> (\<not> con_peer_settings_received c \<longrightarrow> \<not> has_flow_control c)"

definition con_inv :: "Connection \<Rightarrow> bool" where
  "con_inv c \<longleftrightarrow> sessions_ok c \<and> table_ok c \<and> buffer_ok c \<and> early_ok c \<and> requests_ok c \<and> state_ok c \<and> limit_ok c"

subsection \<open>Books\<close>

definition option_request :: "RequestId option \<Rightarrow> RequestId list" where
  "option_request r = (case r of None \<Rightarrow> [] | Some x \<Rightarrow> [x])"

lemma option_request_simps [simp]: "option_request None = []" "option_request (Some x) = [x]"
  by (simp_all add: option_request_def)

definition con_holds :: "Connection \<Rightarrow> RequestId multiset" where
  "con_holds c = fm_sum (\<lambda>_. session_holds) (con_sessions c) + mset (sorted_keys (con_session_requests c))
    + mset (option_request (con_request_id c))"

fun con_rank :: "ConnectionState \<Rightarrow> nat" where
  "con_rank ConnectionState.Idle = 0"
| "con_rank ConnectionState.Connecting = 1"
| "con_rank ConnectionState.Connected = 2"
| "con_rank ConnectionState.Closing = 3"
| "con_rank ConnectionState.Closed = 4"

definition con_grows :: "Connection \<Rightarrow> Connection \<Rightarrow> bool" where
  "con_grows c d \<longleftrightarrow> con_rank (con_state c) \<le> con_rank (con_state d)
    \<and> (con_local_goaway_sent c \<longrightarrow> con_local_goaway_sent d)
    \<and> (con_peer_goaway_received c \<longrightarrow> con_peer_goaway_received d)
    \<and> (con_peer_settings_received c \<longrightarrow> con_peer_settings_received d)
    \<and> (con_handshake_completed c \<longrightarrow> con_handshake_completed d)
    \<and> con_is_client d = con_is_client c \<and> con_handle d = con_handle c
    \<and> con_max_sessions d = con_max_sessions c
    \<and> con_max_connection_pending_events d = con_max_connection_pending_events c
    \<and> con_max_session_pending_events d = con_max_session_pending_events c
    \<and> con_initial_max_data d = con_initial_max_data c
    \<and> con_initial_max_streams_bidi d = con_initial_max_streams_bidi c
    \<and> con_initial_max_streams_uni d = con_initial_max_streams_uni c"

definition con_moves :: "Connection \<Rightarrow> RequestId multiset \<Rightarrow> effects \<times> Connection \<Rightarrow> bool" where
  "con_moves c R p \<longleftrightarrow> mset (dispatched (fst p)) + con_holds (snd p) = con_holds c + R \<and> con_grows c (snd p)"

definition con_keeps :: "Connection \<Rightarrow> RequestId multiset \<Rightarrow> effects \<times> Connection \<Rightarrow> bool" where
  "con_keeps c R p \<longleftrightarrow> con_inv (snd p) \<and> con_moves c R p"

lemma con_grows_refl [simp]: "con_grows c c"
  by (simp add: con_grows_def)

lemma con_grows_trans: "con_grows c d \<Longrightarrow> con_grows d e \<Longrightarrow> con_grows c e"
  unfolding con_grows_def by auto

lemma con_moves_trans:
  assumes "con_moves c R p" "con_moves (snd p) Q q"
  shows "con_moves c (R + Q) (fst p @ fst q, snd q)"
proof -
  have p: "mset (dispatched (fst p)) + con_holds (snd p) = con_holds c + R"
    and q: "mset (dispatched (fst q)) + con_holds (snd q) = con_holds (snd p) + Q"
    using assms by (simp_all only: con_moves_def)
  have "mset (dispatched (fst p @ fst q)) + con_holds (snd q)
      = mset (dispatched (fst p)) + (mset (dispatched (fst q)) + con_holds (snd q))"
    by (simp add: add.assoc)
  also have "\<dots> = mset (dispatched (fst p)) + con_holds (snd p) + Q"
    by (simp only: q add.assoc)
  also have "\<dots> = con_holds c + (R + Q)"
    by (simp only: p add.assoc)
  finally have "mset (dispatched (fst p @ fst q)) + con_holds (snd q) = con_holds c + (R + Q)" .
  moreover have "con_grows c (snd q)"
    using assms con_grows_trans by (auto simp: con_moves_def)
  ultimately show ?thesis by (simp only: con_moves_def fst_conv snd_conv)
qed

lemma con_keeps_trans:
  assumes "con_keeps c R p" "con_inv (snd p) \<Longrightarrow> con_keeps (snd p) Q q"
  shows "con_keeps c (R + Q) (fst p @ fst q, snd q)"
  using assms con_moves_trans [of c R p Q q] by (simp add: con_keeps_def)

lemma con_keeps_refl: "con_inv c \<Longrightarrow> mset (dispatched es) = R \<Longrightarrow> con_keeps c R (es, c)"
  by (simp add: con_keeps_def con_moves_def)

subsection \<open>Sizes of tables\<close>

lemma map_len_empty [simp]: "map_len fmempty = 0"
  by (simp add: map_len_def)

lemma map_len_upd: "map_len (fmupd k v m) = (if k |\<in>| fmdom m then map_len m else Suc (map_len m))"
  by (auto simp: map_len_def fcard_finsert_if)

lemma map_len_drop: "k |\<in>| fmdom m \<Longrightarrow> map_len m = Suc (map_len (fmdrop k m))"
  by (metis fcard_Suc_fminus1 fmdom_drop map_len_def)

lemma map_len_drop_le: "map_len (fmdrop k m) \<le> map_len m"
  by (cases "k |\<in>| fmdom m") (simp_all add: map_len_drop fmdom_notD)

subsection \<open>Frames\<close>

text \<open>The fields each part of the invariant depends on.\<close>

lemma con_frames:
  "sessions_ok c \<Longrightarrow> con_max_write_buffer_size d = con_max_write_buffer_size c \<Longrightarrow> con_sessions d = con_sessions c \<Longrightarrow>
    con_is_client d = con_is_client c \<Longrightarrow> sessions_ok d"
  "table_ok c \<Longrightarrow> con_sessions d = con_sessions c \<Longrightarrow> con_stream_map d = con_stream_map c \<Longrightarrow> table_ok d"
  "buffer_ok c \<Longrightarrow> con_early_event_count d = con_early_event_count c \<Longrightarrow>
    con_early_event_buffer d = con_early_event_buffer c \<Longrightarrow>
    con_max_connection_pending_events d = con_max_connection_pending_events c \<Longrightarrow>
    con_max_session_pending_events d = con_max_session_pending_events c \<Longrightarrow> buffer_ok d"
  "early_ok c \<Longrightarrow> con_early_event_buffer d = con_early_event_buffer c \<Longrightarrow>
    con_stream_map d = con_stream_map c \<Longrightarrow> con_is_client d = con_is_client c \<Longrightarrow> early_ok d"
  "requests_ok c \<Longrightarrow> con_pending_session_requests d = con_pending_session_requests c \<Longrightarrow>
    fmdom (con_sessions d) = fmdom (con_sessions c) \<Longrightarrow> con_session_requests d = con_session_requests c \<Longrightarrow>
    con_blocked_session_requests d = con_blocked_session_requests c \<Longrightarrow> con_is_client d = con_is_client c \<Longrightarrow> requests_ok d"
  "state_ok c \<Longrightarrow> con_state d = con_state c \<Longrightarrow> con_request_id d = con_request_id c \<Longrightarrow>
    con_session_requests d = con_session_requests c \<Longrightarrow> con_sessions d = con_sessions c \<Longrightarrow> state_ok d"
  "limit_ok c \<Longrightarrow> has_flow_control d = has_flow_control c \<Longrightarrow> con_max_sessions d = con_max_sessions c \<Longrightarrow>
    session_total d = session_total c \<Longrightarrow> con_peer_settings_received d = con_peer_settings_received c \<Longrightarrow> limit_ok d"
  unfolding sessions_ok_def table_ok_def buffer_ok_def early_ok_def requests_ok_def state_ok_def limit_ok_def
  by simp_all

text \<open>Updates that the derived notions do not see.\<close>

lemma flow_control_simps [simp]:
  "has_flow_control (c\<lparr>con_sessions := x\<rparr>) = has_flow_control c"
  "has_flow_control (c\<lparr>con_stream_map := m\<rparr>) = has_flow_control c"
  "has_flow_control (c\<lparr>con_session_requests := q\<rparr>) = has_flow_control c"
  "has_flow_control (c\<lparr>con_pending_session_requests := pq\<rparr>) = has_flow_control c"
  "has_flow_control (c\<lparr>con_blocked_session_requests := b\<rparr>) = has_flow_control c"
  "has_flow_control (c\<lparr>con_early_event_buffer := e\<rparr>) = has_flow_control c"
  "has_flow_control (c\<lparr>con_early_event_count := n\<rparr>) = has_flow_control c"
  "has_flow_control (c\<lparr>con_state := st\<rparr>) = has_flow_control c"
  "has_flow_control (c\<lparr>con_request_id := r\<rparr>) = has_flow_control c"
  "has_flow_control (c\<lparr>con_local_goaway_sent := g\<rparr>) = has_flow_control c"
  "has_flow_control (c\<lparr>con_peer_goaway_received := g\<rparr>) = has_flow_control c"
  "has_flow_control (c\<lparr>con_handshake_completed := g\<rparr>) = has_flow_control c"
  "has_flow_control (c\<lparr>con_connected_at := ti\<rparr>) = has_flow_control c"
  "has_flow_control (c\<lparr>con_closed_at := ti\<rparr>) = has_flow_control c"
  "has_flow_control (c\<lparr>con_close_code := cc\<rparr>) = has_flow_control c"
  "has_flow_control (c\<lparr>con_close_reason := cr\<rparr>) = has_flow_control c"
  "has_flow_control (c\<lparr>con_peer_max_datagram_frame_size := ds\<rparr>) = has_flow_control c"
  by (simp_all add: has_flow_control_def)

lemma con_inv_notes [simp]:
  "con_inv (c\<lparr>con_local_goaway_sent := g\<rparr>) = con_inv c"
  "con_inv (c\<lparr>con_peer_goaway_received := g\<rparr>) = con_inv c"
  "con_inv (c\<lparr>con_handshake_completed := g\<rparr>) = con_inv c"
  "con_inv (c\<lparr>con_connected_at := ti\<rparr>) = con_inv c"
  "con_inv (c\<lparr>con_closed_at := ti\<rparr>) = con_inv c"
  "con_inv (c\<lparr>con_close_code := cc\<rparr>) = con_inv c"
  "con_inv (c\<lparr>con_close_reason := cr\<rparr>) = con_inv c"
  "con_inv (c\<lparr>con_peer_max_datagram_frame_size := ds\<rparr>) = con_inv c"
  unfolding con_inv_def sessions_ok_def table_ok_def buffer_ok_def early_ok_def requests_ok_def state_ok_def limit_ok_def
    session_total_def
  by simp_all

end
