(* ===== verification/Connection_Calls.thy ===== *)
theory Connection_Calls
  imports Connection_Invariants
begin

text \<open>
  What a call on one session, on one stream or on all sessions does to the connection: the
  invariant and the books are those of the session, lifted.
\<close>

lemma holds_put_session:
  assumes "fmlookup (con_sessions c) i = Some s" "keeps s R p"
  shows "mset (dispatched (fst (put_session c i p))) + con_holds (snd (put_session c i p)) = con_holds c + R"
proof -
  let ?rest = "fm_sum (\<lambda>_. session_holds) (fmdrop i (con_sessions c)) + mset (sorted_keys (con_session_requests c))
    + mset (option_request (con_request_id c))"
  have before: "con_holds c = session_holds s + ?rest"
    by (simp add: con_holds_def fm_sum_split [OF assms(1)] add.assoc)
  have after: "con_holds (snd (put_session c i p)) = session_holds (snd p) + ?rest"
    by (simp add: con_holds_def put_session_def fm_sum_upd add.assoc)
  have eq: "mset (dispatched (fst p)) + session_holds (snd p) = session_holds s + R"
    using assms(2) by (simp add: keeps_def moves_def)
  have "mset (dispatched (fst p)) + (session_holds (snd p) + ?rest) = session_holds s + R + ?rest"
    by (simp only: add.assoc [symmetric] eq)
  also have "\<dots> = session_holds s + ?rest + R"
    by (simp only: add.assoc add.commute [of R])
  finally show ?thesis
    unfolding after before by (simp only: put_session_def fst_conv)
qed

text \<open>A session call that opens no stream.\<close>

lemma put_session_parts:
  assumes inv: "con_inv c" and i: "fmlookup (con_sessions c) i = Some s" and ok: "session_call_ok call s"
  shows "sessions_ok (snd (put_session c i (session_call call s)))"
    "state_ok (snd (put_session c i (session_call call s)))"
    "buffer_ok (snd (put_session c i (session_call call s)))"
    "early_ok (snd (put_session c i (session_call call s)))"
    "requests_ok (snd (put_session c i (session_call call s)))"
    "limit_ok (snd (put_session c i (session_call call s)))"
    "con_moves c (mset (session_submits call)) (put_session c i (session_call call s))"
proof -
  let ?d = "snd (put_session c i (session_call call s))"
  let ?p = "session_call call s"
  have s: "session_reachable s" "ses_id s = i" "ses_is_client s = con_is_client c"
    using inv i by (simp_all add: con_inv_def sessions_ok_def)
  have keeps: "keeps s (mset (session_submits call)) ?p"
    using session_call_keeps [OF reachable_inv [OF s(1)] ok] .
  then have same: "ses_id (snd ?p) = i" "ses_is_client (snd ?p) = con_is_client c"
    "state_rank (ses_state s) \<le> state_rank (ses_state (snd ?p))"
    using s by (simp_all add: keeps_def moves_def grows_def same_session_def)
  show "sessions_ok (snd (put_session c i ?p))"
    using inv same session_reachable.called [OF s(1) ok]
    by (auto simp: con_inv_def sessions_ok_def put_session_def)
  have "ses_state s = SessionState.Closed \<Longrightarrow> ses_state (snd ?p) = SessionState.Closed"
    using same(3) by (cases "ses_state (snd ?p)") auto
  then show "state_ok (snd (put_session c i ?p))"
    using inv i by (auto simp: con_inv_def state_ok_def put_session_def)
  have dom: "fmdom (con_sessions ?d) = fmdom (con_sessions c)"
    using i by (auto simp: put_session_def dest: fmdomI)
  have len: "session_total ?d = session_total c"
    using i by (simp add: session_total_def put_session_def map_len_upd fmdomI)
  show "buffer_ok ?d" "early_ok ?d" "requests_ok ?d" "limit_ok ?d"
    by (rule con_frames [of c], use inv in \<open>simp add: con_inv_def\<close>,
        use dom len in \<open>simp_all add: put_session_def\<close>)+
  have "con_grows c ?d"
    by (simp add: con_grows_def put_session_def)
  then show "con_moves c (mset (session_submits call)) (put_session c i ?p)"
    using holds_put_session [OF i keeps] by (simp add: con_moves_def)
qed

text \<open>A session call that opens no stream.\<close>

lemma put_session_keeps:
  assumes inv: "con_inv c" and i: "fmlookup (con_sessions c) i = Some s"
    and ok: "session_call_ok call s" and none: "opens call = {}"
  shows "con_keeps c (mset (session_submits call)) (put_session c i (session_call call s))"
proof -
  let ?p = "session_call call s"
  have "sids (snd ?p) \<subseteq> sids s"
    using session_call_sids [of call s] none by simp
  then have "sid \<in> sids (snd ?p) \<Longrightarrow> fmlookup (con_stream_map c) sid = Some i" for sid
    using inv i by (auto simp: con_inv_def table_ok_def)
  then have "table_ok (snd (put_session c i ?p))"
    using inv by (auto simp: con_inv_def table_ok_def put_session_def)
  with put_session_parts [OF inv i ok] show ?thesis
    by (simp add: con_keeps_def con_inv_def)
qed

lemma on_session_keeps:
  assumes "con_inv c" "opens call = {}" "f = session_call call" "R = mset (session_submits call)"
    and "\<And>s. fmlookup (con_sessions c) i = Some s \<Longrightarrow> session_call_ok call s"
    and "fmlookup (con_sessions c) i = None \<Longrightarrow> con_keeps c R missing"
  shows "con_keeps c R (on_session c i f missing)"
  using assms put_session_keeps [OF assms(1) _ assms(5) assms(2)]
  by (cases "fmlookup (con_sessions c) i") (simp_all add: on_session_def)

text \<open>A stream that no session has leaves the table.\<close>

lemma forget_stream_inv:
  assumes "con_inv c" "\<And>i s. fmlookup (con_sessions c) i = Some s \<Longrightarrow> sid \<notin> sids s"
  shows "con_inv (c\<lparr>con_stream_map := fmdrop sid (con_stream_map c)\<rparr>)"
proof -
  let ?d = "c\<lparr>con_stream_map := fmdrop sid (con_stream_map c)\<rparr>"
  have "table_ok ?d" "early_ok ?d"
    using assms by (auto simp: con_inv_def table_ok_def early_ok_def split: if_splits)
  moreover have "sessions_ok ?d" "buffer_ok ?d" "requests_ok ?d" "state_ok ?d" "limit_ok ?d"
    by (rule con_frames [of c], use assms(1) in \<open>simp add: con_inv_def\<close>, simp_all add: session_total_def)+
  ultimately show ?thesis by (simp add: con_inv_def)
qed

lemma on_stream_keeps:
  assumes inv: "con_inv c" and call: "opens call = {}" "f = session_call call" "R = mset (session_submits call)"
    and ok: "\<And>i s. fmlookup (con_stream_map c) sid = Some i \<Longrightarrow> fmlookup (con_sessions c) i = Some s \<Longrightarrow> session_call_ok call s"
    and missing: "con_keeps c R missing"
  shows "con_keeps c R (on_stream c sid f missing)"
proof (cases "fmlookup (con_stream_map c) sid")
  case None
  then show ?thesis using missing by (simp add: on_stream_def)
next
  case map: (Some i)
  show ?thesis
  proof (cases "fmlookup (con_sessions c) i")
    case None
    then show ?thesis using missing map by (simp add: on_stream_def)
  next
    case s: (Some s)
    let ?p = "session_call call s" and ?d = "snd (put_session c i (session_call call s))"
    let ?e = "?d\<lparr>con_stream_map := fmdrop sid (con_stream_map c)\<rparr>"
    have keeps: "con_keeps c R (put_session c i ?p)"
      using put_session_keeps [OF inv s ok [OF map s] call(1)] call(3) by simp
    then have d: "con_inv ?d" by (simp add: con_keeps_def)
    have gone: "con_inv ?e" if "\<not> has_stream (snd ?p) sid"
    proof -
      have "sid \<notin> sids t" if "fmlookup (con_sessions ?d) j = Some t" for j t
        using that \<open>\<not> has_stream (snd ?p) sid\<close> inv map
        by (cases "j = i") (auto simp: put_session_def has_stream_def con_inv_def table_ok_def)
      from forget_stream_inv [OF d this] show ?thesis by (simp add: put_session_def)
    qed
    have "con_moves c R (fst (put_session c i ?p), ?e)"
      using keeps by (simp add: con_keeps_def con_moves_def con_grows_def con_holds_def put_session_def)
    with gone keeps show ?thesis
      using map s call(2) by (simp add: on_stream_def con_keeps_def Let_def case_prod_beta put_session_def)
  qed
qed

lemma each_session_keeps:
  assumes "con_inv c" "opens call = {}" "f = session_call call" "session_submits call = []"
    and "\<And>s. session_call_ok call s"
  shows "con_keeps c {#} (each_session ids f c)"
  using assms(1)
proof (induction ids arbitrary: c)
  case Nil
  then show ?case by (simp add: con_keeps_refl)
next
  case (Cons i ids)
  have "con_keeps c {#} (on_session c i f ([], c))"
    using on_session_keeps [OF Cons.prems assms(2,3)] assms(4,5) Cons.prems con_keeps_refl [of c "[]"] by simp
  from con_keeps_trans [OF this Cons.IH] show ?case
    by (simp add: Let_def case_prod_beta)
qed

end
