(* ===== verification/Connection_Early.thy ===== *)
theory Connection_Early
  imports Connection_Calls
begin

text \<open>
  Streams that a session adopts, and the events that arrive before their session: buffering,
  replay and expiry keep the invariant of the connection.
\<close>

definition early_known :: "Connection \<Rightarrow> StreamId \<Rightarrow> bool" where
  "early_known c sid \<longleftrightarrow> (\<exists>i \<in> set (sorted_keys (con_early_event_buffer c)). sid \<in> set (early_sids (early_events c i)))"

definition is_fresh_stream :: "Connection \<Rightarrow> StreamId \<Rightarrow> bool" where
  "is_fresh_stream c sid \<longleftrightarrow> sid |\<notin>| fmdom (con_stream_map c) \<and> \<not> early_known c sid"

lemma set_sorted_keys [simp]: "set (sorted_keys m) = fset (fmdom m)"
  by (simp add: sorted_keys_def)

lemma fresh_stream_iff:
  "is_fresh_stream c sid \<longleftrightarrow> sid |\<notin>| fmdom (con_stream_map c)
    \<and> (\<forall>i es. fmlookup (con_early_event_buffer c) i = Some es \<longrightarrow> sid \<notin> set (early_sids es))"
  by (auto simp: is_fresh_stream_def early_known_def early_events_def split: option.splits dest: fmdomI)

lemma fresh_not_in_session:
  assumes "con_inv c" "sid |\<notin>| fmdom (con_stream_map c)" "fmlookup (con_sessions c) i = Some s"
  shows "sid \<notin> sids s" "fmlookup (ses_streams s) sid = None"
proof -
  show "sid \<notin> sids s"
  proof
    assume "sid \<in> sids s"
    then have "fmlookup (con_stream_map c) sid = Some i"
      using assms(1,3) by (simp add: con_inv_def table_ok_def)
    then show False using assms(2) fmdomI by fast
  qed
  then show "fmlookup (ses_streams s) sid = None" by (simp add: fmdom_notD)
qed

subsection \<open>Adopting a stream\<close>

lemma adopt_stream_eq:
  "adopt_stream c i sid p = (fst p, (snd (put_session c i p))\<lparr>con_stream_map :=
    (if has_stream (snd p) sid then fmupd sid i (con_stream_map c) else con_stream_map c)\<rparr>)"
  by (simp add: adopt_stream_def put_session_def)

lemma adopt_table:
  assumes inv: "con_inv c" and i: "fmlookup (con_sessions c) i = Some s"
    and sids: "sids (snd p) \<subseteq> insert sid (sids s)" and fresh: "sid |\<notin>| fmdom (con_stream_map c)"
  shows "table_ok (snd (adopt_stream c i sid p))"
proof -
  have old: "x \<in> sids s \<Longrightarrow> fmlookup (con_stream_map c) x = Some i" for x
    using inv i by (auto simp: con_inv_def table_ok_def)
  have other: "fmlookup (con_sessions c) j = Some t \<Longrightarrow> x \<in> sids t \<Longrightarrow> fmlookup (con_stream_map c) x = Some j" for j t x
    using inv by (auto simp: con_inv_def table_ok_def)
  have dom: "i |\<in>| fmdom (con_sessions c)"
    "fmlookup (con_stream_map c) x = Some j \<Longrightarrow> j |\<in>| fmdom (con_sessions c)" for x j
    using inv i by (auto simp: con_inv_def table_ok_def dest: fmdomI)
  show ?thesis
  proof (cases "has_stream (snd p) sid")
    case True
    then show ?thesis
      using sids old other dom fresh_not_in_session(1) [OF inv fresh]
      by (auto simp: table_ok_def adopt_stream_eq put_session_def)
  next
    case False
    with sids have "sids (snd p) \<subseteq> sids s" by (auto simp: has_stream_def)
    with False show ?thesis
      using old other dom by (auto simp: table_ok_def adopt_stream_eq put_session_def)
  qed
qed

lemma adopt_early:
  assumes "con_inv c" "is_fresh_stream c sid"
  shows "early_ok (snd (adopt_stream c i sid p))"
proof -
  have "early_ok c" using assms(1) by (simp add: con_inv_def)
  then show ?thesis
    using assms(2) by (simp add: early_ok_def fresh_stream_iff adopt_stream_eq put_session_def) blast
qed

lemma adopt_stream_keeps:
  assumes inv: "con_inv c" and i: "fmlookup (con_sessions c) i = Some s" and ok: "session_call_ok call s"
    and opens: "opens call = {sid}" and fresh: "is_fresh_stream c sid"
  shows "con_keeps c (mset (session_submits call)) (adopt_stream c i sid (session_call call s))"
proof -
  let ?p = "session_call call s"
  let ?d = "snd (put_session c i ?p)" and ?e = "snd (adopt_stream c i sid ?p)"
  note parts = put_session_parts [OF inv i ok]
  have "sids (snd ?p) \<subseteq> insert sid (sids s)"
    using session_call_sids [of call s] opens by auto
  then have "table_ok ?e" "early_ok ?e"
    using adopt_table [OF inv i] adopt_early [OF inv fresh] fresh by (simp_all add: fresh_stream_iff)
  moreover have "sessions_ok ?e" "buffer_ok ?e" "requests_ok ?e" "state_ok ?e" "limit_ok ?e"
    by (rule con_frames [of ?d]; (rule parts | simp add: adopt_stream_eq session_total_def))+
  ultimately have "con_inv ?e" by (simp add: con_inv_def)
  then show ?thesis
    using parts(7) by (simp add: con_keeps_def con_moves_def con_grows_def con_holds_def put_session_def adopt_stream_eq)
qed

subsection \<open>Buffering\<close>

lemma of_nat_ge:
  assumes "n \<le> unat (m :: u64)" "\<not> of_nat n \<ge> m"
  shows "n < unat m"
proof -
  have "n < 2 ^ 64" using assms(1) le_less_trans [OF _ unat_u64_bound [of m]] by simp
  then show ?thesis using assms(2) by (simp add: word_le_nat_alt unat_of_nat)
qed

lemma early_sids_simps [simp]:
  "early_sids [] = []" "early_sids (e # es) = early_stream (snd e) @ early_sids es"
  "early_sids (es @ fs) = early_sids es @ early_sids fs"
  by (simp_all add: early_sids_def)

lemma early_sum:
  "fm_sum (\<lambda>_. length) (con_early_event_buffer c)
    = length (early_events c i) + fm_sum (\<lambda>_. length) (fmdrop i (con_early_event_buffer c))"
  by (cases "fmlookup (con_early_event_buffer c) i") (simp_all add: early_events_def fm_sum_split)

text \<open>One more event for session \<open>i\<close>, while neither bound is reached.\<close>

definition push_early :: "Connection \<Rightarrow> SessionId \<Rightarrow> f64 \<times> ProtocolEvent \<Rightarrow> Connection" where
  "push_early c i e = c\<lparr>con_early_event_buffer := fmupd i (early_events c i @ [e]) (con_early_event_buffer c),
    con_early_event_count := con_early_event_count c + 1\<rparr>"

lemma early_events_ok:
  assumes "con_inv c"
  shows "length (early_events c i) \<le> unat (con_max_session_pending_events c)"
    "\<And>e. e \<in> set (early_events c i) \<Longrightarrow> early_event_of i (snd e)"
    "distinct (early_sids (early_events c i))"
    "\<And>sid. sid \<in> set (early_sids (early_events c i)) \<Longrightarrow>
      sid |\<notin>| fmdom (con_stream_map c) \<and> is_peer_initiated_stream sid (con_is_client c)"
    "\<And>j es. fmlookup (con_early_event_buffer c) j = Some es \<Longrightarrow> j \<noteq> i \<Longrightarrow>
      set (early_sids (early_events c i)) \<inter> set (early_sids es) = {}"
  using assms
  by (cases "fmlookup (con_early_event_buffer c) i";
      simp add: con_inv_def buffer_ok_def early_ok_def early_events_def; blast)+

lemma push_early_inv:
  assumes inv: "con_inv c" and ev: "early_event_of i (snd e)"
    and room: "con_early_event_count c < unat (con_max_connection_pending_events c)"
      "length (early_events c i) < unat (con_max_session_pending_events c)"
    and fresh: "\<And>sid. sid \<in> set (early_stream (snd e)) \<Longrightarrow>
      is_fresh_stream c sid \<and> is_peer_initiated_stream sid (con_is_client c)"
  shows "con_inv (push_early c i e)"
proof -
  let ?d = "push_early c i e" and ?es = "early_events c i @ [e]"
  note old = early_events_ok [OF inv, where i = i]
  have "con_early_event_count c = fm_sum (\<lambda>_. length) (con_early_event_buffer c)"
    using inv by (simp add: con_inv_def buffer_ok_def)
  then have "con_early_event_count ?d = fm_sum (\<lambda>_. length) (con_early_event_buffer ?d)"
    using early_sum [of c i] by (simp add: push_early_def fm_sum_upd)
  then have "buffer_ok ?d"
    using inv room ev old by (auto simp: con_inv_def buffer_ok_def push_early_def)
  moreover have "early_ok ?d"
  proof -
    have "distinct (early_sids ?es)"
    proof -
      have "sid \<in> set (early_stream (snd e)) \<Longrightarrow> sid \<notin> set (early_sids (early_events c i))" for sid
        using fresh by (cases "fmlookup (con_early_event_buffer c) i") (auto simp: fresh_stream_iff early_events_def)
      moreover have "distinct (early_stream (snd e))"
        by (cases "snd e") (simp_all add: early_stream_def)
      ultimately show ?thesis using old(3) by auto
    qed
    moreover have "set (early_sids ?es) \<inter> set (early_sids fs) = {}"
      if "fmlookup (con_early_event_buffer c) j = Some fs" "j \<noteq> i" for j fs
      using old(5) [OF that] fresh that by (auto simp: fresh_stream_iff)
    ultimately show ?thesis
      using inv old(4) fresh unfolding con_inv_def early_ok_def push_early_def
      by (auto simp: fresh_stream_iff)
  qed
  moreover have "sessions_ok ?d" "table_ok ?d" "requests_ok ?d" "state_ok ?d" "limit_ok ?d"
    by (rule con_frames [of c]; use inv in \<open>simp add: push_early_def session_total_def con_inv_def\<close>)+
  ultimately show ?thesis by (simp add: con_inv_def)
qed

lemma touch_early_inv:
  assumes inv: "con_inv c"
  shows "con_inv (c\<lparr>con_early_event_buffer := fmupd i (early_events c i) (con_early_event_buffer c)\<rparr>)" (is "con_inv ?d")
proof -
  note old = early_events_ok [OF inv, where i = i]
  have "buffer_ok ?d"
    using inv early_sum [of c i] old(1,2) by (auto simp: con_inv_def buffer_ok_def fm_sum_upd)
  moreover have "early_ok ?d"
    using inv old(3-5) unfolding con_inv_def early_ok_def by (simp add: Int_commute)
  moreover have "sessions_ok ?d" "table_ok ?d" "requests_ok ?d" "state_ok ?d" "limit_ok ?d"
    by (rule con_frames [of c]; use inv in \<open>simp add: session_total_def con_inv_def\<close>)+
  ultimately show ?thesis by (simp add: con_inv_def)
qed

lemma buffer_early_event_keeps:
  assumes inv: "con_inv c" and ev: "early_event_of i e"
    and fresh: "\<And>sid. sid \<in> set (early_stream e) \<Longrightarrow>
      is_fresh_stream c sid \<and> is_peer_initiated_stream sid (con_is_client c)"
  shows "con_keeps c {#} ([], snd (buffer_early_event c i e now))"
proof -
  let ?d = "snd (buffer_early_event c i e now)"
  have bounds: "con_early_event_count c \<le> unat (con_max_connection_pending_events c)"
    "length (early_events c i) \<le> unat (con_max_session_pending_events c)"
    using inv early_events_ok [OF inv, where i = i] by (simp_all add: con_inv_def buffer_ok_def)
  have "length (early_events c i) < 2 ^ 64"
    using le_less_trans [OF bounds(2) unat_u64_bound] by simp
  then have "con_inv (push_early c i (now, e))"
    if "\<not> of_nat (con_early_event_count c) \<ge> con_max_connection_pending_events c"
      "\<not> len64 (early_events c i) \<ge> con_max_session_pending_events c"
    using push_early_inv [OF inv, of i "(now, e)"] ev fresh of_nat_ge [OF bounds(1) that(1)] len64_ge [OF that(2)] by simp
  then have "con_inv ?d"
    using inv touch_early_inv [OF inv, of i] by (simp add: buffer_early_event_def push_early_def Let_def)
  then show ?thesis
    by (simp add: con_keeps_def con_moves_def con_grows_def con_holds_def buffer_early_event_def Let_def)
qed

lemma quiet_reject [simp]: "dispatched (reject_buffered_stream sid) = []"
  by (simp add: reject_buffered_stream_def)

lemma con_keeps_effects: "con_keeps c R (es, d) \<Longrightarrow> mset (dispatched fs) = mset (dispatched es) \<Longrightarrow> con_keeps c R (fs, d)"
  by (simp add: con_keeps_def con_moves_def)

lemma connection_stream_opened_keeps:
  assumes inv: "con_inv c" and fresh: "is_fresh_stream c sid" "is_peer_initiated_stream sid (con_is_client c)"
  shows "con_keeps c {#} (connection_stream_opened c i sid now)"
proof (cases "fmlookup (con_sessions c) i")
  case None
  then show ?thesis
    using con_keeps_effects [OF buffer_early_event_keeps [OF inv, of i "H3WebTransportStreamOpened i sid" now]] fresh
    by (simp add: connection_stream_opened_def case_prod_beta)
next
  case (Some s)
  have "session_call_ok (SessionStreamOpened sid now) s"
    using fresh_not_in_session(2) [OF inv _ Some] fresh inv Some
    by (simp add: session_call_ok_def fresh_stream_iff con_inv_def sessions_ok_def)
  then show ?thesis
    using adopt_stream_keeps [OF inv Some, of "SessionStreamOpened sid now" sid] fresh(1) Some
    by (simp add: connection_stream_opened_def opens_def)
qed

lemma connection_recv_datagram_keeps:
  assumes "con_inv c"
  shows "con_keeps c {#} (connection_recv_datagram c i d now)"
  unfolding connection_recv_datagram_def
  by (rule on_session_keeps [where call = "SessionRecvDatagram d"])
     (use assms buffer_early_event_keeps [OF assms, of i "H3DatagramReceived i d" now] in
       \<open>auto simp: opens_def session_call_ok_def\<close>)

subsection \<open>Replay\<close>

text \<open>What the replay of one event leaves alone while its session is present.\<close>

lemma replay_event_frame:
  assumes "early_event_of i e" "i |\<in>| fmdom (con_sessions c)" "d = snd (replay_event True e now c)"
  shows "i |\<in>| fmdom (con_sessions d)" "con_early_event_buffer d = con_early_event_buffer c"
    "con_is_client d = con_is_client c"
    "fset (fmdom (con_stream_map d)) \<subseteq> fset (fmdom (con_stream_map c)) \<union> set (early_stream e)"
proof -
  obtain s where s: "fmlookup (con_sessions c) i = Some s" using assms(2) by (rule fmdomE)
  show "i |\<in>| fmdom (con_sessions d)" "con_early_event_buffer d = con_early_event_buffer c"
    "con_is_client d = con_is_client c"
    "fset (fmdom (con_stream_map d)) \<subseteq> fset (fmdom (con_stream_map c)) \<union> set (early_stream e)"
    using assms(1) s unfolding assms(3)
    by (cases e; auto simp: early_event_of_def replay_event_def connection_recv_datagram_def on_session_def put_session_def
          connection_stream_opened_def adopt_stream_def Let_def dest: fmdomI)+
qed

lemma replay_each_keeps:
  assumes "con_inv c" "i |\<in>| fmdom (con_sessions c)" "\<And>e. e \<in> set es \<Longrightarrow> early_event_of i (snd e)"
    and "distinct (early_sids es)"
    and "\<And>sid. sid \<in> set (early_sids es) \<Longrightarrow> is_fresh_stream c sid \<and> is_peer_initiated_stream sid (con_is_client c)"
  shows "con_keeps c {#} (replay_each True es now c)"
  using assms
proof (induction es arbitrary: c)
  case Nil
  then show ?case by (simp add: con_keeps_refl)
next
  case (Cons e es)
  let ?d = "snd (replay_event True (snd e) now c)"
  have ev: "early_event_of i (snd e)" using Cons.prems(3) by simp
  note frame = replay_event_frame [OF ev Cons.prems(2) refl, of now]
  have step: "con_keeps c {#} (replay_event True (snd e) now c)"
  proof (cases "snd e")
    case (H3WebTransportStreamOpened j sid)
    then show ?thesis
      using connection_stream_opened_keeps [OF Cons.prems(1)] Cons.prems(5) [of sid] by (simp add: replay_event_def)
  qed (use ev connection_recv_datagram_keeps [OF Cons.prems(1)] in \<open>simp_all add: replay_event_def early_event_of_def\<close>)
  have "con_keeps ?d {#} (replay_each True es now ?d)"
  proof (rule Cons.IH)
    fix sid assume sid: "sid \<in> set (early_sids es)"
    then have "sid \<notin> set (early_stream (snd e))" using Cons.prems(4) by auto
    then show "is_fresh_stream ?d sid \<and> is_peer_initiated_stream sid (con_is_client ?d)"
      using Cons.prems(5) [of sid] sid frame by (auto simp: fresh_stream_iff)
  qed (use step frame Cons.prems in \<open>simp_all add: con_keeps_def\<close>)
  from con_keeps_trans [OF step this] show ?case
    by (simp add: Let_def case_prod_beta)
qed

text \<open>Some of the events buffered for session \<open>i\<close> are kept, the others leave.\<close>

definition keep_early :: "Connection \<Rightarrow> SessionId \<Rightarrow> (f64 \<times> ProtocolEvent) list \<Rightarrow> Connection" where
  "keep_early c i es = c\<lparr>con_early_event_buffer :=
      (if es = [] then fmdrop i (con_early_event_buffer c) else fmupd i es (con_early_event_buffer c)),
    con_early_event_count := con_early_event_count c - (length (early_events c i) - length es)\<rparr>"

lemma keep_early_swap:
  "keep_early c i es = c\<lparr>con_early_event_count := con_early_event_count c - (length (early_events c i) - length es),
    con_early_event_buffer :=
      (if es = [] then fmdrop i (con_early_event_buffer c) else fmupd i es (con_early_event_buffer c))\<rparr>"
  by (cases c) (simp add: keep_early_def)

lemma early_sids_filter: "set (early_sids (filter P es)) \<subseteq> set (early_sids es)"
  "distinct (early_sids es) \<Longrightarrow> distinct (early_sids (filter P es))"
proof -
  show sub: "set (early_sids (filter P es)) \<subseteq> set (early_sids es)" for es
    by (induction es) auto
  show "distinct (early_sids es) \<Longrightarrow> distinct (early_sids (filter P es))"
    using sub by (induction es) fastforce+
qed

lemma keep_early_inv:
  assumes inv: "con_inv c" and es: "es = filter P (early_events c i)"
  shows "con_inv (keep_early c i es)"
proof -
  let ?d = "keep_early c i es" and ?rest = "fm_sum (\<lambda>_. length) (fmdrop i (con_early_event_buffer c))"
  note old = early_events_ok [OF inv, where i = i]
  have len: "length es \<le> length (early_events c i)" using es by simp
  have cnt: "con_early_event_count c = length (early_events c i) + ?rest"
    using inv early_sum [of c i] by (simp add: con_inv_def buffer_ok_def)
  have lookup: "fmlookup (con_early_event_buffer ?d) j =
      (if j = i then if es = [] then None else Some es else fmlookup (con_early_event_buffer c) j)" for j
    by (simp add: keep_early_def)
  have "con_early_event_count ?d = length es + ?rest"
    using cnt len by (simp add: keep_early_def)
  moreover have "fm_sum (\<lambda>_. length) (con_early_event_buffer ?d) = length es + ?rest"
    by (simp add: keep_early_def fm_sum_upd)
  moreover have "con_early_event_count ?d \<le> con_early_event_count c"
    "con_max_connection_pending_events ?d = con_max_connection_pending_events c"
    "con_max_session_pending_events ?d = con_max_session_pending_events c"
    by (simp_all add: keep_early_def)
  moreover have "length es \<le> unat (con_max_session_pending_events c)"
    using len old(1) by (rule order_trans)
  moreover have "\<forall>e\<in>set es. early_event_of i (snd e)"
    using old(2) es by auto
  ultimately have "buffer_ok ?d"
    using inv unfolding con_inv_def buffer_ok_def lookup by (simp split: if_splits)
  moreover have "early_ok ?d"
  proof -
    have "set (early_sids es) \<subseteq> set (early_sids (early_events c i))" "distinct (early_sids es)"
      using es early_sids_filter old(3) by auto
    then show ?thesis
      using inv old(4,5) unfolding con_inv_def early_ok_def lookup
      by (simp add: keep_early_def disjoint_iff) blast
  qed
  moreover have "sessions_ok ?d" "table_ok ?d" "requests_ok ?d" "state_ok ?d" "limit_ok ?d"
    by (rule con_frames [of c]; use inv in \<open>simp add: keep_early_def session_total_def con_inv_def\<close>)+
  ultimately show ?thesis by (simp add: con_inv_def)
qed

lemma keep_early_keeps:
  assumes "con_inv c" "es = filter P (early_events c i)"
  shows "con_keeps c {#} ([], keep_early c i es)"
  using keep_early_inv [OF assms]
  by (simp add: con_keeps_def con_moves_def con_grows_def con_holds_def keep_early_def)

lemma replay_event_absent [simp]:
  "snd (replay_event False e now c) = c" "dispatched (fst (replay_event False e now c)) = []"
  by (cases e; simp add: replay_event_def)+

lemma replay_each_absent [simp]:
  "snd (replay_each False es now c) = c" "dispatched (fst (replay_each False es now c)) = []"
  by (induction es) (simp_all add: Let_def case_prod_beta)

lemma replay_early_events_keeps:
  assumes inv: "con_inv c"
  shows "con_keeps c {#} (replay_early_events c i now)"
proof (cases "fmlookup (con_early_event_buffer c) i")
  case None
  then show ?thesis by (simp add: replay_early_events_def con_keeps_refl inv)
next
  case (Some es)
  let ?d = "keep_early c i []"
  note old = early_events_ok [OF inv, where i = i]
  have es: "early_events c i = es" using Some by (simp add: early_events_def)
  have step: "con_keeps c {#} ([], ?d)"
    using keep_early_keeps [OF inv, of "[]" "\<lambda>_. False" i] by simp
  have eq: "replay_early_events c i now = replay_each (i |\<in>| fmdom (con_sessions ?d)) es now ?d"
    using Some es by (simp add: replay_early_events_def keep_early_def)
  show ?thesis
  proof (cases "i |\<in>| fmdom (con_sessions ?d)")
    case True
    have "con_keeps ?d {#} (replay_each True es now ?d)"
    proof (rule replay_each_keeps)
      fix sid assume "sid \<in> set (early_sids es)"
      then show "is_fresh_stream ?d sid \<and> is_peer_initiated_stream sid (con_is_client ?d)"
        using old(4) old(5) es by (auto simp: fresh_stream_iff keep_early_def split: if_splits)
    qed (use step True old(2,3) es in \<open>auto simp: con_keeps_def\<close>)
    with con_keeps_trans [OF step, of "{#}" "replay_each True es now ?d"] True eq show ?thesis by simp
  next
    case False
    moreover have "replay_each False es now ?d = (fst (replay_each False es now ?d), ?d)"
      by (simp add: prod_eq_iff)
    ultimately show ?thesis
      using con_keeps_effects [OF step, of "fst (replay_each False es now ?d)"] eq by simp
  qed
qed

subsection \<open>Expiry\<close>

lemma expired_effects_quiet [simp]: "dispatched (expired_effects e) = []"
  by (cases e) (simp_all add: expired_effects_def)

lemma expired_quiet: "dispatched (concat (map (expired_effects \<circ> snd) es)) = []"
  by (induction es) simp_all

lemma prune_each_keeps:
  assumes "con_inv c"
  shows "con_keeps c {#} (prune_each ids now c)"
  using assms
proof (induction ids arbitrary: c)
  case Nil
  then show ?case by (simp add: con_keeps_refl)
next
  case (Cons i ids)
  let ?valid = "\<lambda>(timestamp, event). now - timestamp < con_early_event_ttl c"
  let ?es = "filter ?valid (early_events c i)" and ?xs = "filter (\<lambda>e. \<not> ?valid e) (early_events c i)"
  let ?d = "keep_early c i ?es"
  have "con_keeps c {#} (concat (map (expired_effects \<circ> snd) ?xs), ?d)"
    by (rule con_keeps_effects [OF keep_early_keeps [OF Cons.prems refl]]) (simp only: expired_quiet dispatched_simps)
  from con_keeps_trans [OF this, of "{#}" "prune_each ids now ?d"] Cons.IH [of ?d]
  have "con_keeps c {#} (concat (map (expired_effects \<circ> snd) ?xs) @ fst (prune_each ids now ?d), snd (prune_each ids now ?d))"
    by simp
  moreover have "length ?xs = length (early_events c i) - length ?es"
    using sum_length_filter_compl [of ?valid "early_events c i"] by simp
  ultimately show ?case
    by (simp add: keep_early_swap Let_def case_prod_beta)
qed

end
