(* ===== verification/Connection_Lifecycle.thy ===== *)
theory Connection_Lifecycle
  imports Connection_Early
begin

text \<open>
  The operations that open, drain and close a connection and drop its closed sessions keep the
  invariant and the books.
\<close>

lemma con_inv_parts:
  "con_inv c \<Longrightarrow> sessions_ok c" "con_inv c \<Longrightarrow> table_ok c" "con_inv c \<Longrightarrow> buffer_ok c" "con_inv c \<Longrightarrow> early_ok c"
  "con_inv c \<Longrightarrow> requests_ok c" "con_inv c \<Longrightarrow> state_ok c" "con_inv c \<Longrightarrow> limit_ok c"
  by (simp_all add: con_inv_def)

subsection \<open>The requests held\<close>

lemma mset_sorted_keys: "mset (sorted_keys m) = mset_set (fset (fmdom m))"
  by (metis mset_sorted_list_of_multiset sorted_keys_def sorted_list_of_fset.rep_eq sorted_list_of_mset_set)

lemma sorted_keys_simps [simp]: "sorted_keys fmempty = []" "distinct (sorted_keys m)"
  by (simp_all add: sorted_keys_def sorted_list_of_fset.rep_eq)

lemma mset_keys_upd: "k |\<notin>| fmdom m \<Longrightarrow> mset (sorted_keys (fmupd k v m)) = add_mset k (mset (sorted_keys m))"
  by (simp add: mset_sorted_keys)

lemma mset_keys_drop: "k |\<in>| fmdom m \<Longrightarrow> mset (sorted_keys m) = add_mset k (mset (sorted_keys (fmdrop k m)))"
  by (simp add: mset_sorted_keys mset_set.remove)

lemma con_holds_simps [simp]:
  "con_holds (c\<lparr>con_stream_map := m\<rparr>) = con_holds c"
  "con_holds (c\<lparr>con_pending_session_requests := pq\<rparr>) = con_holds c"
  "con_holds (c\<lparr>con_blocked_session_requests := b\<rparr>) = con_holds c"
  "con_holds (c\<lparr>con_state := st\<rparr>) = con_holds c"
  "con_holds (c\<lparr>con_local_goaway_sent := g\<rparr>) = con_holds c"
  "con_holds (c\<lparr>con_peer_goaway_received := g\<rparr>) = con_holds c"
  "con_holds (c\<lparr>con_handshake_completed := g\<rparr>) = con_holds c"
  "con_holds (c\<lparr>con_peer_settings_received := g\<rparr>) = con_holds c"
  "con_holds (c\<lparr>con_peer_initial_max_data := w\<rparr>) = con_holds c"
  "con_holds (c\<lparr>con_peer_initial_max_streams_bidi := w\<rparr>) = con_holds c"
  "con_holds (c\<lparr>con_peer_initial_max_streams_uni := w\<rparr>) = con_holds c"
  "con_holds (c\<lparr>con_connected_at := ti\<rparr>) = con_holds c"
  "con_holds (c\<lparr>con_closed_at := ti\<rparr>) = con_holds c"
  "con_holds (c\<lparr>con_close_code := cc\<rparr>) = con_holds c"
  "con_holds (c\<lparr>con_close_reason := cr\<rparr>) = con_holds c"
  "con_holds (c\<lparr>con_peer_max_datagram_frame_size := ds\<rparr>) = con_holds c"
  by (simp_all add: con_holds_def)

subsection \<open>Opening\<close>

lemma connection_open_keeps:
  assumes "con_inv c" "con_rank (con_state c) \<le> 1"
  shows "con_keeps c {#} (connection_open c now)"
proof -
  let ?d = "snd (connection_open c now)"
  have "state_ok ?d"
    by (simp add: state_ok_def connection_open_def)
  moreover have "sessions_ok ?d" "table_ok ?d" "buffer_ok ?d" "early_ok ?d" "requests_ok ?d" "limit_ok ?d"
    by (rule con_frames [of c]; use assms(1) in \<open>simp add: connection_open_def session_total_def con_inv_def\<close>)+
  ultimately have "con_inv ?d" by (simp add: con_inv_def)
  then show ?thesis
    using assms(2)
    by (cases "con_request_id c") (simp_all add: con_keeps_def con_moves_def con_grows_def con_holds_def connection_open_def)
qed

lemma set_state_inv:
  assumes "con_inv c" "st \<noteq> ConnectionState.Connected" "st \<noteq> ConnectionState.Closed"
  shows "con_inv (c\<lparr>con_state := st\<rparr>)" (is "con_inv ?d")
proof -
  have "state_ok ?d" using assms(2,3) by (simp add: state_ok_def)
  moreover have "sessions_ok ?d" "table_ok ?d" "buffer_ok ?d" "early_ok ?d" "requests_ok ?d" "limit_ok ?d"
    by (rule con_frames [of c]; use assms(1) in \<open>simp add: session_total_def con_inv_def\<close>)+
  ultimately show ?thesis by (simp add: con_inv_def)
qed

lemma handshake_keeps:
  assumes inv: "con_inv c"
  shows "con_keeps c {#} (handle_handshake_completed c now)"
proof (cases "con_rank (con_state c) \<le> 1")
  case False
  then have "con_state c \<noteq> ConnectionState.Idle" "con_state c \<noteq> ConnectionState.Connecting" by auto
  then show ?thesis using inv by (simp add: handle_handshake_completed_def con_keeps_refl)
next
  case True
  let ?d = "c\<lparr>con_state := ConnectionState.Connecting, con_handshake_completed := True\<rparr>"
  have "(if con_state c = ConnectionState.Idle then c\<lparr>con_state := ConnectionState.Connecting\<rparr> else c)
      = c\<lparr>con_state := ConnectionState.Connecting\<rparr>"
    using True by (cases "con_state c"; cases c) auto
  then have eq: "handle_handshake_completed c now =
    (if \<not> con_is_client c \<or> con_peer_settings_received c
     then (CreateH3LocalStreams # fst (connection_open ?d now), snd (connection_open ?d now)) else ([CreateH3LocalStreams], ?d))"
    by (simp add: handle_handshake_completed_def Let_def case_prod_beta)
  have "con_inv ?d" using set_state_inv [OF inv] by simp
  then have d: "con_keeps c {#} ([CreateH3LocalStreams], ?d)"
    using True by (simp add: con_keeps_def con_moves_def con_grows_def)
  have "con_keeps ?d {#} (connection_open ?d now)"
    using connection_open_keeps [OF \<open>con_inv ?d\<close>] by simp
  with con_keeps_trans [OF d, of "{#}" "connection_open ?d now"] d show ?thesis
    by (simp add: eq)
qed

lemma recv_settings_keeps:
  assumes inv: "con_inv c" and once: "\<not> con_peer_settings_received c"
  shows "con_keeps c {#} (recv_settings c settings now)"
proof -
  let ?d = "c\<lparr>con_peer_settings_received := True,
    con_peer_initial_max_data := or_keep (set_wt_initial_max_data settings) (con_peer_initial_max_data c),
    con_peer_initial_max_streams_bidi := or_keep (set_wt_initial_max_streams_bidi settings) (con_peer_initial_max_streams_bidi c),
    con_peer_initial_max_streams_uni := or_keep (set_wt_initial_max_streams_uni settings) (con_peer_initial_max_streams_uni c)\<rparr>"
  have "limit_ok ?d"
    using inv once by (auto simp: con_inv_def limit_ok_def session_total_def)
  moreover have "sessions_ok ?d" "table_ok ?d" "buffer_ok ?d" "early_ok ?d" "requests_ok ?d" "state_ok ?d"
    by (rule con_frames [of c]; use inv in \<open>simp add: con_inv_def\<close>)+
  ultimately have d: "con_inv ?d" by (simp add: con_inv_def)
  then have step: "con_keeps c {#} ([], ?d)"
    by (simp add: con_keeps_def con_moves_def con_grows_def)
  show ?thesis
  proof (cases "con_state c = ConnectionState.Connecting \<and> con_handshake_completed c")
    case True
    then have "con_keeps ?d {#} (connection_open ?d now)"
      using connection_open_keeps [OF d] by simp
    with con_keeps_trans [OF step, of "{#}" "connection_open ?d now"] True show ?thesis
      by (simp add: recv_settings_def)
  qed (use step in \<open>auto simp: recv_settings_def\<close>)
qed

subsection \<open>Closing\<close>

lemma connection_close_keeps:
  assumes inv: "con_inv c"
  shows "con_keeps c (mset (option_request r)) (connection_close c r ec m now)"
proof -
  have done_eq: "dispatched (option_done r) = option_request r"
    by (simp add: option_done_def option_request_def split: option.splits)
  show ?thesis
  proof (cases "con_state c \<in> {ConnectionState.Closed, ConnectionState.Closing}")
    case True
    then show ?thesis
      using inv done_eq by (simp add: connection_close_def con_keeps_refl)
  next
    case False
    then have "con_rank (con_state c) \<le> 3" by (cases "con_state c") auto
    with False show ?thesis
      using set_state_inv [of "c\<lparr>con_close_code := Some ec, con_close_reason := m, con_closed_at := Some now\<rparr>"
          ConnectionState.Closing] inv done_eq
      by (simp add: connection_close_def con_keeps_def con_moves_def con_grows_def)
  qed
qed

lemma close_gracefully_keeps:
  assumes "con_inv c"
  shows "con_keeps c {#r#} (close_gracefully c r)"
proof (cases "con_state c = ConnectionState.Connected")
  case True
  let ?d = "c\<lparr>con_local_goaway_sent := True\<rparr>" and ?goaway = "if con_local_goaway_sent c then [] else [SendH3Goaway (goaway_identifier c)]"
  let ?q = "on_all_sessions ?d session_drain"
  have step: "con_keeps c {#} (?goaway, ?d)"
    using assms by (simp add: con_keeps_def con_moves_def con_grows_def)
  have "con_keeps ?d {#} ?q"
    unfolding on_all_sessions_def
    by (rule each_session_keeps [where call = SessionDrain]) (use assms in \<open>auto simp: opens_def session_call_ok_def\<close>)
  with con_keeps_trans [OF step, of "{#}" ?q]
  have all: "con_keeps c {#} (?goaway @ fst ?q, snd ?q)" by simp
  then have "con_keeps (snd ?q) {#r#} ([NotifyRequestDone r ResultNone], snd ?q)"
    by (simp add: con_keeps_refl con_keeps_def [of c])
  with con_keeps_trans [OF all, of "{#r#}" "([NotifyRequestDone r ResultNone], snd ?q)"] True show ?thesis
    by (simp add: close_gracefully_def Let_def case_prod_beta)
qed (simp add: close_gracefully_def con_keeps_refl assms)

subsection \<open>All sessions\<close>

text \<open>The loops over all sessions touch the table of sessions only.\<close>

fun each_on :: "SessionId list \<Rightarrow> (Session \<Rightarrow> effects \<times> Session) \<Rightarrow> (SessionId, Session) fmap
    \<Rightarrow> effects \<times> (SessionId, Session) fmap" where
  "each_on [] f m = ([], m)"
| "each_on (i # ids) f m =
    (case fmlookup m i of
       None \<Rightarrow> each_on ids f m
     | Some s \<Rightarrow> (fst (f s) @ fst (each_on ids f (fmupd i (snd (f s)) m)), snd (each_on ids f (fmupd i (snd (f s)) m))))"

lemma each_session_eq:
  "each_session ids f c = (fst (each_on ids f (con_sessions c)), c\<lparr>con_sessions := snd (each_on ids f (con_sessions c))\<rparr>)"
  by (induction ids arbitrary: c)
     (auto simp: on_session_def put_session_def Let_def split: option.splits)

lemma each_on_lookup:
  "distinct ids \<Longrightarrow> fmlookup (snd (each_on ids f m)) i =
    (if i \<in> set ids then map_option (\<lambda>s. snd (f s)) (fmlookup m i) else fmlookup m i)"
  by (induction ids arbitrary: m) (auto split: option.splits)

lemma connect_close_closed:
  assumes "session_inv s"
  shows "ses_state (snd (recv_connect_close s ec m now)) = SessionState.Closed"
  using close_down_facts(3) [of s SessionState.Closed] assms
  by (cases "ses_state s") (simp_all add: recv_connect_close_def session_inv_base Let_def case_prod_beta)

text \<open>The end of a connection: every session is told, and every request for a session fails.\<close>

definition ended :: "Connection \<Rightarrow> Connection" where
  "ended c = c\<lparr>con_state := ConnectionState.Closed, con_session_requests := fmempty, con_request_id := None,
    con_blocked_session_requests := [], con_pending_session_requests := fmempty\<rparr>"

lemma ended_inv:
  assumes inv: "con_inv c" and closed: "\<And>i s. fmlookup (con_sessions c) i = Some s \<Longrightarrow> ses_state s = SessionState.Closed"
  shows "con_inv (ended c)"
proof -
  have "state_ok (ended c)" "requests_ok (ended c)"
    using closed by (simp_all add: ended_def state_ok_def requests_ok_def)
  moreover have "limit_ok (ended c)"
    using inv by (auto simp: con_inv_def limit_ok_def ended_def session_total_def)
  moreover have "sessions_ok (ended c)" "table_ok (ended c)" "buffer_ok (ended c)" "early_ok (ended c)"
    by (rule con_frames [of c]; use inv in \<open>simp add: con_inv_def ended_def\<close>)+
  ultimately show ?thesis by (simp add: con_inv_def)
qed

lemma ended_holds: "con_holds c = con_holds (ended c) + mset (sorted_keys (con_session_requests c) @ option_request (con_request_id c))"
  by (simp add: con_holds_def ended_def)

lemma ended_sessions: "(ended c)\<lparr>con_sessions := x\<rparr> = ended (c\<lparr>con_sessions := x\<rparr>)" "con_sessions (ended c) = con_sessions c"
  "con_handle (ended c) = con_handle c"
  by (cases c; simp add: ended_def)+

lemma dispatched_failures [simp]: "dispatched (map (\<lambda>r. NotifyRequestFailed r src ec m) rs) = rs"
  by (induction rs) simp_all

lemma ended_keeps:
  assumes "con_keeps c {#} (es, d)" "con_inv (ended d)" "mset rs = mset (sorted_keys (con_session_requests d) @ option_request (con_request_id d))"
    "dispatched fs = rs"
  shows "con_keeps c {#} (es @ fs, ended d)"
proof -
  have c: "mset (dispatched es) + con_holds d = con_holds c" and grows: "con_grows c d"
    using assms(1) by (simp_all add: con_keeps_def con_moves_def)
  have "mset (dispatched (es @ fs)) + con_holds (ended d) = mset (dispatched es) + con_holds d"
    unfolding ended_holds [of d] using assms(3,4) by (simp add: add.assoc add.commute [of "con_holds (ended d)"])
  moreover have "con_grows c (ended d)"
  proof -
    have "con_rank (con_state c) \<le> 4" by (cases "con_state c") auto
    with grows show ?thesis by (simp add: con_grows_def ended_def)
  qed
  ultimately show ?thesis
    using c assms(2) by (simp add: con_keeps_def con_moves_def)
qed

lemma terminated_keeps:
  assumes inv: "con_inv c"
  shows "con_keeps c {#} (handle_terminated c ec m now)"
proof (cases "con_state c = ConnectionState.Closed")
  case True
  then show ?thesis by (simp add: handle_terminated_def con_keeps_refl inv)
next
  case False
  define f where "f = (\<lambda>session. recv_connect_close session ec m now)"
  define c0 where "c0 = (if con_state c = ConnectionState.Closing then c
    else c\<lparr>con_close_code := Some ec, con_close_reason := Some m, con_closed_at := Some now\<rparr>)"
  define ids where "ids = sorted_keys (con_sessions c)"
  define d where "d = snd (each_session ids f c0)"
  have c0: "con_inv c0" "con_keeps c {#} ([], c0)" "con_sessions c0 = con_sessions c"
    "con_session_requests c0 = con_session_requests c" "con_request_id c0 = con_request_id c" "con_handle c0 = con_handle c"
    using inv by (simp_all add: c0_def con_keeps_def con_moves_def con_grows_def)
  have "con_keeps c0 {#} (each_session ids f c0)"
    by (rule each_session_keeps [where call = "SessionRecvConnectClose ec m now"])
       (use c0 in \<open>auto simp: opens_def session_call_ok_def f_def\<close>)
  with con_keeps_trans [OF c0(2), of "{#}" "each_session ids f c0"]
  have step: "con_keeps c {#} (fst (each_session ids f c0), d)" by (simp add: d_def)
  have d: "d = c0\<lparr>con_sessions := snd (each_on ids f (con_sessions c))\<rparr>"
    by (simp add: d_def each_session_eq c0)
  have "distinct ids" "set ids = fset (fmdom (con_sessions c))" by (simp_all add: ids_def)
  then have "ses_state t = SessionState.Closed" if "fmlookup (con_sessions d) i = Some t" for i t
    using that inv reachable_inv connect_close_closed
    by (auto simp: d each_on_lookup f_def con_inv_def sessions_ok_def dest: fmdom_notD split: if_splits)
  then have "con_inv (ended d)"
    using step ended_inv by (simp add: con_keeps_def)
  moreover define fs where "fs = EmitConnectionEvent (con_handle c) ConnectionClosed (Some ec) (Some m) #
    map (\<lambda>r. NotifyRequestFailed r ErrorSource.Connection (Some ERR_LIB_CONNECTION_STATE_ERROR)
        (if con_state c = ConnectionState.Closing then ''wt_connection close'' else ''wt_connection abort''))
      (sort (sorted_keys (con_session_requests c) @ option_request (con_request_id c)))"
  moreover have "each_session ids f (ended c0) = (fst (each_session ids f c0), ended d)"
    unfolding each_session_eq d by (simp add: ended_sessions c0)
  then have "handle_terminated c ec m now = (fst (each_session ids f c0) @ fs, ended d)"
    using False c0(6)
    by (cases "con_state c = ConnectionState.Closing")
       (simp_all add: handle_terminated_def on_all_sessions_def Let_def case_prod_beta c0_def ended_def ids_def f_def
          option_request_def fs_def d)
  ultimately show ?thesis
    using ended_keeps [OF step, of "sort (sorted_keys (con_session_requests c) @ option_request (con_request_id c))" fs] c0(4,5)
    by (simp add: d)
qed

subsection \<open>Dropping closed sessions\<close>

lemma map_len_filter: "map_len (fmfilter P m) \<le> map_len m"
  unfolding map_len_def by (rule fcard_mono) auto

lemma prune_resources_lookup:
  "fmlookup (con_sessions (prune_resources c)) i = (if is_session_closed c i then None else fmlookup (con_sessions c) i)"
  "fmlookup (con_stream_map (prune_resources c)) sid =
    (case fmlookup (con_stream_map c) sid of None \<Rightarrow> None | Some i \<Rightarrow> if is_session_closed c i then None else Some i)"
  by (simp_all add: prune_resources_def Let_def split: option.splits)

lemma prune_resources_inv:
  assumes inv: "con_inv c" and idle: "\<And>sid. sid |\<in>| fmdom (con_pending_session_requests c) \<Longrightarrow> \<not> is_session_closed c sid"
  shows "con_inv (prune_resources c)"
proof -
  let ?d = "prune_resources c"
  have same: "con_session_requests ?d = con_session_requests c" "con_pending_session_requests ?d = con_pending_session_requests c"
    "con_blocked_session_requests ?d = con_blocked_session_requests c" "con_is_client ?d = con_is_client c"
    "con_max_write_buffer_size ?d = con_max_write_buffer_size c" "con_state ?d = con_state c" "con_request_id ?d = con_request_id c"
    "con_max_sessions ?d = con_max_sessions c" "con_peer_settings_received ?d = con_peer_settings_received c"
    "has_flow_control ?d = has_flow_control c"
    by (simp_all add: prune_resources_def Let_def)
  have dom: "i |\<in>| fmdom (con_sessions ?d) \<longleftrightarrow> i |\<in>| fmdom (con_sessions c) \<and> \<not> is_session_closed c i" for i
    by (auto simp: prune_resources_def Let_def)
  have "session_total ?d \<le> session_total c"
    using map_len_filter by (simp add: session_total_def prune_resources_def Let_def)
  then have "limit_ok ?d"
    using con_inv_parts(7) [OF inv] same by (auto simp: limit_ok_def)
  moreover have "sessions_ok ?d" "state_ok ?d"
    using con_inv_parts(1,6) [OF inv] by (simp_all add: sessions_ok_def state_ok_def prune_resources_lookup same)
  moreover have "table_ok ?d"
    using con_inv_parts(2) [OF inv] by (auto simp: table_ok_def prune_resources_lookup dom split: option.splits if_splits)
  moreover have "early_ok ?d"
  proof -
    have "fset (fmdom (con_stream_map ?d)) \<subseteq> fset (fmdom (con_stream_map c))" "con_early_event_buffer ?d = con_early_event_buffer c"
      by (auto simp: prune_resources_def Let_def)
    then show ?thesis
      using con_inv_parts(4) [OF inv] same(4) by (auto simp: early_ok_def)
  qed
  moreover have "requests_ok ?d"
    using con_inv_parts(5) [OF inv] idle unfolding requests_ok_def dom same by (meson fmdomI)
  moreover have "buffer_ok ?d"
    by (rule con_frames [of c]; use inv in \<open>simp add: con_inv_def prune_resources_def Let_def\<close>)
  ultimately show ?thesis by (simp add: con_inv_def)
qed

lemma prune_resources_keeps:
  assumes inv: "con_inv c" and idle: "\<And>sid. sid |\<in>| fmdom (con_pending_session_requests c) \<Longrightarrow> \<not> is_session_closed c sid"
  shows "con_keeps c {#} ([], prune_resources c)"
proof -
  have "session_holds s = {#}" if "fmlookup (con_sessions c) i = Some s" "is_session_closed c i" for i s
  proof -
    have "gone_ok s" "ses_state s = SessionState.Closed"
      using that inv reachable_inv
      by (auto simp: con_inv_def sessions_ok_def session_inv_def is_session_closed_def session_is_closed_def)
    then show ?thesis by (simp add: gone_ok_def session_holds_def)
  qed
  then have "fm_sum (\<lambda>_. session_holds) (fmfilter (\<lambda>i. \<not> is_session_closed c i) (con_sessions c)) = fm_sum (\<lambda>_. session_holds) (con_sessions c)"
    by (intro fm_sum_filter) auto
  then have "con_holds (prune_resources c) = con_holds c"
    by (simp add: con_holds_def prune_resources_def Let_def)
  then show ?thesis
    using prune_resources_inv [OF assms]
    by (simp add: con_keeps_def con_moves_def con_grows_def) (simp add: prune_resources_def Let_def)
qed

end
