(* ===== verification/Connection_Requests.thy ===== *)
theory Connection_Requests
  imports Connection_Lifecycle
begin

text \<open>
  The requests for sessions: the operations that take them, hand them to the transport, and turn
  them into sessions or refuse them keep the invariant and the books.
\<close>

text \<open>A request whose CONNECT stream is with the transport.\<close>

definition connecting :: "Connection \<Rightarrow> RequestId \<Rightarrow> bool" where
  "connecting c r \<longleftrightarrow> r |\<in>| fmdom (con_session_requests c) \<and> r \<notin> set (con_blocked_session_requests c)
    \<and> r |\<notin>| fmran (con_pending_session_requests c)"

lemma pending_ran: "r |\<notin>| fmran m \<longleftrightarrow> (\<forall>k. fmlookup m k \<noteq> Some r)"
  by (auto simp: fmlookup_ran_iff)

lemma requests_okD:
  assumes "requests_ok c"
  shows "fmlookup (con_pending_session_requests c) sid = Some r \<Longrightarrow>
      sid |\<in>| fmdom (con_sessions c) \<or> r |\<in>| fmdom (con_session_requests c)"
    "fmlookup (con_pending_session_requests c) sid = Some r \<Longrightarrow> r \<notin> set (con_blocked_session_requests c)"
    "fmlookup (con_pending_session_requests c) sid = Some r \<Longrightarrow>
      fmlookup (con_pending_session_requests c) sid' = Some r \<Longrightarrow> sid = sid'"
    "fmlookup (con_pending_session_requests c) sid = Some r \<Longrightarrow> sid |\<in>| fmdom (con_sessions c) \<Longrightarrow>
      r |\<notin>| fmdom (con_session_requests c)"
    "distinct (con_blocked_session_requests c)"
    "set (con_blocked_session_requests c) \<subseteq> fset (fmdom (con_session_requests c))"
    "\<not> con_is_client c \<Longrightarrow> con_session_requests c = fmempty"
  using assms unfolding requests_ok_def by blast+

lemma requests_okI:
  assumes "\<And>sid r. fmlookup (con_pending_session_requests c) sid = Some r \<Longrightarrow>
      sid |\<in>| fmdom (con_sessions c) \<or> r |\<in>| fmdom (con_session_requests c)"
    "\<And>sid r. fmlookup (con_pending_session_requests c) sid = Some r \<Longrightarrow> r \<notin> set (con_blocked_session_requests c)"
    "\<And>sid sid' r. fmlookup (con_pending_session_requests c) sid = Some r \<Longrightarrow>
      fmlookup (con_pending_session_requests c) sid' = Some r \<Longrightarrow> sid = sid'"
    "\<And>sid r. fmlookup (con_pending_session_requests c) sid = Some r \<Longrightarrow> sid |\<in>| fmdom (con_sessions c) \<Longrightarrow>
      r |\<notin>| fmdom (con_session_requests c)"
    "distinct (con_blocked_session_requests c)"
    "set (con_blocked_session_requests c) \<subseteq> fset (fmdom (con_session_requests c))"
    "\<not> con_is_client c \<Longrightarrow> con_session_requests c = fmempty"
  shows "requests_ok c"
  using assms unfolding requests_ok_def by blast

subsection \<open>Taking a request\<close>

lemma total_small:
  assumes "con_inv c" "active_limit c > 0" "\<not> of_nat (session_total c) \<ge> active_limit c"
  shows "session_total c < unat (active_limit c)"
proof -
  have "session_total c \<le> unat (active_limit c)"
    using con_inv_parts(7) [OF assms(1)] assms(2) by (auto simp: limit_ok_def active_limit_def word_gt_0)
  then show ?thesis using assms(3) by (rule of_nat_ge)
qed

lemma limit_add:
  assumes inv: "con_inv c" and room: "\<not> (active_limit c > 0 \<and> of_nat (session_total c) \<ge> active_limit c)"
    and total: "session_total d \<le> Suc (session_total c)"
    and same: "has_flow_control d = has_flow_control c" "con_max_sessions d = con_max_sessions c"
      "con_peer_settings_received d = con_peer_settings_received c"
  shows "limit_ok d"
proof (cases "active_limit c = 0")
  case True
  then show ?thesis
    using con_inv_parts(7) [OF inv] same by (auto simp: limit_ok_def active_limit_def split: if_splits)
next
  case False
  then have less: "session_total c < unat (active_limit c)"
    using total_small [OF inv] room by (simp add: word_gt_0)
  have "con_max_sessions c \<noteq> 0 \<Longrightarrow> 1 \<le> unat (con_max_sessions c)"
    by (simp add: Suc_le_eq unat_gt_0)
  then show ?thesis
    using con_inv_parts(7) [OF inv] same total less
    by (auto simp: limit_ok_def active_limit_def split: if_splits)
qed

lemma create_session_keeps:
  assumes inv: "con_inv c" and new: "r |\<notin>| fmdom (con_session_requests c)" "r |\<notin>| fmran (con_pending_session_requests c)"
  shows "con_keeps c {#r#} (create_session c r q)"
proof -
  have added: "con_keeps c {#r#} ([CreateH3ConnectStream r a p hs], c\<lparr>con_session_requests := fmupd r q' (con_session_requests c)\<rparr>)"
    if ok: "con_is_client c" "con_state c = ConnectionState.Connected"
      "\<not> (active_limit c > 0 \<and> of_nat (session_total c) \<ge> active_limit c)" for a p hs q'
  proof -
    let ?d = "c\<lparr>con_session_requests := fmupd r q' (con_session_requests c)\<rparr>"
    have "limit_ok ?d"
      by (rule limit_add [OF inv ok(3)]) (use new in \<open>simp_all add: session_total_def map_len_upd\<close>)
    moreover have "requests_ok ?d"
      using con_inv_parts(5) [OF inv] new(2) ok(1) by (auto simp: requests_ok_def pending_ran)
    moreover have "state_ok ?d"
      using con_inv_parts(6) [OF inv] ok(2) by (simp add: state_ok_def)
    moreover have "sessions_ok ?d" "table_ok ?d" "buffer_ok ?d" "early_ok ?d"
      by (rule con_frames [of c]; use inv in \<open>simp add: con_inv_def\<close>)+
    ultimately have "con_inv ?d" by (simp add: con_inv_def)
    then show ?thesis
      using mset_keys_upd [OF new(1), of q']
      by (simp add: con_keeps_def con_moves_def con_grows_def con_holds_def)
  qed
  then show ?thesis
    unfolding create_session_def connection_failure_def
    by (auto simp: con_keeps_refl inv session_total_def split: sum.splits option.splits)
qed

lemma defer_session_keeps:
  assumes inv: "con_inv c" and r: "connecting c r"
  shows "con_keeps c {#} (defer_session c r)"
proof -
  let ?d = "snd (defer_session c r)"
  have "requests_ok ?d"
    using con_inv_parts(5) [OF inv] r by (auto simp: requests_ok_def defer_session_def connecting_def pending_ran)
  moreover have "sessions_ok ?d" "table_ok ?d" "buffer_ok ?d" "early_ok ?d" "state_ok ?d" "limit_ok ?d"
    by (rule con_frames [of c]; use inv in \<open>simp add: con_inv_def defer_session_def session_total_def\<close>)+
  ultimately have "con_inv ?d" by (simp add: con_inv_def)
  then show ?thesis
    by (simp add: con_keeps_def con_moves_def con_grows_def defer_session_def)
qed

subsection \<open>Refusing and granting a request\<close>

lemma drop_request_keeps:
  assumes inv: "con_inv c" and r: "connecting c r" and es: "dispatched es = [r]"
  shows "con_keeps c {#} (es, c\<lparr>con_session_requests := fmdrop r (con_session_requests c)\<rparr>)" (is "con_keeps c _ (_, ?d)")
proof -
  have "requests_ok ?d"
    using con_inv_parts(5) [OF inv] r unfolding requests_ok_def connecting_def pending_ran by auto
  moreover have "state_ok ?d"
    using con_inv_parts(6) [OF inv] by (simp add: state_ok_def)
  moreover have "limit_ok ?d"
    using con_inv_parts(7) [OF inv] map_len_drop_le [of r "con_session_requests c"]
    by (auto simp: limit_ok_def session_total_def)
  moreover have "sessions_ok ?d" "table_ok ?d" "buffer_ok ?d" "early_ok ?d"
    by (rule con_frames [of c]; use inv in \<open>simp add: con_inv_def\<close>)+
  ultimately have "con_inv ?d" by (simp add: con_inv_def)
  then show ?thesis
    using mset_keys_drop [of r "con_session_requests c"] r es
    by (simp add: con_keeps_def con_moves_def con_grows_def con_holds_def connecting_def)
qed

lemma fail_session_keeps:
  assumes "con_inv c" "connecting c r"
  shows "con_keeps c {#} (fail_session c r ec m)"
  using drop_request_keeps [OF assms] by (simp add: fail_session_def)

text \<open>The session of a request takes its place.\<close>

lemma promote_inv:
  assumes inv: "con_inv c" and i: "i |\<notin>| fmdom (con_sessions c)" and r: "r |\<in>| fmdom (con_session_requests c)"
      "r \<notin> set (con_blocked_session_requests c)" "\<And>sid. fmlookup (con_pending_session_requests c) sid = Some r \<Longrightarrow> sid = i"
      "\<And>x. fmlookup (con_pending_session_requests c) i = Some x \<Longrightarrow> x = r"
    and s: "session_reachable s" "ses_id s = i" "ses_is_client s = con_is_client c" "ses_streams s = fmempty"
  shows "con_inv (c\<lparr>con_session_requests := fmdrop r (con_session_requests c), con_sessions := fmupd i s (con_sessions c)\<rparr>)"
    (is "con_inv ?d")
proof -
  have "sessions_ok ?d"
    using con_inv_parts(1) [OF inv] s by (auto simp: sessions_ok_def)
  moreover have "table_ok ?d"
    using con_inv_parts(2) [OF inv] s(4) by (auto simp: table_ok_def)
  moreover have "requests_ok ?d"
  proof (rule requests_okI)
    note old = requests_okD [OF con_inv_parts(5) [OF inv]]
    fix sid sid' x
    assume p: "fmlookup (con_pending_session_requests ?d) sid = Some x"
    then show "sid |\<in>| fmdom (con_sessions ?d) \<or> x |\<in>| fmdom (con_session_requests ?d)"
      using old(1) [of sid x] r(3) [of sid] by auto
    show "x \<notin> set (con_blocked_session_requests ?d)"
      using old(2) p by simp
    show "sid = sid'" if "fmlookup (con_pending_session_requests ?d) sid' = Some x"
      using old(3) p that by simp
    show "x |\<notin>| fmdom (con_session_requests ?d)" if "sid |\<in>| fmdom (con_sessions ?d)"
      using old(4) [of sid x] r(4) [of x] p that by auto
  qed (use requests_okD(5-7) [OF con_inv_parts(5) [OF inv]] r(2) in auto)
  moreover have "state_ok ?d"
    using con_inv_parts(6) [OF inv] r(1) by (auto simp: state_ok_def)
  moreover have "session_total ?d = session_total c"
    using i map_len_drop [OF r(1)] by (simp add: session_total_def map_len_upd)
  then have "limit_ok ?d"
    using con_inv_parts(7) [OF inv] by (simp add: limit_ok_def)
  moreover have "buffer_ok ?d" "early_ok ?d"
    by (rule con_frames [of c]; use inv in \<open>simp add: con_inv_def\<close>)+
  ultimately show ?thesis by (simp add: con_inv_def)
qed

lemma promote_keeps:
  assumes "con_inv c" "i |\<notin>| fmdom (con_sessions c)" "r |\<in>| fmdom (con_session_requests c)"
    "r \<notin> set (con_blocked_session_requests c)" "\<And>sid. fmlookup (con_pending_session_requests c) sid = Some r \<Longrightarrow> sid = i"
    "\<And>x. fmlookup (con_pending_session_requests c) i = Some x \<Longrightarrow> x = r"
    and q: "s = request_session d i q" "session_parameters d = session_parameters c" "con_is_client d = con_is_client c"
    and es: "dispatched es = [r]"
  shows "con_keeps c {#} (es, c\<lparr>con_session_requests := fmdrop r (con_session_requests c), con_sessions := fmupd i s (con_sessions c)\<rparr>)"
proof -
  have "unat (ssp_max_write_buffer_size (session_parameters c)) < 2 ^ 63"
    using con_inv_parts(1) [OF assms(1)] by (simp add: sessions_ok_def session_parameters_def)
  then have s: "session_reachable s" "ses_id s = i" "ses_is_client s = con_is_client c" "ses_streams s = fmempty"
    "session_holds s = {#}"
    using q by (simp_all add: request_session_def session_reachable.created)
       (simp_all add: session_new_def)
  have drop: "fmdrop i (con_sessions c) = con_sessions c"
    using assms(2) by (simp add: fmdom_notD)
  show ?thesis
    using promote_inv [OF assms(1-6) s(1-4)] s(5) mset_keys_drop [OF assms(3)] es
    by (simp add: con_keeps_def con_moves_def con_grows_def con_holds_def fm_sum_upd drop)
qed

lemma session_parameters_simps [simp]:
  "session_parameters (c\<lparr>con_session_requests := q\<rparr>) = session_parameters c"
  "session_parameters (c\<lparr>con_pending_session_requests := pq\<rparr>) = session_parameters c"
  by (simp_all add: session_parameters_def)

lemma bind_session_keeps:
  assumes inv: "con_inv c" and r: "connecting c r"
    and sid: "sid |\<notin>| fmdom (con_pending_session_requests c)" "sid |\<notin>| fmdom (con_sessions c)"
  shows "con_keeps c {#} (bind_session c sid r)"
proof -
  let ?d = "c\<lparr>con_pending_session_requests := fmupd sid r (con_pending_session_requests c)\<rparr>"
  have "requests_ok ?d"
  proof (rule requests_okI)
    note old = requests_okD [OF con_inv_parts(5) [OF inv]]
    fix sid0 sid' x
    assume p: "fmlookup (con_pending_session_requests ?d) sid0 = Some x"
    then show "sid0 |\<in>| fmdom (con_sessions ?d) \<or> x |\<in>| fmdom (con_session_requests ?d)"
      using old(1) [of sid0 x] r by (auto simp: connecting_def split: if_splits)
    show "x \<notin> set (con_blocked_session_requests ?d)"
      using old(2) [of sid0 x] p r by (auto simp: connecting_def split: if_splits)
    show "sid0 = sid'" if "fmlookup (con_pending_session_requests ?d) sid' = Some x"
      using old(3) [of sid0 x sid'] p that r by (auto simp: connecting_def pending_ran split: if_splits)
    show "x |\<notin>| fmdom (con_session_requests ?d)" if "sid0 |\<in>| fmdom (con_sessions ?d)"
      using old(4) [of sid0 x] sid p that by (auto split: if_splits)
  qed (use requests_okD(5-7) [OF con_inv_parts(5) [OF inv]] in auto)
  moreover have "sessions_ok ?d" "table_ok ?d" "buffer_ok ?d" "early_ok ?d" "state_ok ?d" "limit_ok ?d"
    by (rule con_frames [of c]; use inv in \<open>simp add: con_inv_def session_total_def\<close>)+
  ultimately have d: "con_inv ?d" by (simp add: con_inv_def)
  then have step: "con_keeps c {#} ([], ?d)"
    by (simp add: con_keeps_def con_moves_def con_grows_def)
  obtain q where q: "fmlookup (con_session_requests c) r = Some q"
    using r unfolding connecting_def by (metis fmdomE)
  show ?thesis
  proof (cases "srq_optimistic q")
    case False
    then show ?thesis using step q by (simp add: bind_session_def)
  next
    case True
    let ?e = "?d\<lparr>con_session_requests := fmdrop r (con_session_requests c)\<rparr>"
    let ?es = "[EmitSessionEvent sid SessionPending (no_fields\<lparr>ev_path := Some (srq_path q), ev_headers := Some (srq_headers q)\<rparr>),
      NotifyRequestDone r (RequestResult.SessionId sid)]"
    have "con_keeps ?d {#} (?es, ?d\<lparr>con_session_requests := fmdrop r (con_session_requests ?d),
        con_sessions := fmupd sid (request_session ?e sid q) (con_sessions ?d)\<rparr>)"
      by (rule promote_keeps [OF d, where d = ?e and q = q]) (use r sid in \<open>auto simp: connecting_def pending_ran split: if_splits\<close>)
    with con_keeps_trans [OF step, of "{#}" "(?es, ?d\<lparr>con_session_requests := fmdrop r (con_session_requests ?d),
        con_sessions := fmupd sid (request_session ?e sid q) (con_sessions ?d)\<rparr>)"] True q
    show ?thesis by (simp add: bind_session_def Let_def)
  qed
qed

subsection \<open>Requests that wait for the transport\<close>

lemma fold_fmdrop_lookup: "fmlookup (fold fmdrop ks m) k = (if k \<in> set ks then None else fmlookup m k)"
  by (induction ks arbitrary: m) auto

lemma fold_fmdrop_dom: "k |\<in>| fmdom (fold fmdrop ks m) \<longleftrightarrow> k |\<in>| fmdom m \<and> k \<notin> set ks"
  by (induction ks arbitrary: m) auto

lemma fold_fmdrop_keys:
  "distinct ks \<Longrightarrow> set ks \<subseteq> fset (fmdom m) \<Longrightarrow> mset ks + mset (sorted_keys (fold fmdrop ks m)) = mset (sorted_keys m)"
proof (induction ks arbitrary: m)
  case (Cons k ks)
  have "mset ks + mset (sorted_keys (fold fmdrop ks (fmdrop k m))) = mset (sorted_keys (fmdrop k m))"
    using Cons.prems by (intro Cons.IH) auto
  then show ?case
    using mset_keys_drop [of k m] Cons.prems by simp
qed simp

lemma fold_fmdrop_len: "map_len (fold fmdrop ks m) \<le> map_len m"
  by (induction ks arbitrary: m) (auto intro: order_trans map_len_drop_le)

lemma recv_goaway_keeps:
  assumes inv: "con_inv c"
  shows "con_keeps c {#} (recv_goaway c)"
proof -
  let ?b = "con_blocked_session_requests c"
  let ?d = "c\<lparr>con_peer_goaway_received := True, con_blocked_session_requests := [],
    con_session_requests := fold fmdrop ?b (con_session_requests c)\<rparr>"
  let ?fs = "map (\<lambda>r. connection_failure r (Some ERR_LIB_CONNECTION_STATE_ERROR) ''wt_connection validate failed'') ?b"
  note old = requests_okD [OF con_inv_parts(5) [OF inv]]
  have "requests_ok ?d"
    by (rule requests_okI; use old in \<open>simp add: fold_fmdrop_dom\<close>)
  moreover have "state_ok ?d"
    using con_inv_parts(6) [OF inv] by (auto simp: state_ok_def fold_fmdrop_lookup intro!: fmap_ext)
  moreover have "limit_ok ?d"
    using con_inv_parts(7) [OF inv] fold_fmdrop_len [of ?b "con_session_requests c"]
    by (auto simp: limit_ok_def session_total_def)
  moreover have "sessions_ok ?d" "table_ok ?d" "buffer_ok ?d" "early_ok ?d"
    by (rule con_frames [of c]; use inv in \<open>simp add: con_inv_def\<close>)+
  ultimately have d: "con_inv ?d" by (simp add: con_inv_def)
  have keys: "mset (sorted_keys (fold fmdrop ?b (con_session_requests c))) + mset ?b = mset (sorted_keys (con_session_requests c))"
    using fold_fmdrop_keys [OF old(5,6)] by (simp only: add.commute)
  have "dispatched ?fs = ?b"
    by (simp add: connection_failure_def)
  then have step: "con_keeps c {#} (?fs, ?d)"
    using d keys
    by (simp add: con_keeps_def con_moves_def con_grows_def con_holds_def add.left_commute [of "mset ?b"])
  have "con_keeps ?d {#} (on_all_sessions ?d session_drain)"
    unfolding on_all_sessions_def
    by (rule each_session_keeps [where call = SessionDrain]) (use d in \<open>auto simp: opens_def session_call_ok_def\<close>)
  with con_keeps_trans [OF step, of "{#}" "on_all_sessions ?d session_drain"] show ?thesis
    by (simp add: recv_goaway_def Let_def case_prod_beta)
qed

lemma recv_max_streams_keeps:
  assumes inv: "con_inv c"
  shows "con_keeps c {#} (recv_max_streams c u)"
proof -
  let ?d = "if u then c else c\<lparr>con_blocked_session_requests := []\<rparr>"
  let ?es = "if u then [] else concat (map (retry_session c) (con_blocked_session_requests c))"
  let ?q = "on_all_sessions ?d (\<lambda>session. flush_blocked_stream_requests session u)"
  have "requests_ok (c\<lparr>con_blocked_session_requests := []\<rparr>)"
    using con_inv_parts(5) [OF inv] by (auto simp: requests_ok_def)
  then have d: "con_inv ?d"
    using inv con_frames [of c "c\<lparr>con_blocked_session_requests := []\<rparr>"] by (simp add: con_inv_def session_total_def)
  have "dispatched (retry_session c r) = []" for r
    by (simp add: retry_session_def split: option.splits)
  then have "dispatched (concat (map (retry_session c) rs)) = []" for rs
    by (induction rs) simp_all
  then have step: "con_keeps c {#} (?es, ?d)"
    using d by (simp add: con_keeps_def con_moves_def con_grows_def)
  have "con_keeps ?d {#} ?q"
    unfolding on_all_sessions_def
    by (rule each_session_keeps [where call = "SessionFlushRequests u"])
       (use d in \<open>auto simp: opens_def session_call_ok_def\<close>)
  with con_keeps_trans [OF step, of "{#}" ?q] show ?thesis
    by (simp add: recv_max_streams_def Let_def case_prod_beta)
qed

end
