(* ===== verification/Connection_Headers.thy ===== *)
theory Connection_Headers
  imports Connection_Requests
begin

text \<open>
  The headers of a CONNECT stream, the response to a client and the request to a server, keep the
  invariant and the books: a request becomes a session or fails, once.
\<close>

lemma then_replay_keeps:
  assumes "con_keeps c R p"
  shows "con_keeps c R (then_replay p i now)"
proof -
  have "con_keeps (snd p) {#} (replay_early_events (snd p) i now)"
    using assms replay_early_events_keeps by (simp add: con_keeps_def [of c])
  with con_keeps_trans [OF assms, of "{#}" "replay_early_events (snd p) i now"] show ?thesis
    by (simp add: then_replay_def Let_def case_prod_beta)
qed

subsection \<open>The response to a client\<close>

text \<open>What a response finds: the session of an optimistic request, whose request has been answered,
  or a request that is still open.\<close>

definition answers_request :: "Connection \<Rightarrow> StreamId \<Rightarrow> RequestId \<Rightarrow> bool" where
  "answers_request c sid r \<longleftrightarrow> fmlookup (con_pending_session_requests c) sid = None
    \<and> (if sid |\<in>| fmdom (con_sessions c) then r |\<notin>| fmdom (con_session_requests c) else connecting c r)"

lemma abort_response_keeps:
  assumes inv: "con_inv c" and r: "answers_request c sid r"
  shows "con_keeps c {#} (refuse_response c sid r ec m now)"
  unfolding refuse_response_def
proof (rule on_session_keeps [where call = "SessionAbort ec m now"])
  assume "fmlookup (con_sessions c) sid = None"
  then have "connecting c r" using r by (auto simp: answers_request_def dest: fmdom_notI)
  then show "con_keeps c {#} ([NotifyRequestFailed r ErrorSource.Session (Some ec) m, StopQuicStream sid ec, ResetQuicStream sid ec],
      c\<lparr>con_session_requests := fmdrop r (con_session_requests c)\<rparr>)"
    using drop_request_keeps [OF inv] by simp
qed (use inv in \<open>auto simp: opens_def session_call_ok_def\<close>)

lemma drop_twice:
  assumes "answers_request c sid r"
  shows "refuse_response (c\<lparr>con_session_requests := fmdrop r (con_session_requests c)\<rparr>) sid r ec m now
    = refuse_response c sid r ec m now"
proof (cases "fmlookup (con_sessions c) sid")
  case None
  then show ?thesis by (simp add: refuse_response_def on_session_def fmdrop_idem)
next
  case (Some s)
  then have "fmdrop r (con_session_requests c) = con_session_requests c"
    using assms fmdomI [OF Some] by (simp add: answers_request_def fmdom_notD)
  then show ?thesis by simp
qed

lemma confirm_response_keeps:
  assumes inv: "con_inv c" and r: "answers_request c sid r"
  shows "con_keeps c {#} (confirm_response c sid r p now)"
  unfolding confirm_response_def
proof (rule on_session_keeps [where call = "SessionConfirm p now"])
  assume none: "fmlookup (con_sessions c) sid = None"
  then have r': "connecting c r" "sid |\<notin>| fmdom (con_sessions c)" "fmlookup (con_pending_session_requests c) sid = None"
    using r by (auto simp: answers_request_def dest: fmdom_notI)
  obtain q where q: "fmlookup (con_session_requests c) r = Some q"
    using r'(1) unfolding connecting_def by (metis fmdomE)
  let ?c1 = "c\<lparr>con_session_requests := fmdrop r (con_session_requests c)\<rparr>"
  let ?s = "request_session ?c1 sid q"
  let ?c2 = "?c1\<lparr>con_sessions := fmupd sid ?s (con_sessions c)\<rparr>"
  let ?es = "[NotifyRequestDone r (RequestResult.SessionId sid)]"
  have step: "con_keeps c {#} (?es, ?c2)"
    by (rule promote_keeps [OF inv, where d = ?c1 and q = q])
       (use r' in \<open>auto simp: connecting_def pending_ran\<close>)
  then have "con_keeps ?c2 {#} (put_session ?c2 sid (session_call (SessionConfirm p now) ?s))"
    using put_session_keeps [of ?c2 sid ?s "SessionConfirm p now"]
    by (simp add: con_keeps_def [of c] opens_def session_call_ok_def)
  with con_keeps_trans [OF step, of "{#}" "put_session ?c2 sid (session_confirm ?s p now)"]
  have "con_keeps c {#} (?es @ fst (put_session ?c2 sid (session_confirm ?s p now)), snd (put_session ?c2 sid (session_confirm ?s p now)))"
    by simp
  then have "con_keeps c {#} (fst (put_session ?c2 sid (session_confirm ?s p now)) @ ?es, snd (put_session ?c2 sid (session_confirm ?s p now)))"
    by (rule con_keeps_effects) simp
  then show "con_keeps c {#} (case fmlookup (con_session_requests c) r of
      None \<Rightarrow> ([], c)
    | Some q \<Rightarrow>
        (let self = c\<lparr>con_session_requests := fmdrop r (con_session_requests c)\<rparr>;
             (effects, self) = put_session self sid (session_confirm (request_session self sid q) p now)
         in (effects @ [NotifyRequestDone r (RequestResult.SessionId sid)], self)))"
    using q by (simp add: put_session_def Let_def)
qed (use inv in \<open>auto simp: opens_def session_call_ok_def\<close>)

lemma recv_response_keeps:
  assumes inv: "con_inv c" and r: "answers_request c sid r"
  shows "con_keeps c {#} (recv_response c sid r ps hs now)"
  using abort_response_keeps [OF assms] then_replay_keeps [OF abort_response_keeps [OF assms]]
    then_replay_keeps [OF confirm_response_keeps [OF assms]]
  by (simp add: recv_response_def Let_def drop_twice [OF r])

lemma client_headers_keeps:
  assumes inv: "con_inv c"
  shows "con_keeps c {#} (client_headers c sid hs now)"
proof (cases "fmlookup (con_pending_session_requests c) sid")
  case None
  then show ?thesis by (simp add: client_headers_def con_keeps_refl inv)
next
  case (Some r)
  let ?d = "c\<lparr>con_pending_session_requests := fmdrop sid (con_pending_session_requests c)\<rparr>"
  note old = requests_okD [OF con_inv_parts(5) [OF inv]]
  have "requests_ok ?d"
    using con_inv_parts(5) [OF inv] by (auto simp: requests_ok_def split: if_splits)
  then have d: "con_inv ?d"
    using inv con_frames [of c ?d] by (simp add: con_inv_def session_total_def)
  then have step: "con_keeps c {#} ([], ?d)"
    by (simp add: con_keeps_def con_moves_def con_grows_def)
  have r: "answers_request ?d sid r"
    using old(1-4) [OF Some] by (auto simp: answers_request_def connecting_def pending_ran split: if_splits)
  have "con_keeps c {#} (recv_response ?d sid r ps hs now)" for ps
    using con_keeps_trans [OF step, of "{#}" "recv_response ?d sid r ps hs now"] recv_response_keeps [OF d r] by simp
  moreover have "fmlookup (con_sessions c) sid = None \<Longrightarrow> \<exists>q. fmlookup (con_session_requests c) r = Some q"
    using old(1) [OF Some] by (metis fmdomE fmdom_notI)
  ultimately show ?thesis
    using Some by (auto simp: client_headers_def Let_def split: option.splits)
qed

subsection \<open>The request to a server\<close>

lemma dispatched_refuse [simp]: "dispatched (refuse_request sid status) = []"
  by (simp add: refuse_request_def)

lemma server_headers_keeps:
  assumes inv: "con_inv c" and server: "\<not> con_is_client c"
  shows "con_keeps c {#} (server_headers c sid hs now)"
proof -
  have empty: "con_session_requests c = fmempty"
    using requests_okD(7) [OF con_inv_parts(5) [OF inv] server] .
  have added: "con_keeps c {#} ([EmitSessionEvent sid SessionRequestReceived fs],
      c\<lparr>con_sessions := fmupd sid (session_new sid path hs ps (con_is_client c) (session_parameters c) now) (con_sessions c)\<rparr>)"
    if new: "sid |\<notin>| fmdom (con_sessions c)" and state: "con_state c = ConnectionState.Connected"
      and room: "\<not> (active_limit c > 0 \<and> of_nat (map_len (con_sessions c)) \<ge> active_limit c)" for fs path ps
  proof -
    let ?s = "session_new sid path hs ps (con_is_client c) (session_parameters c) now"
    let ?d = "c\<lparr>con_sessions := fmupd sid ?s (con_sessions c)\<rparr>"
    have "limit_ok ?d"
      by (rule limit_add [OF inv]) (use room new empty in \<open>simp_all add: session_total_def map_len_upd\<close>)
    moreover have "unat (ssp_max_write_buffer_size (session_parameters c)) < 2 ^ 63"
      using con_inv_parts(1) [OF inv] by (simp add: sessions_ok_def session_parameters_def)
    then have s: "session_reachable ?s" by (rule session_reachable.created)
    then have "sessions_ok ?d"
      using con_inv_parts(1) [OF inv] by (auto simp: sessions_ok_def) (simp_all add: session_new_def)
    moreover have "table_ok ?d"
      using con_inv_parts(2) [OF inv] by (auto simp: table_ok_def) (simp_all add: session_new_def)
    moreover have "requests_ok ?d" "state_ok ?d"
      using con_inv_parts(5,6) [OF inv] state empty by (auto simp: requests_ok_def state_ok_def)
    moreover have "buffer_ok ?d" "early_ok ?d"
      by (rule con_frames [of c]; use inv in \<open>simp add: con_inv_def\<close>)+
    ultimately have "con_inv ?d" by (simp add: con_inv_def)
    then show ?thesis
      using new by (simp add: con_keeps_def con_moves_def con_grows_def con_holds_def fm_sum_upd fmdom_notD)
  qed
  show ?thesis
    unfolding server_headers_def
    using then_replay_keeps [OF added] inv by (auto simp: con_keeps_refl Let_def)
qed

lemma recv_headers_keeps:
  assumes "con_inv c"
  shows "con_keeps c {#} (recv_headers c sid hs now)"
  using client_headers_keeps [OF assms] server_headers_keeps [OF assms] by (simp add: recv_headers_def)

end
