(* ===== verification/Connection_Runs.thy ===== *)
theory Connection_Runs
  imports Connection_Headers
begin

text \<open>
  Runs of a connection: sequences of events, each at its time, whose events respect the contract
  of the transport and the engine (\<open>event_ok\<close>).
\<close>

text \<open>
  The contract.  Stream identifiers the transport reports are new and of the side that opened
  them; SETTINGS arrive once; a CONNECT stream that was asked for is bound, deferred or failed once;
  closed sessions are dropped only after the response to their request was seen; users choose new
  request identifiers; and what \<open>session_call_ok\<close> asks of the streams of a session.
\<close>

definition session_ok :: "Connection \<Rightarrow> SessionId \<Rightarrow> SessionCall \<Rightarrow> bool" where
  "session_ok c i call \<longleftrightarrow>
    (case fmlookup (con_sessions c) i of None \<Rightarrow> True | Some s \<Rightarrow> session_call_ok call s)"

definition stream_ok :: "Connection \<Rightarrow> StreamId \<Rightarrow> SessionCall \<Rightarrow> bool" where
  "stream_ok c sid call \<longleftrightarrow>
    (case fmlookup (con_stream_map c) sid of None \<Rightarrow> True | Some i \<Rightarrow> session_ok c i call)"

definition new_request :: "Connection \<Rightarrow> RequestId \<Rightarrow> bool" where
  "new_request c r \<longleftrightarrow> r |\<notin>| fmdom (con_session_requests c) \<and> r |\<notin>| fmran (con_pending_session_requests c)"

definition event_ok :: "ProtocolEvent \<times> f64 \<Rightarrow> Connection \<Rightarrow> bool" where
  "event_ok = (\<lambda>(e, now) c.
    (case e of
       H3SettingsReceived settings \<Rightarrow> \<not> con_peer_settings_received c
     | H3WebTransportStreamOpened i sid \<Rightarrow> is_fresh_stream c sid \<and> is_peer_initiated_stream sid (con_is_client c)
     | InternalBindH3ConnectStream r sid \<Rightarrow>
         connecting c r \<and> sid |\<notin>| fmdom (con_pending_session_requests c) \<and> sid |\<notin>| fmdom (con_sessions c)
     | InternalBindQuicStream r sid i u \<Rightarrow>
         is_fresh_stream c sid \<and> \<not> is_peer_initiated_stream sid (con_is_client c)
     | InternalCleanupResources \<Rightarrow>
         (\<forall>sid \<in> set (sorted_keys (con_pending_session_requests c)). \<not> is_session_closed c sid)
     | InternalDeferH3ConnectStream r \<Rightarrow> connecting c r
     | InternalDeferQuicStream r i u \<Rightarrow> session_ok c i (SessionDeferStream r u)
     | InternalFailH3ConnectStream r ec m \<Rightarrow> connecting c r
     | TransportStreamDataAcknowledged sid \<Rightarrow> stream_ok c sid (SessionStreamAcknowledged sid)
     | UserCreateSession r a p hs ps \<Rightarrow> new_request c r
     | UserCreateSessionOptimistic r a p hs ps \<Rightarrow> new_request c r
     | UserWriteStream r sid d e \<Rightarrow> stream_ok c sid (SessionWriteStream sid r d e)
     | _ \<Rightarrow> True))"

definition connection_step :: "ProtocolEvent \<times> f64 \<Rightarrow> Connection \<Rightarrow> effects \<times> Connection" where
  "connection_step = (\<lambda>(e, now). connection_event e now)"

definition step_submits :: "ProtocolEvent \<times> f64 \<Rightarrow> RequestId list" where
  "step_submits = (\<lambda>(e, now). event_submits e)"

lemma on_session_event:
  assumes "con_inv c" "opens call = {}" "\<And>s. f s = session_call call s" "R = mset (session_submits call)"
    "session_ok c i call" "con_keeps c R missing"
  shows "con_keeps c R (on_session c i f missing)"
  by (rule on_session_keeps [OF assms(1,2) _ assms(4)]) (use assms in \<open>auto simp: session_ok_def\<close>)

lemma on_stream_event:
  assumes "con_inv c" "opens call = {}" "\<And>s. f s = session_call call s" "R = mset (session_submits call)"
    "stream_ok c sid call" "con_keeps c R missing"
  shows "con_keeps c R (on_stream c sid f missing)"
  by (rule on_stream_keeps [OF assms(1,2) _ assms(4)]) (use assms in \<open>auto simp: stream_ok_def session_ok_def\<close>)

lemma free_calls:
  assumes "\<And>s. session_call_ok call s"
  shows "session_ok c i call" "stream_ok c sid call"
  using assms by (simp_all add: session_ok_def stream_ok_def split: option.splits)

lemma missing_keeps [simp]:
  "con_inv c \<Longrightarrow> con_keeps c {#r#} ([session_resolve_failure r], c)"
  "con_inv c \<Longrightarrow> con_keeps c {#r#} ([stream_resolve_failure r], c)"
  "con_inv c \<Longrightarrow> con_keeps c {#r#} ([NotifyRequestDone r v], c)"
  "con_inv c \<Longrightarrow> con_keeps c {#} ([], c)"
  by (simp_all add: con_keeps_refl session_resolve_failure_def stream_resolve_failure_def)

lemma session_events_keep:
  assumes "con_inv c"
  shows "con_keeps c {#} (connection_recv_capsule c i ct v now)"
    "con_keeps c {#} (connection_recv_connect_close c i now)"
    "con_keeps c {#r#} (accept_session c i r hs p now)"
    "con_keeps c {#r#} (close_session c i r ec m now)"
    "con_keeps c {#r#} (connection_create_stream c i r u)"
    "con_keeps c {#r#} (connection_read_datagram c i r)"
    "con_keeps c {#r#} (reject_session c i r hs sc now)"
    "con_keeps c {#r#} (connection_send_datagram c i r d)"
    "session_ok c i (SessionDeferStream r u) \<Longrightarrow> con_keeps c {#r#} (connection_defer_stream c i r u)"
  unfolding connection_recv_capsule_def connection_recv_connect_close_def accept_session_def close_session_def
    connection_create_stream_def connection_read_datagram_def reject_session_def connection_send_datagram_def
    connection_defer_stream_def Let_def
  by (rule on_session_event [OF assms, where call = "SessionRecvCapsule ct v now"]
        on_session_event [OF assms, where call = "SessionRecvConnectClose ERR_APP_NO_ERROR [] now"]
        on_session_event [OF assms, where call = "SessionAccept r hs p now"]
        on_session_event [OF assms, where call = "SessionClose r ec m now"]
        on_session_event [OF assms, where call = "SessionCreateStream r u"]
        on_session_event [OF assms, where call = "SessionReadDatagram r"]
        on_session_event [OF assms, where call = "SessionReject r hs sc now"]
        on_session_event [OF assms, where call = "SessionSendDatagram r d n" for n]
        on_session_event [OF assms, where call = "SessionDeferStream r u"];
      use assms in \<open>simp add: opens_def free_calls session_call_ok_def\<close>)+

lemma abort_session_stream_keeps:
  assumes "con_inv c"
  shows "con_keeps c {#} (abort_session_stream c sid ec now)"
  unfolding abort_session_stream_def
  by (rule on_session_event [OF assms, where call = "SessionAbort ec ''wt_session abort'' now"])
     (use assms in \<open>simp_all add: opens_def free_calls session_call_ok_def\<close>)

lemma stream_events_keep:
  assumes "con_inv c"
  shows "con_keeps c {#} (connection_complete_stream_write c sid)"
    "con_keeps c {#r#} (connection_read_stream c sid r n)"
    "con_keeps c {#} (connection_recv_stop_sending c sid ec now)"
    "con_keeps c {#} (connection_recv_stream_data c sid d e now)"
    "con_keeps c {#} (connection_recv_stream_reset c sid ec now)"
    "con_keeps c {#r#} (connection_reset_stream c sid r ec)"
    "con_keeps c {#r#} (connection_stop_stream c sid r ec)"
    "stream_ok c sid (SessionStreamAcknowledged sid) \<Longrightarrow> con_keeps c {#} (handle_stream_data_acknowledged c sid)"
    "stream_ok c sid (SessionWriteStream sid r d e) \<Longrightarrow> con_keeps c {#r#} (connection_write_stream c sid r d e)"
  unfolding connection_complete_stream_write_def connection_read_stream_def connection_recv_stop_sending_def
    connection_recv_stream_data_def connection_recv_stream_reset_def connection_reset_stream_def connection_stop_stream_def
    handle_stream_data_acknowledged_def connection_write_stream_def
  by (rule on_stream_event [OF assms, where call = "SessionCompleteWrite sid"]
        on_stream_event [OF assms, where call = "SessionReadStream sid r n"]
        on_stream_event [OF assms, where call = "SessionRecvStopSending sid ec"]
        on_stream_event [OF assms, where call = "SessionRecvStreamData sid d e now"]
        on_stream_event [OF assms, where call = "SessionRecvStreamReset sid ec"]
        on_stream_event [OF assms, where call = "SessionResetStream sid r ec"]
        on_stream_event [OF assms, where call = "SessionStopStream sid r ec"]
        on_stream_event [OF assms, where call = "SessionStreamAcknowledged sid"]
        on_stream_event [OF assms, where call = "SessionWriteStream sid r d e"];
      use assms in \<open>simp add: opens_def free_calls session_call_ok_def abort_session_stream_keeps\<close>)+

lemma bind_stream_event_keeps:
  assumes inv: "con_inv c" and fresh: "is_fresh_stream c sid" "\<not> is_peer_initiated_stream sid (con_is_client c)"
  shows "con_keeps c {#r#} (connection_bind_stream c i sid r u now)"
proof (cases "fmlookup (con_sessions c) i")
  case None
  then show ?thesis using inv by (simp add: connection_bind_stream_def)
next
  case (Some s)
  have "session_call_ok (SessionBindStream sid r u now) s"
    using fresh_not_in_session(2) [OF inv _ Some] fresh inv Some
    by (simp add: session_call_ok_def is_fresh_stream_def con_inv_def sessions_ok_def)
  then show ?thesis
    using adopt_stream_keeps [OF inv Some, of "SessionBindStream sid r u now" sid] fresh(1) Some
    by (simp add: connection_bind_stream_def opens_def)
qed

lemma query_events_keep:
  assumes inv: "con_inv c"
  shows "con_keeps c {#r#} (connection_diagnose c r, c)"
    "con_keeps c {#r#} (diagnose_session c i r, c)"
    "con_keeps c {#r#} (connection_diagnose_stream c sid r, c)"
    "con_keeps c {#r#} (connection_export_keying_material c i r l x n, c)"
proof -
  have session: "fmlookup (con_sessions c) j = Some s \<Longrightarrow> keeps s {#r#} (session_diagnose s r, s) \<and> keeps s {#r#} (diagnose_stream s sid r, s)
      \<and> keeps s {#r#} (export_keying_material s r l x n, s)" for j s
    using inv reachable_inv diagnose_keeps export_keeps by (simp add: con_inv_def sessions_ok_def)
  then show "con_keeps c {#r#} (connection_diagnose c r, c)" "con_keeps c {#r#} (diagnose_session c i r, c)"
    "con_keeps c {#r#} (connection_diagnose_stream c sid r, c)"
    "con_keeps c {#r#} (connection_export_keying_material c i r l x n, c)"
    by (intro con_keeps_refl [OF inv]; fastforce simp: connection_diagnose_def diagnose_session_def
        connection_diagnose_stream_def connection_export_keying_material_def session_resolve_failure_def
        stream_resolve_failure_def keeps_def moves_def split: option.splits)+
qed

lemma connection_step_keeps:
  assumes "con_inv c" "event_ok (e, now) c"
  shows "con_keeps c (mset (event_submits e)) (connection_event e now c)"
proof (cases e)
  case (UserCloseConnection r ec m)
  with connection_close_keeps [OF assms(1), of "Some r"] show ?thesis by simp
next
  case InternalCloseConnection
  with connection_close_keeps [OF assms(1), of None] show ?thesis by simp
next
  case (TransportQuicParametersReceived n)
  with assms(1) show ?thesis
    by (simp add: recv_transport_parameters_def con_keeps_def con_moves_def con_grows_def)
qed (use assms in \<open>simp_all add: event_ok_def new_request_def session_events_keep stream_events_keep bind_stream_event_keeps
      query_events_keep connection_recv_datagram_keeps recv_goaway_keeps recv_headers_keeps recv_settings_keeps
      connection_stream_opened_keeps bind_session_keeps prune_each_keeps prune_early_events_def prune_resources_keeps
      defer_session_keeps fail_session_keeps terminated_keeps handshake_keeps recv_max_streams_keeps
      close_gracefully_keeps create_session_keeps\<close>)

interpretation connection_requests: request_machine connection_step event_ok con_inv step_submits dispatched con_holds
proof unfold_locales
  fix c es fs and e :: "ProtocolEvent \<times> f64"
  show "dispatched (es @ fs) = dispatched es @ dispatched fs" "dispatched [] = []" by simp_all
  obtain ev now where e: "e = (ev, now)" by (cases e)
  assume "con_inv c" "event_ok e c"
  with connection_step_keeps [of c ev now] e
  have k: "con_keeps c (mset (step_submits e)) (connection_step e c)"
    by (simp add: connection_step_def step_submits_def)
  show "con_inv (snd (connection_step e c))" using k by (simp add: con_keeps_def)
  show "mset (dispatched (fst (connection_step e c))) + con_holds (snd (connection_step e c)) = con_holds c + mset (step_submits e)"
    using k by (simp add: con_keeps_def con_moves_def)
qed

end
