(* ===== verification/Connection_Theorems.thy ===== *)
theory Connection_Theorems
  imports Connection_Runs "HOL-Library.Code_Target_Nat"
begin

text \<open>
  The properties of a connection in every run, and two runs in which it does not do what it
  means to do.
\<close>

subsection \<open>Runs from a new connection\<close>

lemma connection_new_inv:
  assumes "unat (cp_max_write_buffer_size p) < 2 ^ 63"
  shows "con_inv (connection_new h rid client p)"
  using assms
  by (simp add: con_inv_def sessions_ok_def table_ok_def buffer_ok_def early_ok_def requests_ok_def state_ok_def limit_ok_def
      session_total_def has_flow_control_def connection_new_def)

lemma connection_new_holds [simp]: "con_holds (connection_new h rid client p) = mset (option_request rid)"
  by (simp add: con_holds_def connection_new_def)

lemma connection_run_grows:
  assumes "con_inv c" "calls_ok connection_step event_ok c es"
  shows "con_grows c (snd (run_calls connection_step c es))"
  using assms
proof (induction es arbitrary: c)
  case (Cons e es)
  obtain ev now where e: "e = (ev, now)" by (cases e)
  have "con_keeps c (mset (event_submits ev)) (connection_step e c)"
    using connection_step_keeps [of c ev now] Cons.prems e by (simp add: connection_step_def)
  with Cons.IH [of "snd (connection_step e c)"] Cons.prems show ?case
    by (auto simp: con_keeps_def con_moves_def intro: con_grows_trans)
qed simp

text \<open>User requests and the requests the transport gives back.\<close>

definition event_returns :: "ProtocolEvent \<times> f64 \<Rightarrow> RequestId list" where
  "event_returns e = (case fst e of InternalBindQuicStream r sid i u \<Rightarrow> [r] | InternalDeferQuicStream r i u \<Rightarrow> [r] | _ \<Rightarrow> [])"

definition event_requests :: "ProtocolEvent \<times> f64 \<Rightarrow> RequestId list" where
  "event_requests e = (if event_returns e = [] then step_submits e else [])"

lemma step_submits_split:
  "mset (concat (map step_submits es)) = mset (concat (map event_requests es)) + mset (concat (map event_returns es))"
proof (induction es)
  case (Cons e es)
  obtain ev now where e: "e = (ev, now)" by (cases e)
  have "mset (step_submits e) = mset (event_requests e) + mset (event_returns e)"
    unfolding e by (cases ev) (simp_all add: event_requests_def event_returns_def step_submits_def)
  with Cons show ?case by (simp add: ac_simps)
qed simp

text \<open>A reachable session is the end of a run of its own machine.\<close>

definition is_session_run :: "SessionId \<Rightarrow> bool \<Rightarrow> Session \<Rightarrow> bool" where
  "is_session_run i client s \<longleftrightarrow> (\<exists>path hs ps q now cs. unat (ssp_max_write_buffer_size q) < 2 ^ 63
    \<and> calls_ok session_call session_call_ok (session_new i path hs ps client q now) cs
    \<and> s = snd (run_calls session_call (session_new i path hs ps client q now) cs))"

lemma reachable_run: "session_reachable s \<Longrightarrow> is_session_run (ses_id s) (ses_is_client s) s"
proof (induction rule: session_reachable.induct)
  case (created p i path hs ps client now)
  then have "is_session_run i client (session_new i path hs ps client p now)"
    unfolding is_session_run_def by (intro exI [of _ path] exI [of _ hs] exI [of _ ps] exI [of _ p] exI [of _ now] exI [of _ "[]"]) simp
  then show ?case by (simp add: session_new_def)
next
  case (called s call)
  then obtain path hs ps q now cs where run: "unat (ssp_max_write_buffer_size q) < 2 ^ 63"
      "calls_ok session_call session_call_ok (session_new (ses_id s) path hs ps (ses_is_client s) q now) cs"
      "s = snd (run_calls session_call (session_new (ses_id s) path hs ps (ses_is_client s) q now) cs)"
    unfolding is_session_run_def by blast
  have same: "ses_id (snd (session_call call s)) = ses_id s" "ses_is_client (snd (session_call call s)) = ses_is_client s"
    using session_call_keeps [OF reachable_inv [OF called.hyps(1)] called.hyps(2)]
    by (simp_all add: keeps_def moves_def grows_def same_session_def)
  have "is_session_run (ses_id s) (ses_is_client s) (snd (session_call call s))"
    unfolding is_session_run_def
    by (intro exI [of _ path] exI [of _ hs] exI [of _ ps] exI [of _ q] exI [of _ now] exI [of _ "cs @ [call]"])
       (use run called.hyps(2) in \<open>simp add: calls_ok_append run_calls_append run(3) [symmetric]\<close>)
  with same show ?case by simp
qed

subsection \<open>A run\<close>

definition example_connection_parameters :: ConnectionParameters where
  "example_connection_parameters =
    \<lparr>cp_early_event_ttl = 5, cp_initial_max_data = 100, cp_initial_max_streams_bidi = 2, cp_initial_max_streams_uni = 2,
     cp_max_connection_pending_events = 8, cp_max_pending_capsules = 4, cp_max_pending_datagrams = 4,
     cp_max_pending_streams = 4, cp_max_session_pending_events = 4, cp_max_sessions = 2,
     cp_max_write_buffer_size = 64, cp_session_receive_window = 100\<rparr>"

definition example_settings :: H3Settings where
  "example_settings =
    \<lparr>set_enable_connect_protocol = Some 1, set_h3_datagram = Some 1, set_max_field_section_size = None,
     set_qpack_blocked_streams = None, set_qpack_max_table_capacity = None, set_unknown = [], set_wt_enabled = Some 1,
     set_wt_initial_max_data = Some 3, set_wt_initial_max_streams_bidi = Some 1, set_wt_initial_max_streams_uni = Some 1\<rparr>"

definition example_client :: Connection where
  "example_client = connection_new 7 (Some 9) True example_connection_parameters"

text \<open>A stream and a datagram of the server arrive before its response; the session is then used.\<close>

definition example_events :: "(ProtocolEvent \<times> f64) list" where
  "example_events = map (\<lambda>e. (e, 0))
    [TransportHandshakeCompleted, H3SettingsReceived example_settings,
     UserCreateSession 1 ''h'' ''/'' [] None, InternalBindH3ConnectStream 1 0,
     H3WebTransportStreamOpened 0 1, H3DatagramReceived 0 [5],
     H3HeadersReceived 0 [(bstr '':status'', bstr ''200'')],
     UserWriteStream 2 1 [1, 2, 3, 4, 5] False, UserReadDatagram 3 0]"

abbreviation example_connection_end :: "effects \<times> Connection" where
  "example_connection_end \<equiv> run_calls connection_step example_client example_events"

lemma example_events_ok: "calls_ok connection_step event_ok example_client example_events"
  by code_simp

lemma example_connection_eval:
  "let (es, c) = example_connection_end in
    (case fmlookup (con_sessions c) 0 of None \<Rightarrow> False
     | Some s \<Rightarrow> 1 |\<in>| fmdom (ses_streams s) \<and> ses_state s = SessionState.Connected) \<and> con_state c = ConnectionState.Connected"
  by code_simp

lemma example_connection_parameters_simps [simp]:
  "cp_max_write_buffer_size example_connection_parameters = 64" "cp_max_sessions example_connection_parameters = 2"
  "cp_max_connection_pending_events example_connection_parameters = 8"
  "cp_max_session_pending_events example_connection_parameters = 4"
  by (simp_all add: example_connection_parameters_def)

lemma example_requests:
  "concat (map event_requests example_events) = [1, 2, 3]" "concat (map event_returns example_events) = []"
  by (simp_all add: example_events_def event_requests_def event_returns_def step_submits_def)

subsection \<open>Properties of every run\<close>

text \<open>
  C3. However users, peer and transport interleave, a connection stays consistent: every session
  is in a state its own machine reaches and carries its identifier, the stream table finds every
  stream of every session and points at no other session, the early-event buffer is counted
  exactly, and the requests that are being set up are accounted for.
\<close>

theorem connection_invariant:
  assumes "unat (cp_max_write_buffer_size p) < 2 ^ 63"
    and "calls_ok connection_step event_ok (connection_new h rid client p) es"
  shows "con_inv (snd (run_calls connection_step (connection_new h rid client p) es))"
  using connection_requests.run_inv [OF connection_new_inv [OF assms(1)] assms(2)] .

theorem connection_invariant_witness: "con_inv (snd example_connection_end)"
  using connection_invariant [of example_connection_parameters 7 "Some 9" True example_events] example_events_ok
  by (simp add: example_client_def)



text \<open>
  C8. A connection that has ended owes nothing: once it is closed, every request that was ever
  submitted has been answered or is with the transport, and all its sessions are closed.
\<close>

theorem connection_closed_owes_nothing:
  assumes "unat (cp_max_write_buffer_size p) < 2 ^ 63"
    and "calls_ok connection_step event_ok (connection_new h rid client p) events"
    and "run_calls connection_step (connection_new h rid client p) events = (es, c)"
    and "con_state c = ConnectionState.Closed"
  shows "mset (answered es) + mset (handed_out es) = mset (option_request rid @ concat (map step_submits events))
    \<and> (\<forall>i s. fmlookup (con_sessions c) i = Some s \<longrightarrow> ses_state s = SessionState.Closed)"
proof -
  note inv = connection_new_inv [OF assms(1), of h rid client]
  have c: "con_inv c" using connection_requests.run_inv [OF inv assms(2)] assms(3) by simp
  then have closed: "fmlookup (con_sessions c) i = Some s \<Longrightarrow> ses_state s = SessionState.Closed" for i s
    using assms(4) by (simp add: con_inv_def state_ok_def)
  have "fmlookup (con_sessions c) i = Some s \<Longrightarrow> session_holds s = {#}" for i s
    using closed [of i s] c reachable_inv [of s]
    by (auto simp: con_inv_def sessions_ok_def session_inv_def gone_ok_def session_holds_def)
  then have "fm_sum (\<lambda>_. session_holds) (con_sessions c) = {#}"
    unfolding fm_sum_def by (intro sum.neutral) (auto simp: fmlookup_dom_iff)
  then have "con_holds c = {#}"
    using c assms(4) by (simp add: con_holds_def con_inv_def state_ok_def)
  then show ?thesis
    using connection_requests.run_conserve [OF inv assms(2)] assms(3) closed by (simp add: dispatched_split)
qed

definition terminated_events :: "(ProtocolEvent \<times> f64) list" where
  "terminated_events = example_events @ [(UserCreateSession 4 ''h'' ''/'' [] None, 1), (TransportConnectionTerminated 5 ''bye'', 2)]"

lemma terminated_eval:
  "calls_ok connection_step event_ok example_client terminated_events
    \<and> con_state (snd (run_calls connection_step example_client terminated_events)) = ConnectionState.Closed"
  by code_simp

theorem connection_closed_owes_nothing_witness:
  "mset (answered (fst (run_calls connection_step example_client terminated_events)))
    + mset (handed_out (fst (run_calls connection_step example_client terminated_events))) = {#9, 1, 2, 3, 4#}"
proof -
  have "concat (map step_submits terminated_events) = [1, 2, 3, 4]"
    by (simp add: terminated_events_def example_events_def step_submits_def)
  then show ?thesis
    using connection_closed_owes_nothing [of example_connection_parameters 7 "Some 9" True terminated_events
        "fst (run_calls connection_step example_client terminated_events)"
        "snd (run_calls connection_step example_client terminated_events)", folded example_client_def] terminated_eval
    by simp
qed

text \<open>
  C9. A connection keeps its limits in every run: sessions that exist or are being set up never
  exceed the configured number, nor one while flow control is not negotiated, and events buffered
  for sessions that do not exist yet stay within the limit of the connection and of each session.
\<close>

theorem connection_limits:
  assumes "unat (cp_max_write_buffer_size p) < 2 ^ 63"
    and "calls_ok connection_step event_ok (connection_new h rid client p) events"
    and "run_calls connection_step (connection_new h rid client p) events = (es, c)"
  shows "(cp_max_sessions p \<noteq> 0 \<longrightarrow> map_len (con_sessions c) + map_len (con_session_requests c) \<le> unat (cp_max_sessions p))
    \<and> (\<not> has_flow_control c \<longrightarrow> map_len (con_sessions c) + map_len (con_session_requests c) \<le> 1)
    \<and> fm_sum (\<lambda>_. length) (con_early_event_buffer c) \<le> unat (cp_max_connection_pending_events p)
    \<and> (\<forall>i evs. fmlookup (con_early_event_buffer c) i = Some evs \<longrightarrow> length evs \<le> unat (cp_max_session_pending_events p))"
proof -
  note inv = connection_new_inv [OF assms(1), of h rid client]
  have "limit_ok c" "buffer_ok c"
    using connection_requests.run_inv [OF inv assms(2)] assms(3) by (simp_all add: con_inv_def)
  moreover have "con_grows (connection_new h rid client p) c"
    using connection_run_grows [OF inv assms(2)] assms(3) by simp
  then have "con_max_sessions c = cp_max_sessions p" "con_max_connection_pending_events c = cp_max_connection_pending_events p"
    "con_max_session_pending_events c = cp_max_session_pending_events p"
    by (simp_all add: con_grows_def connection_new_def)
  ultimately show ?thesis
    by (simp add: limit_ok_def buffer_ok_def session_total_def)
qed

theorem connection_limits_witness:
  "map_len (con_sessions (snd example_connection_end)) + map_len (con_session_requests (snd example_connection_end)) \<le> 2
    \<and> fm_sum (\<lambda>_. length) (con_early_event_buffer (snd example_connection_end)) \<le> 8"
  using connection_limits [of example_connection_parameters 7 "Some 9" True example_events
      "fst example_connection_end" "snd example_connection_end", folded example_client_def] example_events_ok
  by simp

text \<open>
  C5. The sessions inside a connection behave as the session model does on its own: whatever events
  a connection processes, each of its sessions is one that a sequence of admissible session calls
  produces from a new session, so every property of session runs holds of it.
\<close>

theorem connection_sessions_refine:
  assumes "unat (cp_max_write_buffer_size p) < 2 ^ 63"
    and "calls_ok connection_step event_ok (connection_new h rid client p) events"
    and "fmlookup (con_sessions (snd (run_calls connection_step (connection_new h rid client p) events))) i = Some s"
  shows "is_session_run i client s"
proof -
  note inv = connection_new_inv [OF assms(1), of h rid client]
  have "sessions_ok (snd (run_calls connection_step (connection_new h rid client p) events))"
    using connection_requests.run_inv [OF inv assms(2)] by (simp add: con_inv_def)
  moreover have "con_is_client (snd (run_calls connection_step (connection_new h rid client p) events)) = client"
    using connection_run_grows [OF inv assms(2)] by (simp add: con_grows_def connection_new_def)
  ultimately have "session_reachable s" "ses_id s = i" "ses_is_client s = client"
    using assms(3) by (simp_all add: sessions_ok_def)
  with reachable_run [of s] show ?thesis by simp
qed

theorem connection_sessions_refine_witness:
  "\<exists>s. fmlookup (con_sessions (snd example_connection_end)) 0 = Some s \<and> is_session_run 0 True s"
proof -
  obtain s where "fmlookup (con_sessions (snd example_connection_end)) 0 = Some s"
    using example_connection_eval by (auto simp: case_prod_beta split: option.splits)
  with connection_sessions_refine [of example_connection_parameters 7 "Some 9" True example_events 0 s, folded example_client_def]
    example_events_ok
  show ?thesis by simp
qed

text \<open>The connection after the session \<open>i\<close> has handled a call on its stream \<open>sid\<close>.\<close>

definition routed :: "Connection \<Rightarrow> SessionId \<Rightarrow> StreamId \<Rightarrow> effects \<times> Session \<Rightarrow> effects \<times> Connection" where
  "routed c i sid p =
    (fst p, c\<lparr>con_sessions := fmupd i (snd p) (con_sessions c),
              con_stream_map := (if has_stream (snd p) sid then con_stream_map c else fmdrop sid (con_stream_map c))\<rparr>)"

lemma on_stream_routed:
  assumes "con_inv c" "fmlookup (con_sessions c) i = Some s" "has_stream s sid"
  shows "on_stream c sid f missing = routed c i sid (f s)"
proof -
  have "fmlookup (con_stream_map c) sid = Some i"
    using assms unfolding con_inv_def table_ok_def has_stream_def by blast
  with assms(2) show ?thesis
    by (simp add: on_stream_def put_session_def routed_def Let_def)
qed

text \<open>
  C30. Stream events reach the right session and no other: for a stream of a session of a reachable
  connection, data, resets and STOP_SENDING of the peer and reads and writes of the user have
  exactly the effects the session gives them and change only that session; the stream stays in the
  table as long as its session keeps it.
\<close>

theorem connection_routes_streams:
  assumes "con_inv c" and "fmlookup (con_sessions c) i = Some s" and "has_stream s sid"
  shows "connection_recv_stream_data c sid d e now = routed c i sid (recv_stream_data s sid d e now)
    \<and> connection_recv_stream_reset c sid ec now = routed c i sid (recv_stream_reset s sid ec)
    \<and> connection_recv_stop_sending c sid ec now = routed c i sid (session_recv_stop_sending s sid ec)
    \<and> connection_complete_stream_write c sid = routed c i sid (complete_stream_write s sid)
    \<and> connection_read_stream c sid r n = routed c i sid (read_stream s sid r n)
    \<and> connection_write_stream c sid r d e = routed c i sid (write_stream s sid r d e)"
  by (simp add: connection_recv_stream_data_def connection_recv_stream_reset_def connection_recv_stop_sending_def
      connection_complete_stream_write_def connection_read_stream_def connection_write_stream_def on_stream_routed [OF assms])

theorem connection_routes_streams_witness:
  "\<exists>s. fmlookup (con_sessions (snd example_connection_end)) 0 = Some s
    \<and> connection_recv_stream_data (snd example_connection_end) 1 [7] False 0
      = routed (snd example_connection_end) 0 1 (recv_stream_data s 1 [7] False 0)"
proof -
  obtain s where s: "fmlookup (con_sessions (snd example_connection_end)) 0 = Some s" "has_stream s 1"
    using example_connection_eval by (auto simp: case_prod_beta has_stream_def split: option.splits)
  have "con_inv (snd example_connection_end)"
    using connection_requests.run_inv [OF connection_new_inv example_events_ok [unfolded example_client_def]]
    by (simp add: example_client_def)
  with connection_routes_streams [OF _ s] s show ?thesis by blast
qed

end
