(* ===== verification/Connection_Frame.thy ===== *)
theory Connection_Frame
  imports Connection_Runs
begin

text \<open>
  What the events of a connection leave alone: only SETTINGS set the flag that they were received,
  and only the binding of a CONNECT stream enters a request in the table of bound requests.  The
  engine relies on both.
\<close>

lemmas session_event_defs = connection_recv_capsule_def connection_recv_connect_close_def accept_session_def close_session_def
  connection_create_stream_def connection_read_datagram_def reject_session_def connection_send_datagram_def
  connection_defer_stream_def connection_recv_datagram_def

lemmas stream_event_defs = connection_complete_stream_write_def connection_read_stream_def connection_recv_stop_sending_def
  connection_recv_stream_data_def connection_recv_stream_reset_def connection_reset_stream_def connection_stop_stream_def
  handle_stream_data_acknowledged_def connection_write_stream_def abort_session_stream_def

definition con_frame :: "Connection \<Rightarrow> bool \<times> (StreamId, RequestId) fmap" where
  "con_frame c = (con_peer_settings_received c, con_pending_session_requests c)"

lemma con_frame_update [simp]:
  "con_frame (c\<lparr>con_sessions := s\<rparr>) = con_frame c" "con_frame (c\<lparr>con_stream_map := t\<rparr>) = con_frame c"
  "con_frame (c\<lparr>con_early_event_buffer := b\<rparr>) = con_frame c" "con_frame (c\<lparr>con_early_event_count := n\<rparr>) = con_frame c"
  "con_frame (c\<lparr>con_session_requests := r\<rparr>) = con_frame c" "con_frame (c\<lparr>con_blocked_session_requests := l\<rparr>) = con_frame c"
  "con_frame (c\<lparr>con_local_goaway_sent := f\<rparr>) = con_frame c" "con_frame (c\<lparr>con_peer_goaway_received := f\<rparr>) = con_frame c"
  by (simp_all add: con_frame_def)

lemma put_session_frame [simp]: "con_frame (snd (put_session c i p)) = con_frame c"
  by (simp add: put_session_def)

lemma adopt_stream_frame [simp]: "con_frame (snd (adopt_stream c i sid p)) = con_frame c"
  by (simp add: adopt_stream_def case_prod_beta)

lemma on_session_frame [simp]: "con_frame (snd m) = con_frame c \<Longrightarrow> con_frame (snd (on_session c i f m)) = con_frame c"
  by (simp add: on_session_def split: option.split)

lemma on_stream_frame [simp]: "con_frame (snd m) = con_frame c \<Longrightarrow> con_frame (snd (on_stream c sid f m)) = con_frame c"
  by (simp add: on_stream_def Let_def case_prod_beta split: option.split)

lemma each_session_frame [simp]: "con_frame (snd (each_session ids f c)) = con_frame c"
  by (induction ids arbitrary: c) (simp_all add: Let_def case_prod_beta)

lemma on_all_frame [simp]: "con_frame (snd (on_all_sessions c f)) = con_frame c"
  by (simp add: on_all_sessions_def)

lemma buffer_frame [simp]: "con_frame (snd (buffer_early_event c i e now)) = con_frame c"
  by (simp add: buffer_early_event_def Let_def)

lemma prune_each_frame [simp]: "con_frame (snd (prune_each ids now c)) = con_frame c"
  by (induction ids arbitrary: c) (simp_all add: Let_def case_prod_beta)

lemma stream_opened_frame [simp]: "con_frame (snd (connection_stream_opened c i sid now)) = con_frame c"
  by (simp add: connection_stream_opened_def case_prod_beta split: option.split)

lemma recv_datagram_frame [simp]: "con_frame (snd (connection_recv_datagram c i d now)) = con_frame c"
  by (simp add: connection_recv_datagram_def)

lemma replayed_event_frame [simp]: "con_frame (snd (replay_event p e now c)) = con_frame c"
  by (cases e) (simp_all add: replay_event_def)

lemma replay_each_frame [simp]: "con_frame (snd (replay_each p events now c)) = con_frame c"
  by (induction events arbitrary: c) (simp_all add: Let_def case_prod_beta)

lemma replay_early_frame [simp]: "con_frame (snd (replay_early_events c i now)) = con_frame c"
  by (simp add: replay_early_events_def Let_def case_prod_beta split: option.split)

lemma then_replay_frame [simp]: "con_frame (snd (then_replay p i now)) = con_frame (snd p)"
  by (simp add: then_replay_def case_prod_beta)

lemma response_frame [simp]: "con_frame (snd (recv_response c sid r ps hs now)) = con_frame c"
  by (simp add: recv_response_def refuse_response_def confirm_response_def Let_def case_prod_beta split: option.split)

lemma lifecycle_frame [simp]:
  "con_frame (snd (connection_open c now)) = con_frame c"
  "con_frame (snd (handle_handshake_completed c now)) = con_frame c"
  "con_frame (snd (recv_transport_parameters c n)) = con_frame c"
  "con_frame (snd (connection_close c r ec m now)) = con_frame c"
  "con_frame (snd (defer_session c i)) = con_frame c"
  "con_frame (snd (fail_session c i ec' m')) = con_frame c"
  "con_frame (snd (create_session c i q)) = con_frame c"
  "con_frame (prune_resources c) = con_frame c"
  by (simp_all add: con_frame_def connection_open_def handle_handshake_completed_def recv_transport_parameters_def
      connection_close_def defer_session_def fail_session_def create_session_def prune_resources_def
      Let_def case_prod_beta split: sum.split)

lemma sweep_frame [simp]:
  "con_frame (snd (close_gracefully c r)) = con_frame c"
  "con_frame (snd (recv_goaway c)) = con_frame c"
  "con_frame (snd (recv_max_streams c u)) = con_frame c"
  by (simp_all add: close_gracefully_def recv_goaway_def recv_max_streams_def Let_def case_prod_beta)

text \<open>The requests that are bound to a CONNECT stream.\<close>

abbreviation bound_requests :: "Connection \<Rightarrow> RequestId fset" where
  "bound_requests c \<equiv> fmran (con_pending_session_requests c)"

lemma terminated_frame:
  "con_frame (snd (handle_terminated c ec m now)) \<in> {con_frame c, (con_peer_settings_received c, fmempty)}"
  by (simp add: handle_terminated_def Let_def case_prod_beta) (simp add: con_frame_def)

lemma headers_frame:
  "con_frame (snd (recv_headers c sid hs now)) \<in> {con_frame c, (con_peer_settings_received c, fmdrop sid (con_pending_session_requests c))}"
  by (auto simp: recv_headers_def client_headers_def server_headers_def Let_def con_frame_def [of "con_pending_session_requests_update f c" for f]
      split: option.split)

lemma connection_event_frame:
  assumes "e \<notin> range H3SettingsReceived" "e \<notin> range (case_prod InternalBindH3ConnectStream)"
  shows "con_frame (snd (connection_event e now c)) = con_frame c
    \<or> (\<exists>m. con_frame (snd (connection_event e now c)) = (con_peer_settings_received c, m) \<and> fmran m |\<subseteq>| bound_requests c)"
proof (cases e)
  case (H3HeadersReceived sid hs)
  with headers_frame [of c sid hs now] show ?thesis by (auto simp: fmran_drop)
next
  case (TransportConnectionTerminated ec m)
  with terminated_frame [of c ec m now] show ?thesis by auto
next
  case (H3SettingsReceived s)
  with assms show ?thesis by blast
next
  case (InternalBindH3ConnectStream r sid)
  with assms(2) show ?thesis by (auto simp: image_def)
qed (simp_all add: session_event_defs stream_event_defs connection_bind_stream_def prune_early_events_def Let_def split: option.split)

lemma bind_session_frame [simp]:
  "con_frame (snd (bind_session c sid r)) = (con_peer_settings_received c, fmupd sid r (con_pending_session_requests c))"
  by (cases "fmlookup (con_session_requests c) r") (simp_all add: bind_session_def con_frame_def Let_def)

lemma recv_settings_frame [simp]: "con_frame (snd (recv_settings c settings now)) = (True, con_pending_session_requests c)"
  by (simp add: recv_settings_def Let_def) (simp add: con_frame_def)

lemma event_settings:
  assumes "e \<notin> range H3SettingsReceived"
  shows "con_peer_settings_received (snd (connection_event e now c)) = con_peer_settings_received c"
proof (cases "e \<in> range (case_prod InternalBindH3ConnectStream)")
  case True
  then obtain r sid where "e = InternalBindH3ConnectStream r sid" by auto
  with bind_session_frame [of c sid r] show ?thesis by (simp add: con_frame_def)
next
  case False
  from connection_event_frame [OF assms False, of now c] show ?thesis by (auto simp: con_frame_def)
qed

text \<open>The requests an event binds to a CONNECT stream.\<close>

definition event_binds :: "ProtocolEvent \<Rightarrow> RequestId fset" where
  "event_binds e = (case e of InternalBindH3ConnectStream r sid \<Rightarrow> {|r|} | _ \<Rightarrow> {||})"

lemma fmran_upd: "fmran (fmupd k v m) |\<subseteq>| finsert v (fmran m)"
  by (auto simp: fmlookup_ran_iff split: if_splits)

lemma event_bound_requests:
  "bound_requests (snd (connection_event e now c)) |\<subseteq>| bound_requests c |\<union>| event_binds e"
proof -
  consider settings where "e = H3SettingsReceived settings" | r sid where "e = InternalBindH3ConnectStream r sid"
    | "e \<notin> range H3SettingsReceived" "e \<notin> range (case_prod InternalBindH3ConnectStream)" by force
  then show ?thesis
  proof cases
    case (1 settings)
    with recv_settings_frame [of c settings now] show ?thesis by (simp add: con_frame_def)
  next
    case (2 r sid)
    with bind_session_frame [of c sid r] fmran_upd show ?thesis by (simp add: con_frame_def event_binds_def)
  next
    case 3
    with connection_event_frame [of e now c] show ?thesis by (auto simp: con_frame_def)
  qed
qed

end
