(* ===== verification/Connection_Goaway.thy ===== *)
theory Connection_Goaway
  imports Connection_Theorems Connection_Frame
begin

text \<open>
  Draining a connection: what a server promises with GOAWAY, and that a connection and its
  sessions only move forward.  Two runs at the end show where the set-up of sessions does not do
  what it means to do.
\<close>

subsection \<open>The sessions of a connection\<close>

abbreviation session_ids :: "Connection \<Rightarrow> SessionId fset" where
  "session_ids c \<equiv> fmdom (con_sessions c)"

lemma put_session_ids: "fmlookup (con_sessions c) i = Some s \<Longrightarrow> session_ids (snd (put_session c i p)) = session_ids c"
  by (simp add: put_session_def fmdomI finsert_absorb)

lemma adopt_stream_ids:
  assumes "fmlookup (con_sessions c) i = Some s"
  shows "session_ids (snd (adopt_stream c i sid p)) = session_ids c"
  using put_session_ids [OF assms, of p] by (simp add: adopt_stream_def case_prod_beta)

lemma on_session_ids [simp]:
  assumes "session_ids (snd m) = session_ids c"
  shows "session_ids (snd (on_session c i f m)) = session_ids c"
proof (cases "fmlookup (con_sessions c) i")
  case (Some s)
  with put_session_ids [OF Some] show ?thesis by (simp add: on_session_def)
qed (simp add: on_session_def assms)

lemma on_stream_ids [simp]:
  assumes "session_ids (snd m) = session_ids c"
  shows "session_ids (snd (on_stream c sid f m)) = session_ids c"
proof (cases "fmlookup (con_stream_map c) sid")
  case (Some i)
  then show ?thesis
  proof (cases "fmlookup (con_sessions c) i")
    case (Some s)
    with put_session_ids [OF Some] \<open>fmlookup (con_stream_map c) sid = Some i\<close> show ?thesis
      by (simp add: on_stream_def Let_def case_prod_beta)
  qed (simp add: on_stream_def assms)
qed (simp add: on_stream_def assms)

lemma each_session_ids [simp]: "session_ids (snd (each_session ids f c)) = session_ids c"
  by (induction ids arbitrary: c) (simp_all add: Let_def case_prod_beta)

lemma buffer_ids [simp]: "con_sessions (snd (buffer_early_event c i e now)) = con_sessions c"
  by (simp add: buffer_early_event_def Let_def)

lemma prune_each_ids [simp]: "con_sessions (snd (prune_each ids now c)) = con_sessions c"
  by (induction ids arbitrary: c) (simp_all add: Let_def case_prod_beta)

lemma on_all_ids [simp]: "session_ids (snd (on_all_sessions c f)) = session_ids c"
  by (simp add: on_all_sessions_def)

lemma lifecycle_ids [simp]:
  "con_sessions (snd (connection_open c now)) = con_sessions c"
  "con_sessions (snd (handle_handshake_completed c now)) = con_sessions c"
  "con_sessions (snd (recv_settings c settings now)) = con_sessions c"
  "con_sessions (snd (recv_transport_parameters c n)) = con_sessions c"
  "con_sessions (snd (connection_close c r ec m now)) = con_sessions c"
  "con_sessions (snd (defer_session c i)) = con_sessions c"
  "con_sessions (snd (fail_session c i ec' m')) = con_sessions c"
  "con_sessions (snd (prune_early_events c now)) = con_sessions c"
  "con_sessions (snd (create_session c i q)) = con_sessions c"
  by (simp_all add: connection_open_def handle_handshake_completed_def recv_settings_def recv_transport_parameters_def
      connection_close_def defer_session_def fail_session_def prune_early_events_def create_session_def
      Let_def case_prod_beta split: sum.split)

lemma sweep_ids [simp]:
  "session_ids (snd (close_gracefully c r)) = session_ids c"
  "session_ids (snd (handle_terminated c ec m now)) = session_ids c"
  "session_ids (snd (recv_goaway c)) = session_ids c"
  "session_ids (snd (recv_max_streams c u)) = session_ids c"
  by (simp_all add: close_gracefully_def handle_terminated_def recv_goaway_def recv_max_streams_def Let_def case_prod_beta)

text \<open>Only the set-up of a session adds one; a server that has sent GOAWAY sets none up.\<close>

lemma drained_server_ids:
  assumes "\<not> con_is_client c" "con_local_goaway_sent c" "con_session_requests c = fmempty"
  shows "session_ids (snd (connection_event e now c)) |\<subseteq>| session_ids c"
proof (cases e)
  case (H3WebTransportStreamOpened i sid)
  then show ?thesis
    using adopt_stream_ids by (auto simp: connection_stream_opened_def case_prod_beta split: option.split)
next
  case (InternalBindQuicStream r sid i u)
  then show ?thesis
    using adopt_stream_ids by (auto simp: connection_bind_stream_def split: option.split)
next
  case (H3HeadersReceived sid hs)
  with assms show ?thesis by (simp add: recv_headers_def server_headers_def)
next
  case (InternalBindH3ConnectStream r sid)
  with assms show ?thesis by (simp add: bind_session_def)
next
  case InternalCleanupResources
  then show ?thesis by (auto simp: prune_resources_def Let_def)
qed (simp_all add: session_event_defs stream_event_defs Let_def)

lemma drained_run_ids:
  assumes "con_inv c" "\<not> con_is_client c" "con_local_goaway_sent c" "calls_ok connection_step event_ok c events"
  shows "session_ids (snd (run_calls connection_step c events)) |\<subseteq>| session_ids c"
  using assms
proof (induction events arbitrary: c)
  case (Cons e events)
  obtain ev now where e: "e = (ev, now)" by (cases e)
  let ?d = "snd (connection_step e c)"
  have keeps: "con_keeps c (mset (event_submits ev)) (connection_step e c)"
    using connection_step_keeps [of c ev now] Cons.prems e by (simp add: connection_step_def)
  then have d: "con_inv ?d" "\<not> con_is_client ?d" "con_local_goaway_sent ?d"
    using Cons.prems by (simp_all add: con_keeps_def con_moves_def con_grows_def)
  have "con_session_requests c = fmempty"
    using Cons.prems by (simp add: con_inv_def requests_ok_def)
  then have "session_ids ?d |\<subseteq>| session_ids c"
    using drained_server_ids [of c ev now] Cons.prems e by (simp add: connection_step_def)
  with Cons.IH [OF d] Cons.prems show ?case by (simp add: fsubset_trans [of _ "session_ids ?d"])
qed simp

subsection \<open>GOAWAY\<close>

lemma saturating_add_gt:
  assumes "x < m" "0 < (d::u64)"
  shows "x < saturating_add x d"
proof -
  have "unat m < 2 ^ 64" using unsigned_less [of m, where ?'a = nat] by simp
  then have "unat x < 2 ^ 64 - 1" using assms(1) unfolding word_less_nat_alt by linarith
  with assms(2) show ?thesis by (simp add: word_less_nat_alt unat_saturating_add)
qed

lemma goaway_covers:
  assumes "\<not> con_is_client c" "i |\<in>| session_ids c" "\<forall>j. j |\<in>| session_ids c \<longrightarrow> j < QUIC_VARINT_LIMIT"
  shows "i < goaway_identifier c"
proof -
  obtain k ks where keys: "sorted_keys (con_sessions c) = k # ks"
    using assms(2) by (cases "sorted_keys (con_sessions c)") (auto simp: sorted_keys_def dest: arg_cong [where f = set])
  have set: "set (k # ks) = fset (session_ids c)"
    unfolding keys [symmetric] by (simp add: sorted_keys_def)
  let ?m = "fold max ks k"
  have m: "?m = Max (set (k # ks))" by (rule Max.set_eq_fold [symmetric])
  have "?m \<in> set (k # ks)" unfolding m by (rule Max_in) simp_all
  then have limit: "?m < QUIC_VARINT_LIMIT" using assms(3) set by auto
  moreover have "i \<le> ?m" unfolding m by (rule Max_ge) (use assms(2) set in simp_all)
  moreover have "?m < saturating_add ?m QUIC_STREAM_TYPE_COUNT"
    by (rule saturating_add_gt [OF limit]) (simp add: QUIC_STREAM_TYPE_COUNT_def)
  ultimately show ?thesis
    using assms(1) by (auto simp: goaway_identifier_def keys intro: order.strict_trans1)
qed

text \<open>
  C29. A server that closes gracefully keeps its word: the identifier in its GOAWAY frame is above
  that of every session it has, and whatever happens afterwards, it never takes up another session.
\<close>

theorem goaway_bounds_sessions:
  assumes "con_inv c" and "\<not> con_is_client c" and "con_state c = ConnectionState.Connected" and "\<not> con_local_goaway_sent c"
    and "\<forall>i. i |\<in>| session_ids c \<longrightarrow> i < QUIC_VARINT_LIMIT"
    and "calls_ok connection_step event_ok c ((UserCloseConnectionGracefully r, t) # events)"
    and "run_calls connection_step c ((UserCloseConnectionGracefully r, t) # events) = (es, d)"
  shows "\<exists>n. SendH3Goaway n \<in> set es \<and> (\<forall>i. i |\<in>| session_ids d \<longrightarrow> i |\<in>| session_ids c \<and> i < n)"
proof -
  let ?c = "snd (close_gracefully c r)"
  have keeps: "con_keeps c {#r#} (close_gracefully c r)" by (rule close_gracefully_keeps [OF assms(1)])
  then have "con_inv ?c" "\<not> con_is_client ?c"
    using assms(2) by (simp_all add: con_keeps_def con_moves_def con_grows_def)
  moreover have "con_local_goaway_sent ?c"
    using assms(3) by (simp add: close_gracefully_def on_all_sessions_def each_session_eq Let_def case_prod_beta)
  ultimately have "session_ids d |\<subseteq>| session_ids ?c"
    using drained_run_ids [of ?c events] assms(6,7) by (simp add: connection_step_def prod_eq_iff)
  moreover have "SendH3Goaway (goaway_identifier c) \<in> set es"
    using assms(3,4,7) by (auto simp: connection_step_def close_gracefully_def Let_def case_prod_beta prod_eq_iff)
  ultimately show ?thesis
    using goaway_covers [OF assms(2) _ assms(5)] by (intro exI [of _ "goaway_identifier c"]) auto
qed

definition example_server :: Connection where
  "example_server = connection_new 8 None False example_connection_parameters"

definition example_request :: Headers where
  "example_request =
    [(bstr '':method'', bstr ''CONNECT''), (bstr '':scheme'', bstr ''https''), (bstr '':authority'', bstr ''h''),
     (bstr '':path'', bstr ''/chat''), (bstr '':protocol'', WT_UPGRADE_TOKEN)]"

text \<open>A server with the session 4 that closes gracefully and is then asked for another session.\<close>

definition server_events :: "(ProtocolEvent \<times> f64) list" where
  "server_events = [(TransportHandshakeCompleted, 0), (H3SettingsReceived example_settings, 0), (H3HeadersReceived 4 example_request, 0)]"

definition draining_events :: "(ProtocolEvent \<times> f64) list" where
  "draining_events = [(UserCloseConnectionGracefully 1, 1), (H3HeadersReceived 8 example_request, 2)]"

abbreviation serving :: Connection where
  "serving \<equiv> snd (run_calls connection_step example_server server_events)"

text \<open>Two runs in which the set-up of a session goes wrong.\<close>

definition late_response :: "(ProtocolEvent \<times> f64) list" where
  "late_response = map (\<lambda>e. (e, 0))
    [TransportHandshakeCompleted, H3SettingsReceived example_settings,
     UserCreateSessionOptimistic 1 ''h'' ''/'' [] None, InternalBindH3ConnectStream 1 0,
     TransportStopSendingReceived 0 5, InternalCleanupResources,
     H3HeadersReceived 0 [(bstr '':status'', bstr ''429'')]]"

definition early_request :: "(ProtocolEvent \<times> f64) list" where
  "early_request = map (\<lambda>e. (e, 0))
    [TransportHandshakeCompleted, H3HeadersReceived 0 example_request, H3SettingsReceived example_settings]"

text \<open>All runs, evaluated together.\<close>

lemma runs_eval:
  "calls_ok connection_step event_ok example_server (server_events @ draining_events)
    \<and> (let c = serving in session_ids c = {|4|} \<and> \<not> con_is_client c \<and> con_state c = ConnectionState.Connected
         \<and> \<not> con_local_goaway_sent c)
    \<and> answered (fst (run_calls connection_step example_client late_response)) = [9, 1, 1]
    \<and> (let c = snd (run_calls connection_step example_server early_request) in
         has_flow_control c \<and> map_option ses_flow_control_negotiated (fmlookup (con_sessions c) 0) = Some False)"
  by code_simp

lemma serving_facts:
  "calls_ok connection_step event_ok example_server server_events"
  "calls_ok connection_step event_ok serving draining_events"
  "session_ids serving = {|4|}" "\<not> con_is_client serving" "con_state serving = ConnectionState.Connected"
  "\<not> con_local_goaway_sent serving"
  using runs_eval by (simp_all add: calls_ok_append Let_def)

theorem goaway_bounds_sessions_witness:
  "\<exists>n. SendH3Goaway n \<in> set (fst (run_calls connection_step serving draining_events))
    \<and> (\<forall>i. i |\<in>| session_ids (snd (run_calls connection_step serving draining_events)) \<longrightarrow> i |\<in>| session_ids serving \<and> i < n)"
proof -
  have "con_inv serving"
    using connection_requests.run_inv [OF connection_new_inv serving_facts(1) [unfolded example_server_def]]
    by (simp add: example_server_def)
  then show ?thesis
    using goaway_bounds_sessions [of serving 1 1 "[(H3HeadersReceived 8 example_request, 2)]", folded draining_events_def]
      serving_facts(2-)
    by (simp add: QUIC_VARINT_LIMIT_def)
qed

text \<open>
  A connection only moves forward: no admissible event takes its state back (idle, connecting,
  connected, closing, closed), withdraws a GOAWAY or the peer's SETTINGS, or changes which end it is.
\<close>

theorem connection_monotone:
  assumes "con_inv c" and "calls_ok connection_step event_ok c events"
    and "run_calls connection_step c events = (es, d)"
  shows "con_rank (con_state c) \<le> con_rank (con_state d) \<and> con_is_client d = con_is_client c
    \<and> (con_local_goaway_sent c \<longrightarrow> con_local_goaway_sent d) \<and> (con_peer_goaway_received c \<longrightarrow> con_peer_goaway_received d)
    \<and> (con_peer_settings_received c \<longrightarrow> con_peer_settings_received d)"
  using connection_run_grows [OF assms(1,2)] assms(3) by (simp add: con_grows_def)

theorem connection_monotone_witness:
  "con_rank (con_state example_client) \<le> con_rank (con_state (snd (run_calls connection_step example_client terminated_events)))"
  using connection_monotone [of example_client terminated_events
      "fst (run_calls connection_step example_client terminated_events)"
      "snd (run_calls connection_step example_client terminated_events)"]
    connection_new_inv [of example_connection_parameters 7 "Some 9" True, folded example_client_def] terminated_eval
  by simp

subsection \<open>Where the set-up of sessions goes wrong\<close>



end
