(* ===== verification/H3_Codec.thy ===== *)
theory H3_Codec
  imports Connection_State
begin

text \<open>
  The parts of \<open>protocol/h3.rs\<close> without state: the errors (\<open>common/error.rs\<close>), the encoding of
  frames, settings, capsules, datagrams and stream headers, the parsing of settings, and the
  validation of settings and of the headers of requests and responses.  A fallible function
  returns a sum; a \<open>usize\<close> has 64 bits, so that the conversions of lengths always succeed.
\<close>

datatype WebTransportError =
    Configuration "ErrorCode option" string
  | Protocol "ErrorCode option" string
  | Stream StreamId "ErrorCode option" string
  | Unknown "ErrorCode option" string

definition CONTROL_FRAME_SIZE_LIMIT :: nat where
  "CONTROL_FRAME_SIZE_LIMIT = 4096"

definition SETTINGS_ENTRIES_LIMIT :: nat where
  "SETTINGS_ENTRIES_LIMIT = 64"

subsection \<open>Encoding\<close>

text \<open>\<open>write_varint\<close> with the error every caller maps it to.\<close>

definition put_varint :: "bytes \<Rightarrow> u64 \<Rightarrow> WebTransportError + bytes" where
  "put_varint buffer v =
    (case write_varint buffer v of
       Inl _ \<Rightarrow> Inl (Protocol (Some ERR_LIB_INTERNAL_ERROR) ''varint encode failed'')
     | Inr buffer \<Rightarrow> Inr buffer)"

definition put_varints :: "bytes \<Rightarrow> u64 \<Rightarrow> u64 \<Rightarrow> WebTransportError + bytes" where
  "put_varints buffer v w =
    (case put_varint buffer v of Inl e \<Rightarrow> Inl e | Inr buffer \<Rightarrow> put_varint buffer w)"

definition encode_frame_header :: "u64 \<Rightarrow> nat \<Rightarrow> WebTransportError + bytes" where
  "encode_frame_header frame_type payload_length = put_varints [] frame_type (of_nat payload_length)"

definition encode_capsule :: "StreamId \<Rightarrow> u64 \<Rightarrow> bytes \<Rightarrow> WebTransportError + bytes list" where
  "encode_capsule stream_id capsule_type capsule_value =
    (if \<not> is_valid_session_id stream_id then
       Inl (Protocol (Some ERR_H3_STREAM_CREATION_ERROR) ''h3_stream validate invalid'')
     else
       (case put_varints [] capsule_type (len64 capsule_value) of
          Inl e \<Rightarrow> Inl e
        | Inr capsule_header \<Rightarrow>
            (case encode_frame_header H3_FRAME_TYPE_DATA (length capsule_header + length capsule_value) of
               Inl e \<Rightarrow> Inl e
             | Inr frame_header \<Rightarrow> Inr [frame_header, capsule_header, capsule_value])))"

definition connect_request_headers :: "string \<Rightarrow> string \<Rightarrow> Headers \<Rightarrow> Headers" where
  "connect_request_headers authority path headers =
    [(bstr '':method'', bstr ''CONNECT''), (bstr '':scheme'', bstr ''https''),
     (bstr '':authority'', as_bytes authority), (bstr '':path'', as_bytes path),
     (bstr '':protocol'', WT_UPGRADE_TOKEN)] @ headers"

definition encode_datagram :: "SessionId \<Rightarrow> bytes \<Rightarrow> WebTransportError + bytes list" where
  "encode_datagram session_id data =
    (if \<not> is_valid_session_id session_id then
       Inl (Protocol (Some ERR_H3_STREAM_CREATION_ERROR) ''wt_session validate invalid'')
     else
       (case put_varint [] (session_id div 4) of
          Inl e \<Rightarrow> Inl e
        | Inr header \<Rightarrow> Inr [header, data]))"

definition encode_goaway :: "u64 \<Rightarrow> WebTransportError + bytes" where
  "encode_goaway identifier =
    (case put_varint [] identifier of
       Inl e \<Rightarrow> Inl e
     | Inr payload \<Rightarrow>
         (case encode_frame_header H3_FRAME_TYPE_GOAWAY (length payload) of
            Inl e \<Rightarrow> Inl e
          | Inr header \<Rightarrow> Inr (header @ payload)))"

definition encode_stream_header :: "StreamId \<Rightarrow> SessionId \<Rightarrow> bool \<Rightarrow> effects" where
  "encode_stream_header stream_id session_id is_unidirectional =
    (let stream_type = (if is_unidirectional then H3_STREAM_TYPE_WEBTRANSPORT else H3_FRAME_TYPE_WT_STREAM)
     in case put_varints [] stream_type session_id of
          Inl _ \<Rightarrow> []
        | Inr buffer \<Rightarrow> [SendQuicData stream_id buffer False])"

definition fail_local_streams :: effects where
  "fail_local_streams = [CloseQuicConnection ERR_H3_GENERAL_PROTOCOL_ERROR (Some ''h3_stream create failed'')]"

subsection \<open>Settings\<close>

definition no_settings :: H3Settings where
  "no_settings =
    \<lparr>set_enable_connect_protocol = None, set_h3_datagram = None, set_max_field_section_size = None,
     set_qpack_blocked_streams = None, set_qpack_max_table_capacity = None, set_unknown = [], set_wt_enabled = None,
     set_wt_initial_max_data = None, set_wt_initial_max_streams_bidi = None, set_wt_initial_max_streams_uni = None\<rparr>"

definition known_settings :: "H3Settings \<Rightarrow> (u64 \<times> u64 option) list" where
  "known_settings settings =
    [(SETTINGS_QPACK_MAX_TABLE_CAPACITY, set_qpack_max_table_capacity settings),
     (SETTINGS_MAX_FIELD_SECTION_SIZE, set_max_field_section_size settings),
     (SETTINGS_QPACK_BLOCKED_STREAMS, set_qpack_blocked_streams settings),
     (SETTINGS_ENABLE_CONNECT_PROTOCOL, set_enable_connect_protocol settings),
     (SETTINGS_H3_DATAGRAM, set_h3_datagram settings),
     (SETTINGS_WT_INITIAL_MAX_DATA, set_wt_initial_max_data settings),
     (SETTINGS_WT_INITIAL_MAX_STREAMS_UNI, set_wt_initial_max_streams_uni settings),
     (SETTINGS_WT_INITIAL_MAX_STREAMS_BIDI, set_wt_initial_max_streams_bidi settings),
     (SETTINGS_WT_ENABLED, set_wt_enabled settings)]"

fun encode_known :: "bytes \<Rightarrow> (u64 \<times> u64 option) list \<Rightarrow> WebTransportError + bytes" where
  "encode_known buffer [] = Inr buffer"
| "encode_known buffer ((identifier, None) # known) = encode_known buffer known"
| "encode_known buffer ((identifier, Some v) # known) =
    (case put_varints buffer identifier v of Inl e \<Rightarrow> Inl e | Inr buffer \<Rightarrow> encode_known buffer known)"

fun encode_unknown :: "bytes \<Rightarrow> (u64 \<times> u64) list \<Rightarrow> WebTransportError + bytes" where
  "encode_unknown buffer [] = Inr buffer"
| "encode_unknown buffer ((identifier, v) # unknown) =
    (case put_varints buffer identifier v of Inl e \<Rightarrow> Inl e | Inr buffer \<Rightarrow> encode_unknown buffer unknown)"

definition encode_settings :: "H3Settings \<Rightarrow> WebTransportError + bytes" where
  "encode_settings settings =
    (case encode_known [] (known_settings settings) of
       Inl e \<Rightarrow> Inl e
     | Inr buffer \<Rightarrow> encode_unknown buffer (set_unknown settings))"

definition parse_push_id :: "bytes \<Rightarrow> WebTransportError + u64" where
  "parse_push_id data =
    (case read_varint data of
       Inl _ \<Rightarrow> Inl (Protocol (Some ERR_H3_FRAME_ERROR) ''varint decode invalid'')
     | Inr (push_id, rest) \<Rightarrow>
         if rest \<noteq> [] then Inl (Protocol (Some ERR_H3_FRAME_ERROR) ''h3_frame validate invalid'') else Inr push_id)"

text \<open>A setting that is already present is refused.\<close>

definition settings_store :: "H3Settings \<Rightarrow> u64 \<Rightarrow> u64 \<Rightarrow> H3Settings option" where
  "settings_store s identifier v =
    (let store = (\<lambda>slot stored. case slot of None \<Rightarrow> Some stored | Some _ \<Rightarrow> None)
     in if identifier = SETTINGS_ENABLE_CONNECT_PROTOCOL then
          store (set_enable_connect_protocol s) (s\<lparr>set_enable_connect_protocol := Some v\<rparr>)
        else if identifier = SETTINGS_H3_DATAGRAM then store (set_h3_datagram s) (s\<lparr>set_h3_datagram := Some v\<rparr>)
        else if identifier = SETTINGS_MAX_FIELD_SECTION_SIZE then
          store (set_max_field_section_size s) (s\<lparr>set_max_field_section_size := Some v\<rparr>)
        else if identifier = SETTINGS_QPACK_BLOCKED_STREAMS then
          store (set_qpack_blocked_streams s) (s\<lparr>set_qpack_blocked_streams := Some v\<rparr>)
        else if identifier = SETTINGS_QPACK_MAX_TABLE_CAPACITY then
          store (set_qpack_max_table_capacity s) (s\<lparr>set_qpack_max_table_capacity := Some v\<rparr>)
        else if identifier = SETTINGS_WT_ENABLED then store (set_wt_enabled s) (s\<lparr>set_wt_enabled := Some v\<rparr>)
        else if identifier = SETTINGS_WT_INITIAL_MAX_DATA then
          store (set_wt_initial_max_data s) (s\<lparr>set_wt_initial_max_data := Some v\<rparr>)
        else if identifier = SETTINGS_WT_INITIAL_MAX_STREAMS_BIDI then
          store (set_wt_initial_max_streams_bidi s) (s\<lparr>set_wt_initial_max_streams_bidi := Some v\<rparr>)
        else if identifier = SETTINGS_WT_INITIAL_MAX_STREAMS_UNI then
          store (set_wt_initial_max_streams_uni s) (s\<lparr>set_wt_initial_max_streams_uni := Some v\<rparr>)
        else if list_ex (\<lambda>(unknown_identifier, _). unknown_identifier = identifier) (set_unknown s) then None
        else Some (s\<lparr>set_unknown := set_unknown s @ [(identifier, v)]\<rparr>))"

definition is_reserved_setting :: "u64 \<Rightarrow> bool" where
  "is_reserved_setting identifier \<longleftrightarrow>
    identifier = SETTINGS_RESERVED_ENABLE_PUSH \<or> identifier = SETTINGS_RESERVED_INITIAL_WINDOW_SIZE
    \<or> identifier = SETTINGS_RESERVED_MAX_CONCURRENT_STREAMS \<or> identifier = SETTINGS_RESERVED_MAX_FRAME_SIZE"

lemma read_varint_shrinks: "read_varint bs = Inr (v, rest) \<Longrightarrow> length rest < length bs"
  by (rule varint.dec_shrinks)

function parse_settings_loop :: "bytes \<Rightarrow> H3Settings \<Rightarrow> nat \<Rightarrow> WebTransportError + H3Settings" where
  "parse_settings_loop data settings entries =
    (if data = [] then Inr settings
     else if entries \<ge> SETTINGS_ENTRIES_LIMIT then
       Inl (Protocol (Some ERR_H3_SETTINGS_ERROR) ''h3_settings validate exceeded'')
     else
       (case read_varint data of
          Inl _ \<Rightarrow> Inl (Protocol (Some ERR_H3_FRAME_ERROR) ''varint decode invalid'')
        | Inr (identifier, rest) \<Rightarrow>
            (case read_varint rest of
               Inl _ \<Rightarrow> Inl (Protocol (Some ERR_H3_FRAME_ERROR) ''varint decode invalid'')
             | Inr (v, rest) \<Rightarrow>
                 if is_reserved_setting identifier then
                   Inl (Protocol (Some ERR_H3_SETTINGS_ERROR) ''h3_settings validate invalid'')
                 else
                   (case settings_store settings identifier v of
                      None \<Rightarrow> Inl (Protocol (Some ERR_H3_SETTINGS_ERROR) ''h3_settings validate invalid'')
                    | Some settings \<Rightarrow> parse_settings_loop rest settings (entries + 1)))))"
  by pat_completeness auto

termination
  by (relation "measure (\<lambda>(data, _, _). length data)") (auto dest!: read_varint_shrinks)

declare parse_settings_loop.simps [simp del]

definition parse_settings :: "bytes \<Rightarrow> WebTransportError + H3Settings" where
  "parse_settings data = parse_settings_loop data no_settings 0"

definition settings_error :: WebTransportError where
  "settings_error = Protocol (Some ERR_H3_SETTINGS_ERROR) ''h3_settings validate invalid''"

definition validate_settings :: "H3Settings \<Rightarrow> Connection \<Rightarrow> WebTransportError + unit" where
  "validate_settings settings connection =
    (let is_some_and = (\<lambda>slot P. case slot of None \<Rightarrow> False | Some v \<Rightarrow> P v);
         quic_supports_datagrams = (case con_peer_max_datagram_frame_size connection of None \<Rightarrow> False | Some n \<Rightarrow> n > 0)
     in if is_some_and (set_enable_connect_protocol settings) (\<lambda>v. v \<noteq> 1) then Inl settings_error
        else if \<not> quic_supports_datagrams \<and> set_h3_datagram settings = Some 1 then Inl settings_error
        else if con_is_client connection \<and> is_some_and (set_wt_enabled settings) (\<lambda>v. v > 1) then Inl settings_error
        else if (case set_wt_enabled settings of None \<Rightarrow> 0 | Some v \<Rightarrow> v) = 0 then
          Inl (Protocol (Some ERR_WT_REQUIREMENTS_NOT_MET) ''h3_settings validate invalid'')
        else Inr ())"

end
