(* ===== verification/H3_Headers.thy ===== *)
theory H3_Headers
  imports H3_Codec
begin

text \<open>
  The validation of the headers of requests and responses (\<open>validate_request_headers\<close> and
  \<open>validate_response_headers\<close> of \<open>protocol/h3.rs\<close>).  The loop over the headers collects the
  pseudo-headers in a record.
\<close>

definition headers_error :: "StreamId \<Rightarrow> WebTransportError" where
  "headers_error stream_id = WebTransportError.Stream stream_id (Some ERR_H3_MESSAGE_ERROR) ''h3_headers validate invalid''"

record PseudoHeaders =
  ph_after_pseudo :: bool
  ph_method :: "bytes option"
  ph_scheme :: "bytes option"
  ph_authority :: "bytes option"
  ph_path :: "bytes option"
  ph_protocol :: "bytes option"
  ph_hosts :: "bytes list"

definition no_pseudo_headers :: PseudoHeaders where
  "no_pseudo_headers =
    \<lparr>ph_after_pseudo = False, ph_method = None, ph_scheme = None, ph_authority = None, ph_path = None,
     ph_protocol = None, ph_hosts = []\<rparr>"

definition is_pseudo :: "bytes \<Rightarrow> bool" where
  "is_pseudo key \<longleftrightarrow> (case key of [] \<Rightarrow> False | b # _ \<Rightarrow> b = 58)"

definition put_pseudo :: "PseudoHeaders \<Rightarrow> bytes \<Rightarrow> bytes \<Rightarrow> PseudoHeaders option" where
  "put_pseudo p key v =
    (let put = (\<lambda>slot stored. if ph_after_pseudo p \<or> slot \<noteq> None then None else Some stored)
     in if key = bstr '':method'' then put (ph_method p) (p\<lparr>ph_method := Some v\<rparr>)
        else if key = bstr '':scheme'' then put (ph_scheme p) (p\<lparr>ph_scheme := Some v\<rparr>)
        else if key = bstr '':authority'' then put (ph_authority p) (p\<lparr>ph_authority := Some v\<rparr>)
        else if key = bstr '':path'' then put (ph_path p) (p\<lparr>ph_path := Some v\<rparr>)
        else if key = bstr '':protocol'' then put (ph_protocol p) (p\<lparr>ph_protocol := Some v\<rparr>)
        else None)"

fun scan_request :: "Headers \<Rightarrow> PseudoHeaders \<Rightarrow> PseudoHeaders option" where
  "scan_request [] p = Some p"
| "scan_request ((key, v) # headers) p =
    (if \<not> is_valid_header key v \<or> is_connection_specific_header key v True then None
     else if is_pseudo key then
       (case put_pseudo p key v of None \<Rightarrow> None | Some p \<Rightarrow> scan_request headers p)
     else
       (let p = p\<lparr>ph_after_pseudo := True\<rparr>;
            p = (if key = bstr ''host'' then p\<lparr>ph_hosts := ph_hosts p @ [v]\<rparr> else p)
        in scan_request headers p))"

definition is_ascii_graphic :: "u8 \<Rightarrow> bool" where
  "is_ascii_graphic b \<longleftrightarrow> 0x21 \<le> b \<and> b \<le> 0x7E"

definition is_valid_pseudo :: "PseudoHeaders \<Rightarrow> bool" where
  "is_valid_pseudo p =
    (case (ph_method p, ph_protocol p) of
       (Some method, None) \<Rightarrow>
         if method = bstr ''CONNECT'' then
           (case ph_authority p of None \<Rightarrow> False | Some authority \<Rightarrow> authority \<noteq> [])
           \<and> ph_scheme p = None \<and> ph_path p = None
         else ph_scheme p \<noteq> None \<and> ph_path p \<noteq> None
     | (Some method, Some _) \<Rightarrow> method = bstr ''CONNECT'' \<and> ph_scheme p \<noteq> None \<and> ph_path p \<noteq> None
     | (None, _) \<Rightarrow> False)"

definition is_valid_path :: "PseudoHeaders \<Rightarrow> bool" where
  "is_valid_path p \<longleftrightarrow> (case ph_path p of None \<Rightarrow> True | Some path \<Rightarrow> list_all is_ascii_graphic path)"

definition is_valid_authority :: "PseudoHeaders \<Rightarrow> bool" where
  "is_valid_authority p =
    (case (ph_authority p, ph_hosts p) of
       (Some authority, []) \<Rightarrow> authority \<noteq> []
     | (Some authority, [host]) \<Rightarrow> authority \<noteq> [] \<and> host = authority
     | (None, _ # _) \<Rightarrow> list_all (\<lambda>host. host \<noteq> []) (ph_hosts p)
     | _ \<Rightarrow> False)"

definition is_http_path :: "PseudoHeaders \<Rightarrow> bool" where
  "is_http_path p =
    (case ph_path p of
       None \<Rightarrow> False
     | Some path \<Rightarrow>
         (case path of [] \<Rightarrow> False | b # _ \<Rightarrow> b = 47)
         \<or> path = bstr ''*'' \<and> ph_method p = Some (bstr ''OPTIONS''))"

definition validate_request_headers :: "StreamId \<Rightarrow> Headers \<Rightarrow> WebTransportError + unit" where
  "validate_request_headers stream_id headers =
    (case scan_request headers no_pseudo_headers of
       None \<Rightarrow> Inl (headers_error stream_id)
     | Some p \<Rightarrow>
         if \<not> is_valid_pseudo p \<or> \<not> is_valid_path p then Inl (headers_error stream_id)
         else if ph_scheme p = Some (bstr ''http'') \<or> ph_scheme p = Some (bstr ''https'') then
           (if \<not> is_valid_authority p \<or> \<not> is_http_path p then Inl (headers_error stream_id) else Inr ())
         else Inr ())"

fun scan_response :: "Headers \<Rightarrow> bool \<Rightarrow> bytes option \<Rightarrow> bytes option option" where
  "scan_response [] after_pseudo status = Some status"
| "scan_response ((key, v) # headers) after_pseudo status =
    (if \<not> is_valid_header key v \<or> is_connection_specific_header key v False then None
     else if is_pseudo key then
       (if after_pseudo \<or> key \<noteq> bstr '':status'' \<or> status \<noteq> None then None
        else scan_response headers after_pseudo (Some v))
     else scan_response headers True status)"

definition validate_response_headers :: "StreamId \<Rightarrow> Headers \<Rightarrow> WebTransportError + unit" where
  "validate_response_headers stream_id headers =
    (case scan_response headers False None of
       Some (Some status) \<Rightarrow> Inr ()
     | _ \<Rightarrow> Inl (headers_error stream_id))"

end
