(* ===== verification/H3_State.thy ===== *)
theory H3_State
  imports H3_Headers
begin

text \<open>
  The state of the HTTP/3 layer (\<open>protocol/h3.rs\<close>).  Header compression is a parameter: a record
  of the operations of \<open>protocol/qpack.rs\<close>, which wrap a C library, on decoder and encoder states
  of any type.
\<close>

datatype DecodeStatus = Blocked | Done Headers

datatype QpackError = DecoderError | EncoderError | HeaderTooLong

record ('d, 'e) Qpack =
  qp_decoder_new :: "u32 \<Rightarrow> u32 \<Rightarrow> 'd"
  qp_abandon_header_block :: "'d \<Rightarrow> u64 \<Rightarrow> bytes \<times> 'd"
  qp_decode_header :: "'d \<Rightarrow> u64 \<Rightarrow> bytes \<Rightarrow> (QpackError + bytes \<times> DecodeStatus) \<times> 'd"
  qp_feed_encoder :: "'d \<Rightarrow> bytes \<Rightarrow> (QpackError + u64 list) \<times> 'd"
  qp_resume_header :: "'d \<Rightarrow> u64 \<Rightarrow> (QpackError + bytes \<times> Headers option) \<times> 'd"
  qp_encoder_new :: "u32 \<Rightarrow> u32 \<Rightarrow> 'e"
  qp_apply_settings :: "'e \<Rightarrow> u64 \<Rightarrow> u64 \<Rightarrow> (QpackError + bytes) \<times> 'e"
  qp_encode :: "'e \<Rightarrow> u64 \<Rightarrow> Headers \<Rightarrow> (QpackError + bytes \<times> bytes) \<times> 'e"
  qp_feed_decoder :: "'e \<Rightarrow> bytes \<Rightarrow> (QpackError + unit) \<times> 'e"

record H3Parameters =
  hp_initial_max_data :: u64
  hp_initial_max_streams_bidi :: u64
  hp_initial_max_streams_uni :: u64
  hp_max_capsule_size :: u64
  hp_max_field_section_size :: u64

record H3Stream =
  hs_blocked :: bool
  hs_blocked_frame_size :: "nat option"
  hs_buffer :: bytes
  hs_capsule_buffer :: bytes
  hs_ended :: bool
  hs_frame_size :: "nat option"
  hs_frame_type :: "u64 option"
  hs_headers_processed :: bool
  hs_is_connect_stream :: bool
  hs_is_request_stream :: bool
  hs_stream_type :: "u64 option"

definition h3_stream_default :: H3Stream where
  "h3_stream_default =
    \<lparr>hs_blocked = False, hs_blocked_frame_size = None, hs_buffer = [], hs_capsule_buffer = [], hs_ended = False,
     hs_frame_size = None, hs_frame_type = None, hs_headers_processed = False, hs_is_connect_stream = False,
     hs_is_request_stream = False, hs_stream_type = None\<rparr>"

datatype HeaderDecodeStatus = HeadersBlocked | HeadersDone Headers effects

record ('d, 'e) H3 =
  h3_blocked_streams :: u32
  h3_decoder :: 'd
  h3_encoder :: 'e
  h3_initial_max_data :: u64
  h3_initial_max_streams_bidi :: u64
  h3_initial_max_streams_uni :: u64
  h3_is_client :: bool
  h3_local_control_stream_id :: "StreamId option"
  h3_local_decoder_stream_id :: "StreamId option"
  h3_local_encoder_stream_id :: "StreamId option"
  h3_max_capsule_size :: u64
  h3_max_field_section_size :: u64
  h3_max_table_capacity :: u32
  h3_peer_control_stream_id :: "StreamId option"
  h3_peer_decoder_stream_id :: "StreamId option"
  h3_peer_encoder_stream_id :: "StreamId option"
  h3_peer_max_push_id :: "u64 option"
  h3_settings_received :: bool
  h3_streams :: "(StreamId, H3Stream) fmap"

definition QPACK_DECODER_BLOCKED_STREAM_CAPACITY :: u32 where "QPACK_DECODER_BLOCKED_STREAM_CAPACITY = 0"
definition QPACK_DECODER_TABLE_CAPACITY :: u32 where "QPACK_DECODER_TABLE_CAPACITY = 0"
definition QPACK_ENCODER_BLOCKED_STREAM_CAPACITY :: u32 where "QPACK_ENCODER_BLOCKED_STREAM_CAPACITY = 0"
definition QPACK_ENCODER_TABLE_CAPACITY :: u32 where "QPACK_ENCODER_TABLE_CAPACITY = 0"

definition h3_new :: "('d, 'e) Qpack \<Rightarrow> bool \<Rightarrow> H3Parameters \<Rightarrow> ('d, 'e) H3" where
  "h3_new q is_client parameters =
    \<lparr>h3_blocked_streams = QPACK_DECODER_BLOCKED_STREAM_CAPACITY,
     h3_decoder = qp_decoder_new q QPACK_DECODER_TABLE_CAPACITY QPACK_DECODER_BLOCKED_STREAM_CAPACITY,
     h3_encoder = qp_encoder_new q QPACK_ENCODER_TABLE_CAPACITY QPACK_ENCODER_BLOCKED_STREAM_CAPACITY,
     h3_initial_max_data = hp_initial_max_data parameters,
     h3_initial_max_streams_bidi = hp_initial_max_streams_bidi parameters,
     h3_initial_max_streams_uni = hp_initial_max_streams_uni parameters,
     h3_is_client = is_client,
     h3_local_control_stream_id = None,
     h3_local_decoder_stream_id = None,
     h3_local_encoder_stream_id = None,
     h3_max_capsule_size = hp_max_capsule_size parameters,
     h3_max_field_section_size = hp_max_field_section_size parameters,
     h3_max_table_capacity = QPACK_DECODER_TABLE_CAPACITY,
     h3_peer_control_stream_id = None,
     h3_peer_decoder_stream_id = None,
     h3_peer_encoder_stream_id = None,
     h3_peer_max_push_id = None,
     h3_settings_received = False,
     h3_streams = fmempty\<rparr>"

definition put_h3_stream :: "('d, 'e) H3 \<Rightarrow> StreamId \<Rightarrow> H3Stream \<Rightarrow> ('d, 'e) H3" where
  "put_h3_stream self stream_id stream = self\<lparr>h3_streams := fmupd stream_id stream (h3_streams self)\<rparr>"

definition take_h3_stream :: "('d, 'e) H3 \<Rightarrow> StreamId \<Rightarrow> H3Stream \<times> ('d, 'e) H3" where
  "take_h3_stream self stream_id =
    (case fmlookup (h3_streams self) stream_id of None \<Rightarrow> h3_stream_default | Some stream \<Rightarrow> stream,
     self\<lparr>h3_streams := fmdrop stream_id (h3_streams self)\<rparr>)"

definition or_zero :: "u64 option \<Rightarrow> u64" where
  "or_zero v = (case v of None \<Rightarrow> 0 | Some n \<Rightarrow> n)"

subsection \<open>Local streams and settings\<close>

definition bind_connect_stream :: "('d, 'e) H3 \<Rightarrow> StreamId \<Rightarrow> effects \<times> ('d, 'e) H3" where
  "bind_connect_stream self stream_id =
    ([ReceiveQuicData stream_id u64_MAX],
     put_h3_stream self stream_id (h3_stream_default\<lparr>hs_is_connect_stream := True, hs_is_request_stream := True\<rparr>))"

definition local_settings :: "('d, 'e) H3 \<Rightarrow> H3Settings" where
  "local_settings self =
    no_settings\<lparr>set_enable_connect_protocol := Some 1, set_h3_datagram := Some 1,
                set_max_field_section_size := Some (h3_max_field_section_size self),
                set_qpack_blocked_streams := Some (ucast (h3_blocked_streams self)),
                set_qpack_max_table_capacity := Some (ucast (h3_max_table_capacity self)),
                set_wt_enabled := Some 1,
                set_wt_initial_max_data := Some (h3_initial_max_data self),
                set_wt_initial_max_streams_bidi := Some (h3_initial_max_streams_bidi self),
                set_wt_initial_max_streams_uni := Some (h3_initial_max_streams_uni self)\<rparr>"

definition initialize_settings :: "('d, 'e) H3 \<Rightarrow> WebTransportError + bytes" where
  "initialize_settings self =
    (case encode_settings (local_settings self) of
       Inl e \<Rightarrow> Inl e
     | Inr payload \<Rightarrow>
         (case encode_frame_header H3_FRAME_TYPE_SETTINGS (length payload) of
            Inl e \<Rightarrow> Inl e
          | Inr header \<Rightarrow> Inr (header @ payload)))"

definition set_local_stream_ids ::
    "('d, 'e) H3 \<Rightarrow> StreamId \<Rightarrow> StreamId \<Rightarrow> StreamId \<Rightarrow> (WebTransportError + unit) \<times> ('d, 'e) H3" where
  "set_local_stream_ids self control_stream_id encoder_stream_id decoder_stream_id =
    (if \<not> is_unidirectional_stream control_stream_id then
       (Inl (Protocol (Some ERR_H3_ID_ERROR) ''h3_control_stream validate invalid''), self)
     else if \<not> is_unidirectional_stream encoder_stream_id then
       (Inl (Protocol (Some ERR_H3_ID_ERROR) ''qpack_encoder_stream validate invalid''), self)
     else if \<not> is_unidirectional_stream decoder_stream_id then
       (Inl (Protocol (Some ERR_H3_ID_ERROR) ''qpack_decoder_stream validate invalid''), self)
     else if control_stream_id = encoder_stream_id \<or> control_stream_id = decoder_stream_id
          \<or> encoder_stream_id = decoder_stream_id then
       (Inl (Protocol (Some ERR_LIB_INTERNAL_ERROR) ''h3_stream validate invalid''), self)
     else if h3_local_control_stream_id self \<noteq> None \<or> h3_local_encoder_stream_id self \<noteq> None
          \<or> h3_local_decoder_stream_id self \<noteq> None then
       (Inl (Protocol (Some ERR_LIB_INTERNAL_ERROR) ''h3_stream validate failed''), self)
     else
       (Inr (), self\<lparr>h3_local_control_stream_id := Some control_stream_id,
                     h3_local_encoder_stream_id := Some encoder_stream_id,
                     h3_local_decoder_stream_id := Some decoder_stream_id\<rparr>))"

definition initialize_local_streams ::
    "('d, 'e) H3 \<Rightarrow> StreamId \<Rightarrow> StreamId \<Rightarrow> StreamId \<Rightarrow> bytes
      \<Rightarrow> (WebTransportError + bytes \<times> bytes \<times> bytes) \<times> ('d, 'e) H3" where
  "initialize_local_streams self control_stream_id encoder_stream_id decoder_stream_id settings_frame =
    (case set_local_stream_ids self control_stream_id encoder_stream_id decoder_stream_id of
       (Inl e, self) \<Rightarrow> (Inl e, self)
     | (Inr _, self) \<Rightarrow>
         (case put_varint [] H3_STREAM_TYPE_CONTROL of
            Inl e \<Rightarrow> (Inl e, self)
          | Inr control_data \<Rightarrow>
              (case put_varint [] H3_STREAM_TYPE_QPACK_ENCODER of
                 Inl e \<Rightarrow> (Inl e, self)
               | Inr encoder_data \<Rightarrow>
                   (case put_varint [] H3_STREAM_TYPE_QPACK_DECODER of
                      Inl e \<Rightarrow> (Inl e, self)
                    | Inr decoder_data \<Rightarrow> (Inr (control_data @ settings_frame, encoder_data, decoder_data), self)))))"

definition bind_local_streams ::
    "('d, 'e) H3 \<Rightarrow> StreamId \<Rightarrow> StreamId \<Rightarrow> StreamId \<Rightarrow> effects \<times> ('d, 'e) H3" where
  "bind_local_streams self control_stream_id encoder_stream_id decoder_stream_id =
    (case initialize_settings self of
       Inl _ \<Rightarrow> ([CloseQuicConnection ERR_H3_INTERNAL_ERROR (Some ''h3_settings encode failed'')], self)
     | Inr settings_frame \<Rightarrow>
         (case initialize_local_streams self control_stream_id encoder_stream_id decoder_stream_id settings_frame of
            (Inl _, self) \<Rightarrow>
              ([CloseQuicConnection ERR_H3_INTERNAL_ERROR (Some ''h3_stream encode failed'')], self)
          | (Inr (control_data, encoder_data, decoder_data), self) \<Rightarrow>
              ([SendQuicData control_stream_id control_data False, SendQuicData encoder_stream_id encoder_data False,
                SendQuicData decoder_stream_id decoder_data False], self)))"

end
