(* ===== verification/WtH3.thy ===== *)
theory WtH3
  imports H3_State
begin

text \<open>
  The operations of \<open>protocol/h3.rs\<close>.  A method \<open>&mut self -> Result<(Vec<ProtocolEvent>,
  Vec<Effect>), _>\<close> is a function to the result and the new state; a stream passed as
  \<open>&mut H3Stream\<close> is returned as well.  The loop over the frames of a request stream need not end,
  so it and its callers are partial: \<open>None\<close> means that the call does not return.
\<close>

type_synonym h3_output = "WebTransportError + ProtocolEvent list \<times> effects"

subsection \<open>Header blocks\<close>

definition qpack_instructions :: "StreamId option \<Rightarrow> bytes \<Rightarrow> effects" where
  "qpack_instructions local_stream_id instructions =
    (case local_stream_id of
       Some stream_id \<Rightarrow> if instructions \<noteq> [] then [SendQuicData stream_id instructions False] else []
     | None \<Rightarrow> [])"

definition cleanup_stream :: "('d, 'e) Qpack \<Rightarrow> ('d, 'e) H3 \<Rightarrow> StreamId \<Rightarrow> effects \<times> ('d, 'e) H3" where
  "cleanup_stream q self stream_id =
    (let (cancel_instructions, decoder) = qp_abandon_header_block q (h3_decoder self) stream_id
     in (qpack_instructions (h3_local_decoder_stream_id self) cancel_instructions,
         self\<lparr>h3_decoder := decoder, h3_streams := fmdrop stream_id (h3_streams self)\<rparr>))"

definition encode_headers ::
    "('d, 'e) Qpack \<Rightarrow> ('d, 'e) H3 \<Rightarrow> StreamId \<Rightarrow> Headers \<Rightarrow> bool \<Rightarrow> (WebTransportError + effects) \<times> ('d, 'e) H3" where
  "encode_headers q self stream_id headers end_stream =
    (let (outcome, encoder) = qp_encode q (h3_encoder self) stream_id headers;
         self = self\<lparr>h3_encoder := encoder\<rparr>
     in (case outcome of
           Inl _ \<Rightarrow> Inl (Protocol (Some ERR_QPACK_ENCODER_STREAM_ERROR) ''qpack_encoder encode failed'')
         | Inr (frame_payload, encoder_instructions) \<Rightarrow>
             (case encode_frame_header H3_FRAME_TYPE_HEADERS (length frame_payload) of
                Inl e \<Rightarrow> Inl e
              | Inr frame_header \<Rightarrow>
                  Inr (qpack_instructions (h3_local_encoder_stream_id self) encoder_instructions
                       @ [SendQuicData stream_id frame_header False,
                          SendQuicData stream_id frame_payload end_stream])), self))"

definition encode_connect_request ::
    "('d, 'e) Qpack \<Rightarrow> ('d, 'e) H3 \<Rightarrow> StreamId \<Rightarrow> string \<Rightarrow> string \<Rightarrow> Headers
      \<Rightarrow> (WebTransportError + effects) \<times> ('d, 'e) H3" where
  "encode_connect_request q self stream_id authority path headers =
    encode_headers q self stream_id (connect_request_headers authority path headers) False"

definition decompression_error :: WebTransportError where
  "decompression_error = Protocol (Some ERR_QPACK_DECOMPRESSION_FAILED) ''h3_headers decode invalid''"

definition decode_headers ::
    "('d, 'e) Qpack \<Rightarrow> ('d, 'e) H3 \<Rightarrow> StreamId \<Rightarrow> bytes option
      \<Rightarrow> (WebTransportError + HeaderDecodeStatus) \<times> ('d, 'e) H3" where
  "decode_headers q self stream_id frame_data =
    (let (outcome, decoder) =
           (case frame_data of
              Some frame_data \<Rightarrow> qp_decode_header q (h3_decoder self) stream_id frame_data
            | None \<Rightarrow>
                (case qp_resume_header q (h3_decoder self) stream_id of
                   (Inr (instructions, Some headers), decoder) \<Rightarrow> (Inr (instructions, Done headers), decoder)
                 | (Inr (instructions, None), decoder) \<Rightarrow> (Inr (instructions, Blocked), decoder)
                 | (Inl e, decoder) \<Rightarrow> (Inl e, decoder)));
         self = self\<lparr>h3_decoder := decoder\<rparr>
     in (case outcome of
           Inl _ \<Rightarrow> Inl decompression_error
         | Inr (decoder_instructions, Done headers) \<Rightarrow>
             Inr (HeadersDone headers (qpack_instructions (h3_local_decoder_stream_id self) decoder_instructions))
         | Inr (decoder_instructions, Blocked) \<Rightarrow> Inr HeadersBlocked, self))"

subsection \<open>Control frames\<close>

definition control_stream_error :: "ErrorCode \<Rightarrow> WebTransportError" where
  "control_stream_error error_code = Protocol (Some error_code) ''h3_control_stream validate invalid''"

definition handle_max_push_id :: "('d, 'e) H3 \<Rightarrow> bytes \<Rightarrow> h3_output \<times> ('d, 'e) H3" where
  "handle_max_push_id self frame_data =
    (if h3_is_client self then (Inl (Protocol (Some ERR_H3_FRAME_UNEXPECTED) ''h3_max_push_id validate invalid''), self)
     else
       (case parse_push_id frame_data of
          Inl e \<Rightarrow> (Inl e, self)
        | Inr peer_max_push_id \<Rightarrow>
            if (case h3_peer_max_push_id self of None \<Rightarrow> False | Some current \<Rightarrow> current > peer_max_push_id) then
              (Inl (Protocol (Some ERR_H3_ID_ERROR) ''h3_max_push_id validate invalid''), self)
            else (Inr ([], []), self\<lparr>h3_peer_max_push_id := Some peer_max_push_id\<rparr>)))"

definition handle_settings ::
    "('d, 'e) Qpack \<Rightarrow> ('d, 'e) H3 \<Rightarrow> bytes \<Rightarrow> Connection \<Rightarrow> h3_output \<times> ('d, 'e) H3" where
  "handle_settings q self frame_data connection =
    (if h3_settings_received self then
       (Inl (Protocol (Some ERR_H3_FRAME_UNEXPECTED) ''h3_settings validate invalid''), self)
     else
       (case parse_settings frame_data of
          Inl e \<Rightarrow> (Inl e, self)
        | Inr settings \<Rightarrow>
            (case validate_settings settings connection of
               Inl e \<Rightarrow> (Inl e, self)
             | Inr _ \<Rightarrow>
                 (let (outcome, encoder) = qp_apply_settings q (h3_encoder self)
                        (or_zero (set_qpack_max_table_capacity settings)) (or_zero (set_qpack_blocked_streams settings));
                      self = self\<lparr>h3_encoder := encoder\<rparr>
                  in case outcome of
                       Inl _ \<Rightarrow> (Inl (Protocol (Some ERR_H3_INTERNAL_ERROR) ''qpack_encoder validate failed''), self)
                     | Inr encoder_instructions \<Rightarrow>
                         (Inr ([H3SettingsReceived settings],
                               qpack_instructions (h3_local_encoder_stream_id self) encoder_instructions),
                          self\<lparr>h3_settings_received := True\<rparr>)))))"

definition handle_control_frame ::
    "('d, 'e) Qpack \<Rightarrow> ('d, 'e) H3 \<Rightarrow> u64 \<Rightarrow> bytes \<Rightarrow> Connection \<Rightarrow> h3_output \<times> ('d, 'e) H3" where
  "handle_control_frame q self frame_type frame_data connection =
    (if frame_type \<noteq> H3_FRAME_TYPE_SETTINGS \<and> \<not> h3_settings_received self then
       (Inl (Protocol (Some ERR_H3_MISSING_SETTINGS) ''h3_settings validate invalid''), self)
     else if frame_type = H3_FRAME_TYPE_CANCEL_PUSH then
       (case parse_push_id frame_data of
          Inl e \<Rightarrow> (Inl e, self)
        | Inr _ \<Rightarrow> (Inl (Protocol (Some ERR_H3_ID_ERROR) ''h3_cancel_push validate invalid''), self))
     else if frame_type \<in> {H3_FRAME_TYPE_DATA, H3_FRAME_TYPE_HEADERS, H3_FRAME_TYPE_PUSH_PROMISE,
          H3_FRAME_TYPE_RESERVED_CONTINUATION, H3_FRAME_TYPE_RESERVED_PING, H3_FRAME_TYPE_RESERVED_PRIORITY,
          H3_FRAME_TYPE_RESERVED_WINDOW_UPDATE} then
       (Inl (control_stream_error ERR_H3_FRAME_UNEXPECTED), self)
     else if frame_type = H3_FRAME_TYPE_GOAWAY then (Inr ([H3GoawayReceived], []), self)
     else if frame_type = H3_FRAME_TYPE_MAX_PUSH_ID then handle_max_push_id self frame_data
     else if frame_type = H3_FRAME_TYPE_SETTINGS then handle_settings q self frame_data connection
     else if frame_type = H3_FRAME_TYPE_WT_STREAM then (Inl (control_stream_error ERR_H3_FRAME_ERROR), self)
     else (Inr ([], []), self))"

text \<open>The loop over the frames of the peer's control stream.\<close>

function control_frames ::
    "('d, 'e) Qpack \<Rightarrow> ('d, 'e) H3 \<Rightarrow> bytes \<Rightarrow> Connection \<Rightarrow> (h3_output \<times> bytes) \<times> ('d, 'e) H3" where
  "control_frames q self buffer connection =
    (case read_varint buffer of
       Inl _ \<Rightarrow> ((Inr ([], []), buffer), self)
     | Inr (frame_type, rest) \<Rightarrow>
         (case read_varint rest of
            Inl _ \<Rightarrow> ((Inr ([], []), buffer), self)
          | Inr (frame_size, rest) \<Rightarrow>
              (let needed = unat frame_size
               in if frame_type = H3_FRAME_TYPE_DATA then
                    ((Inl (control_stream_error ERR_H3_FRAME_UNEXPECTED), buffer), self)
                  else if frame_type \<noteq> H3_FRAME_TYPE_HEADERS \<and> needed > CONTROL_FRAME_SIZE_LIMIT then
                    ((Inl (Protocol (Some ERR_H3_FRAME_ERROR) ''h3_frame validate exceeded''), buffer), self)
                  else if length rest < needed then ((Inr ([], []), buffer), self)
                  else
                    (case handle_control_frame q self frame_type (take needed rest) connection of
                       (Inl e, self) \<Rightarrow> ((Inl e, drop needed rest), self)
                     | (Inr (events, effects), self) \<Rightarrow>
                         (case control_frames q self (drop needed rest) connection of
                            ((Inl e, buffer), self) \<Rightarrow> ((Inl e, buffer), self)
                          | ((Inr (more_events, more_effects), buffer), self) \<Rightarrow>
                              ((Inr (events @ more_events, effects @ more_effects), buffer), self))))))"
  by pat_completeness auto

termination
  by (relation "measure (\<lambda>(_, _, buffer, _). length buffer)") (auto dest!: read_varint_shrinks)

declare control_frames.simps [simp del]

subsection \<open>Request frames\<close>

text \<open>The capsules that are complete, and the bytes left over.\<close>

function parse_capsules_loop :: "u64 \<Rightarrow> StreamId \<Rightarrow> bytes \<Rightarrow> (WebTransportError + ProtocolEvent list) \<times> bytes" where
  "parse_capsules_loop max_capsule_size stream_id buffer =
    (case read_varint buffer of
       Inl _ \<Rightarrow> (Inr [], buffer)
     | Inr (capsule_type, rest) \<Rightarrow>
         (case read_varint rest of
            Inl _ \<Rightarrow> (Inr [], buffer)
          | Inr (capsule_length, rest) \<Rightarrow>
              if capsule_length > max_capsule_size then
                (Inl (WebTransportError.Stream stream_id (Some ERR_H3_MESSAGE_ERROR) ''wt_capsule validate exceeded''), buffer)
              else
                (let needed = unat capsule_length
                 in if length rest < needed then (Inr [], buffer)
                    else
                      (case parse_capsules_loop max_capsule_size stream_id (drop needed rest) of
                         (Inl e, buffer) \<Rightarrow> (Inl e, buffer)
                       | (Inr events, buffer) \<Rightarrow>
                           (Inr (H3CapsuleReceived stream_id capsule_type (take needed rest) # events), buffer)))))"
  by pat_completeness auto

termination
  by (relation "measure (\<lambda>(_, _, buffer). length buffer)") (auto dest!: read_varint_shrinks)

declare parse_capsules_loop.simps [simp del]

definition parse_capsules ::
    "('d, 'e) H3 \<Rightarrow> StreamId \<Rightarrow> H3Stream \<Rightarrow> (WebTransportError + ProtocolEvent list) \<times> H3Stream" where
  "parse_capsules self stream_id stream =
    (let (outcome, buffer) = parse_capsules_loop (h3_max_capsule_size self) stream_id (hs_capsule_buffer stream)
     in (outcome, stream\<lparr>hs_capsule_buffer := buffer\<rparr>))"

definition handle_data_frame ::
    "('d, 'e) H3 \<Rightarrow> StreamId \<Rightarrow> H3Stream \<Rightarrow> bytes \<Rightarrow> h3_output \<times> H3Stream" where
  "handle_data_frame self stream_id stream payload =
    (if hs_is_connect_stream stream \<and> hs_headers_processed stream then
       (let stream = stream\<lparr>hs_capsule_buffer := hs_capsule_buffer stream @ payload\<rparr>
        in if hs_capsule_buffer stream \<noteq> [] then
             (case parse_capsules self stream_id stream of
                (Inl e, stream) \<Rightarrow> (Inl e, stream)
              | (Inr events, stream) \<Rightarrow> (Inr (events, []), stream))
           else (Inr ([], []), stream))
     else (Inr ([], []), stream))"

definition is_webtransport_upgrade :: "Headers \<Rightarrow> bool" where
  "is_webtransport_upgrade headers \<longleftrightarrow> find_header headers (bstr '':protocol'') = Some WT_UPGRADE_TOKEN"

definition handle_headers_frame ::
    "('d, 'e) Qpack \<Rightarrow> ('d, 'e) H3 \<Rightarrow> StreamId \<Rightarrow> H3Stream \<Rightarrow> bytes option \<Rightarrow> (h3_output \<times> H3Stream) \<times> ('d, 'e) H3" where
  "handle_headers_frame q self stream_id stream frame_data =
    (if hs_headers_processed stream then
       ((Inl (WebTransportError.Stream stream_id (Some ERR_H3_FRAME_UNEXPECTED) ''h3_headers validate failed''), stream), self)
     else
       (case decode_headers q self stream_id frame_data of
          (Inl e, self) \<Rightarrow> ((Inl e, stream), self)
        | (Inr HeadersBlocked, self) \<Rightarrow>
            ((Inr ([], []), stream\<lparr>hs_blocked := True, hs_frame_type := Some H3_FRAME_TYPE_HEADERS\<rparr>), self)
        | (Inr (HeadersDone headers decoder_effects), self) \<Rightarrow>
            (case (if h3_is_client self then validate_response_headers stream_id headers
                   else validate_request_headers stream_id headers) of
               Inl e \<Rightarrow> ((Inl e, stream), self)
             | Inr _ \<Rightarrow>
                 (let stream = (if is_webtransport_upgrade headers then stream\<lparr>hs_is_connect_stream := True\<rparr> else stream);
                      stream = stream\<lparr>hs_blocked := False, hs_headers_processed := True\<rparr>;
                      stream = (if frame_data = None then stream\<lparr>hs_blocked_frame_size := None\<rparr> else stream)
                  in ((Inr ([H3HeadersReceived stream_id headers], decoder_effects), stream), self)))))"

definition handle_request_frame ::
    "('d, 'e) Qpack \<Rightarrow> ('d, 'e) H3 \<Rightarrow> StreamId \<Rightarrow> H3Stream \<Rightarrow> u64 \<Rightarrow> bytes option
      \<Rightarrow> (h3_output \<times> H3Stream) \<times> ('d, 'e) H3" where
  "handle_request_frame q self stream_id stream frame_type frame_data =
    (if frame_type \<in> {H3_FRAME_TYPE_CANCEL_PUSH, H3_FRAME_TYPE_GOAWAY, H3_FRAME_TYPE_MAX_PUSH_ID,
         H3_FRAME_TYPE_RESERVED_CONTINUATION, H3_FRAME_TYPE_RESERVED_PING, H3_FRAME_TYPE_RESERVED_PRIORITY,
         H3_FRAME_TYPE_RESERVED_WINDOW_UPDATE, H3_FRAME_TYPE_SETTINGS} then
       ((Inl (Protocol (Some ERR_H3_FRAME_UNEXPECTED) ''h3_stream validate invalid''), stream), self)
     else if frame_type = H3_FRAME_TYPE_DATA then
       (handle_data_frame self stream_id stream (case frame_data of None \<Rightarrow> [] | Some payload \<Rightarrow> payload), self)
     else if frame_type = H3_FRAME_TYPE_HEADERS then handle_headers_frame q self stream_id stream frame_data
     else if frame_type = H3_FRAME_TYPE_PUSH_PROMISE then
       ((Inl (Protocol (Some ERR_H3_FRAME_UNEXPECTED) ''h3_push_promise validate invalid''), stream), self)
     else if frame_type = H3_FRAME_TYPE_WT_STREAM then
       ((Inl (Protocol (Some ERR_H3_FRAME_ERROR) ''h3_stream validate invalid''), stream), self)
     else ((Inr ([], []), stream), self))"

text \<open>
  The header of the next frame, unless one is being read already; \<open>Inr None\<close> when it is not
  complete.
\<close>

definition next_frame :: "('d, 'e) H3 \<Rightarrow> StreamId \<Rightarrow> H3Stream \<Rightarrow> WebTransportError + H3Stream option" where
  "next_frame self stream_id stream =
    (if hs_frame_type stream \<noteq> None then Inr (Some stream)
     else
       (case read_varint (hs_buffer stream) of
          Inl _ \<Rightarrow> Inr None
        | Inr (frame_type, rest) \<Rightarrow>
            (case read_varint rest of
               Inl _ \<Rightarrow> Inr None
             | Inr (frame_length, rest) \<Rightarrow>
                 (let frame_size = unat frame_length
                  in if frame_type = H3_FRAME_TYPE_HEADERS \<and> frame_size > unat (h3_max_field_section_size self) then
                       Inl (WebTransportError.Stream stream_id (Some ERR_H3_MESSAGE_ERROR) ''h3_field_section validate exceeded'')
                     else if frame_type \<noteq> H3_FRAME_TYPE_DATA \<and> frame_type \<noteq> H3_FRAME_TYPE_HEADERS
                          \<and> frame_size > CONTROL_FRAME_SIZE_LIMIT then
                       Inl (Protocol (Some ERR_H3_FRAME_ERROR) ''h3_frame validate exceeded'')
                     else
                       Inr (Some (stream\<lparr>hs_frame_type := Some frame_type, hs_frame_size := Some frame_size,
                                         hs_blocked_frame_size :=
                                           (if frame_type = H3_FRAME_TYPE_HEADERS then Some frame_size
                                            else hs_blocked_frame_size stream),
                                         hs_buffer := rest\<rparr>))))))"

definition end_frame :: "H3Stream \<Rightarrow> u64 \<Rightarrow> H3Stream" where
  "end_frame stream current_type =
    (let stream = stream\<lparr>hs_frame_type := None, hs_frame_size := None\<rparr>
     in if current_type = H3_FRAME_TYPE_HEADERS \<and> \<not> hs_blocked stream
        then stream\<lparr>hs_blocked_frame_size := None\<rparr> else stream)"

text \<open>One turn of the loop; the flag says whether the loop goes on.\<close>

definition frame_turn ::
    "('d, 'e) Qpack \<Rightarrow> StreamId \<Rightarrow> bool \<Rightarrow> H3Stream \<times> ('d, 'e) H3
      \<Rightarrow> (WebTransportError + (ProtocolEvent list \<times> effects) \<times> bool) \<times> (H3Stream \<times> ('d, 'e) H3)" where
  "frame_turn q stream_id stream_ended = (\<lambda>(stream, self).
    (let leave = (Inr (([], []), False), (stream, self))
     in if hs_blocked stream then leave
        else if hs_buffer stream = [] \<and> \<not> stream_ended then leave
        else
          (case next_frame self stream_id stream of
             Inl e \<Rightarrow> (Inl e, (stream, self))
           | Inr None \<Rightarrow> leave
           | Inr (Some stream) \<Rightarrow>
               (case (hs_frame_type stream, hs_frame_size stream) of
                  (Some current_type, Some current_size) \<Rightarrow>
                    (let chunk_size = min current_size (length (hs_buffer stream))
                     in if current_type \<noteq> H3_FRAME_TYPE_DATA \<and> chunk_size < current_size then
                          (Inr (([], []), False), (stream, self))
                        else
                          (let frame_data = take chunk_size (hs_buffer stream);
                               is_last_chunk = (chunk_size = current_size);
                               stream = stream\<lparr>hs_buffer := drop chunk_size (hs_buffer stream),
                                               hs_frame_size := Some (current_size - chunk_size)\<rparr>
                           in case handle_request_frame q self stream_id stream current_type (Some frame_data) of
                                ((Inl e, stream), self) \<Rightarrow> (Inl e, (stream, self))
                              | ((Inr output, stream), self) \<Rightarrow>
                                  (Inr (output, \<not> (chunk_size = 0 \<and> \<not> stream_ended)),
                                   (if is_last_chunk then end_frame stream current_type else stream, self))))
                | _ \<Rightarrow> (Inr (([], []), False), (stream, self))))))"

partial_function (option) frames_loop ::
    "('d, 'e) Qpack \<Rightarrow> StreamId \<Rightarrow> bool \<Rightarrow> H3Stream \<times> ('d, 'e) H3 \<Rightarrow> (h3_output \<times> (H3Stream \<times> ('d, 'e) H3)) option" where
  [code]: "frames_loop q stream_id stream_ended state =
    (case frame_turn q stream_id stream_ended state of
       (Inl e, state) \<Rightarrow> Some (Inl e, state)
     | (Inr ((events, effects), go_on), state) \<Rightarrow>
         if \<not> go_on then Some (Inr (events, effects), state)
         else
           Option.bind (frames_loop q stream_id stream_ended state) (\<lambda>(output, state).
             Some (case output of
                     Inl e \<Rightarrow> Inl e
                   | Inr (more_events, more_effects) \<Rightarrow> Inr (events @ more_events, effects @ more_effects), state)))"

definition parse_stream_data ::
    "('d, 'e) Qpack \<Rightarrow> ('d, 'e) H3 \<Rightarrow> StreamId \<Rightarrow> H3Stream \<Rightarrow> bool
      \<Rightarrow> (h3_output \<times> (H3Stream \<times> ('d, 'e) H3)) option" where
  "parse_stream_data q self stream_id stream stream_ended =
    (if hs_blocked stream then
       (case decode_headers q self stream_id None of
          (Inr (HeadersDone _ _), self) \<Rightarrow>
            frames_loop q stream_id stream_ended (stream\<lparr>hs_blocked := False\<rparr>, self)
        | (_, self) \<Rightarrow> Some (Inr ([], []), (stream, self)))
     else frames_loop q stream_id stream_ended (stream, self))"

definition await_byte ::
    "('d, 'e) Qpack \<Rightarrow> ('d, 'e) H3 \<Rightarrow> StreamId \<Rightarrow> H3Stream \<Rightarrow> h3_output \<times> ('d, 'e) H3" where
  "await_byte q self stream_id stream =
    (if hs_ended stream then
       (let (effects, self) = cleanup_stream q self stream_id in (Inr ([], effects), self))
     else (Inr ([], [ReceiveQuicData stream_id 1]), put_h3_stream self stream_id stream))"

definition parse_stream_header ::
    "('d, 'e) Qpack \<Rightarrow> ('d, 'e) H3 \<Rightarrow> StreamId \<Rightarrow> H3Stream \<Rightarrow> h3_output \<times> ('d, 'e) H3" where
  "parse_stream_header q self stream_id stream =
    (case read_varint (hs_buffer stream) of
       Inl _ \<Rightarrow> await_byte q self stream_id stream
     | Inr (session_id, _) \<Rightarrow>
         if \<not> is_valid_session_id session_id then
           (Inl (Protocol (Some ERR_H3_ID_ERROR) ''wt_session validate invalid''), self)
         else (Inr ([H3WebTransportStreamOpened session_id stream_id], []), self))"

definition h3_recv_datagram :: "bytes \<Rightarrow> WebTransportError + ProtocolEvent list" where
  "h3_recv_datagram data =
    (case read_varint data of
       Inl _ \<Rightarrow> Inl (Protocol (Some ERR_H3_DATAGRAM_ERROR) ''varint decode invalid'')
     | Inr (quarter_stream_id, rest) \<Rightarrow>
         (let session_id = quarter_stream_id * 4
          in if session_id > QUIC_VARINT_LIMIT then
               Inl (Protocol (Some ERR_H3_DATAGRAM_ERROR) ''wt_datagram validate exceeded'')
             else Inr [H3DatagramReceived session_id rest]))"

definition append_input :: "H3Stream \<Rightarrow> bytes \<Rightarrow> bool \<Rightarrow> H3Stream" where
  "append_input stream data stream_ended =
    stream\<lparr>hs_buffer := hs_buffer stream @ data, hs_ended := hs_ended stream \<or> stream_ended\<rparr>"

text \<open>What follows the classification of a request stream: its frames, and its end.\<close>

definition recv_request_frames ::
    "('d, 'e) Qpack \<Rightarrow> ('d, 'e) H3 \<Rightarrow> StreamId \<Rightarrow> H3Stream \<Rightarrow> (h3_output \<times> ('d, 'e) H3) option" where
  "recv_request_frames q self stream_id stream =
    (let was_headers_processed = hs_headers_processed stream
     in Option.bind (parse_stream_data q self stream_id stream (hs_ended stream)) (\<lambda>(output, stream, self).
          case output of
            Inl e \<Rightarrow> Some (Inl e, self)
          | Inr (events, effects) \<Rightarrow>
              if hs_ended stream \<and> hs_buffer stream = [] then
                (let (cleanup_effects, self) = cleanup_stream q self stream_id
                 in Some (Inr (events @ (if hs_is_connect_stream stream then [H3ConnectStreamClosed stream_id] else []),
                               effects @ cleanup_effects), self))
              else
                (let is_headers_received = (\<not> was_headers_processed \<and> hs_headers_processed stream);
                     more = (if \<not> hs_blocked stream \<and> \<not> hs_ended stream \<and> \<not> is_headers_received
                             then [ReceiveQuicData stream_id u64_MAX] else [])
                 in Some (Inr (events, effects @ more), put_h3_stream self stream_id stream))))"

definition recv_request_data ::
    "('d, 'e) Qpack \<Rightarrow> ('d, 'e) H3 \<Rightarrow> StreamId \<Rightarrow> bytes \<Rightarrow> bool \<Rightarrow> (h3_output \<times> ('d, 'e) H3) option" where
  "recv_request_data q self stream_id data stream_ended =
    (let (stream, self) = take_h3_stream self stream_id;
         stream = append_input stream data stream_ended
     in if \<not> hs_is_request_stream stream \<and> hs_stream_type stream = None then
          (case read_varint (hs_buffer stream) of
             Inl _ \<Rightarrow> Some (await_byte q self stream_id stream)
           | Inr (frame_type, _) \<Rightarrow>
               if frame_type = H3_FRAME_TYPE_WT_STREAM then
                 Some (parse_stream_header q self stream_id
                         (stream\<lparr>hs_buffer := [], hs_stream_type := Some H3_STREAM_TYPE_WEBTRANSPORT\<rparr>))
               else if h3_is_client self then
                 Some (Inl (Protocol (Some ERR_H3_STREAM_CREATION_ERROR) ''h3_stream validate invalid''), self)
               else recv_request_frames q self stream_id (stream\<lparr>hs_is_request_stream := True\<rparr>))
        else if hs_stream_type stream = Some H3_STREAM_TYPE_WEBTRANSPORT then
          Some (parse_stream_header q self stream_id stream)
        else recv_request_frames q self stream_id stream)"

subsection \<open>Unidirectional streams\<close>

definition is_one_of :: "StreamId \<Rightarrow> StreamId option list \<Rightarrow> bool" where
  "is_one_of stream_id critical \<longleftrightarrow> Some stream_id \<in> set critical"

definition h3_recv_stop_sending :: "('d, 'e) H3 \<Rightarrow> StreamId \<Rightarrow> h3_output" where
  "h3_recv_stop_sending self stream_id =
    (if is_one_of stream_id [h3_local_control_stream_id self, h3_local_decoder_stream_id self, h3_local_encoder_stream_id self]
     then Inl (control_stream_error ERR_H3_CLOSED_CRITICAL_STREAM) else Inr ([], []))"

definition h3_recv_stream_reset :: "('d, 'e) Qpack \<Rightarrow> ('d, 'e) H3 \<Rightarrow> StreamId \<Rightarrow> h3_output \<times> ('d, 'e) H3" where
  "h3_recv_stream_reset q self stream_id =
    (if is_one_of stream_id [h3_peer_control_stream_id self, h3_peer_decoder_stream_id self, h3_peer_encoder_stream_id self]
     then (Inl (control_stream_error ERR_H3_CLOSED_CRITICAL_STREAM), self)
     else (let (effects, self) = cleanup_stream q self stream_id in (Inr ([], effects), self)))"

definition register_peer_infrastructure_stream ::
    "('d, 'e) H3 \<Rightarrow> StreamId \<Rightarrow> u64 \<Rightarrow> (WebTransportError + unit) \<times> ('d, 'e) H3" where
  "register_peer_infrastructure_stream self stream_id stream_type =
    (let refused = (Inl (Protocol (Some ERR_H3_STREAM_CREATION_ERROR) ''h3_stream validate failed''), self)
     in if is_one_of stream_id [h3_peer_control_stream_id self, h3_peer_decoder_stream_id self, h3_peer_encoder_stream_id self]
        then refused
        else if stream_type = H3_STREAM_TYPE_CONTROL then
          (if h3_peer_control_stream_id self \<noteq> None then refused
           else (Inr (), self\<lparr>h3_peer_control_stream_id := Some stream_id\<rparr>))
        else if stream_type = H3_STREAM_TYPE_QPACK_DECODER then
          (if h3_peer_decoder_stream_id self \<noteq> None then refused
           else (Inr (), self\<lparr>h3_peer_decoder_stream_id := Some stream_id\<rparr>))
        else if stream_type = H3_STREAM_TYPE_QPACK_ENCODER then
          (if h3_peer_encoder_stream_id self \<noteq> None then refused
           else (Inr (), self\<lparr>h3_peer_encoder_stream_id := Some stream_id\<rparr>))
        else (Inr (), self))"

text \<open>The streams whose header blocks the peer's encoder has unblocked.\<close>

fun resume_unblocked ::
    "('d, 'e) Qpack \<Rightarrow> ('d, 'e) H3 \<Rightarrow> StreamId list \<Rightarrow> (h3_output \<times> ('d, 'e) H3) option" where
  "resume_unblocked q self [] = Some (Inr ([], []), self)"
| "resume_unblocked q self (stream_id # stream_ids) =
    (case fmlookup (h3_streams self) stream_id of
       None \<Rightarrow> resume_unblocked q self stream_ids
     | Some stream \<Rightarrow>
         if \<not> hs_blocked stream then resume_unblocked q self stream_ids
         else
           Option.bind (recv_request_data q (put_h3_stream self stream_id (stream\<lparr>hs_blocked := False\<rparr>)) stream_id []
                          (hs_ended stream)) (\<lambda>(output, self).
             case output of
               Inl e \<Rightarrow> Some (Inl e, self)
             | Inr (events, effects) \<Rightarrow>
                 Option.bind (resume_unblocked q self stream_ids) (\<lambda>(output, self).
                   Some (case output of
                           Inl e \<Rightarrow> Inl e
                         | Inr (more_events, more_effects) \<Rightarrow> Inr (events @ more_events, effects @ more_effects), self))))"

definition keep_reading ::
    "h3_output \<times> ('d, 'e) H3 \<Rightarrow> StreamId \<Rightarrow> H3Stream \<Rightarrow> h3_output \<times> ('d, 'e) H3" where
  "keep_reading outcome stream_id stream =
    (case outcome of
       (Inl e, self) \<Rightarrow> (Inl e, self)
     | (Inr (events, effects), self) \<Rightarrow>
         if hs_ended stream then (Inl (control_stream_error ERR_H3_CLOSED_CRITICAL_STREAM), self)
         else (Inr (events, effects @ [ReceiveQuicData stream_id u64_MAX]), put_h3_stream self stream_id stream))"

definition recv_typed_stream ::
    "('d, 'e) Qpack \<Rightarrow> ('d, 'e) H3 \<Rightarrow> StreamId \<Rightarrow> H3Stream \<Rightarrow> u64 \<Rightarrow> Connection \<Rightarrow> (h3_output \<times> ('d, 'e) H3) option" where
  "recv_typed_stream q self stream_id stream stream_type connection =
    (if stream_type = H3_STREAM_TYPE_CONTROL then
       (if hs_ended stream then Some (Inl (control_stream_error ERR_H3_CLOSED_CRITICAL_STREAM), self)
        else
          (let ((output, buffer), self) = control_frames q self (hs_buffer stream) connection
           in Some (keep_reading (output, self) stream_id (stream\<lparr>hs_buffer := buffer\<rparr>))))
     else if stream_type = H3_STREAM_TYPE_QPACK_DECODER then
       (if hs_buffer stream = [] then Some (keep_reading (Inr ([], []), self) stream_id stream)
        else
          (let (outcome, encoder) = qp_feed_decoder q (h3_encoder self) (hs_buffer stream);
               self = self\<lparr>h3_encoder := encoder\<rparr>;
               output = (case outcome of
                           Inl _ \<Rightarrow> Inl (Protocol (Some ERR_QPACK_DECODER_STREAM_ERROR) ''qpack_decoder_stream decode invalid'')
                         | Inr _ \<Rightarrow> Inr ([], []))
           in Some (keep_reading (output, self) stream_id (stream\<lparr>hs_buffer := []\<rparr>))))
     else if stream_type = H3_STREAM_TYPE_QPACK_ENCODER then
       (if hs_buffer stream = [] then Some (keep_reading (Inr ([], []), self) stream_id stream)
        else
          (let (outcome, decoder) = qp_feed_encoder q (h3_decoder self) (hs_buffer stream);
               self = self\<lparr>h3_decoder := decoder\<rparr>
           in case outcome of
                Inl _ \<Rightarrow>
                  Some (Inl (Protocol (Some ERR_QPACK_ENCODER_STREAM_ERROR) ''qpack_encoder_stream decode invalid''), self)
              | Inr unblocked \<Rightarrow>
                  Option.bind (resume_unblocked q self unblocked) (\<lambda>outcome.
                    Some (keep_reading outcome stream_id (stream\<lparr>hs_buffer := []\<rparr>)))))
     else if stream_type = H3_STREAM_TYPE_WEBTRANSPORT then Some (parse_stream_header q self stream_id stream)
     else Some (keep_reading (Inr ([], []), self) stream_id stream))"

definition recv_unidirectional_stream_data ::
    "('d, 'e) Qpack \<Rightarrow> ('d, 'e) H3 \<Rightarrow> StreamId \<Rightarrow> bytes \<Rightarrow> bool \<Rightarrow> Connection \<Rightarrow> (h3_output \<times> ('d, 'e) H3) option" where
  "recv_unidirectional_stream_data q self stream_id data stream_ended connection =
    (let (stream, self) = take_h3_stream self stream_id;
         stream = append_input stream data stream_ended
     in case hs_stream_type stream of
          Some stream_type \<Rightarrow> recv_typed_stream q self stream_id stream stream_type connection
        | None \<Rightarrow>
            (case read_varint (hs_buffer stream) of
               Inl _ \<Rightarrow> Some (await_byte q self stream_id stream)
             | Inr (stream_type, _) \<Rightarrow>
                 (let stream = stream\<lparr>hs_buffer := [], hs_stream_type := Some stream_type\<rparr>
                  in if stream_type \<in> {H3_STREAM_TYPE_CONTROL, H3_STREAM_TYPE_QPACK_DECODER, H3_STREAM_TYPE_QPACK_ENCODER} then
                       (case register_peer_infrastructure_stream self stream_id stream_type of
                          (Inl e, self) \<Rightarrow> Some (Inl e, self)
                        | (Inr _, self) \<Rightarrow> recv_typed_stream q self stream_id stream stream_type connection)
                     else if stream_type = H3_STREAM_TYPE_PUSH then
                       Some (Inl (Protocol (Some (if h3_is_client self then ERR_H3_ID_ERROR else ERR_H3_STREAM_CREATION_ERROR))
                                    ''h3_push_stream validate invalid''), self)
                     else if stream_type = H3_STREAM_TYPE_WEBTRANSPORT then
                       recv_typed_stream q self stream_id stream stream_type connection
                     else Some (Inr ([], [StopQuicStream stream_id ERR_H3_STREAM_CREATION_ERROR]), self))))"

subsection \<open>Events of the transport\<close>

definition h3_stream_opened :: "('d, 'e) H3 \<Rightarrow> StreamId \<Rightarrow> effects \<times> ('d, 'e) H3" where
  "h3_stream_opened self stream_id =
    ([ReceiveQuicData stream_id 1], put_h3_stream self stream_id h3_stream_default)"

definition or_internal :: "ErrorCode option \<Rightarrow> ErrorCode" where
  "or_internal error_code = (case error_code of None \<Rightarrow> ERR_H3_INTERNAL_ERROR | Some c \<Rightarrow> c)"

definition resolve_output ::
    "('d, 'e) Qpack \<Rightarrow> h3_output \<times> ('d, 'e) H3 \<Rightarrow> (ProtocolEvent list \<times> effects) \<times> ('d, 'e) H3" where
  "resolve_output q outcome =
    (case outcome of
       (Inr output, self) \<Rightarrow> (output, self)
     | (Inl (WebTransportError.Stream stream_id error_code _), self) \<Rightarrow>
         (let (effects, self) = cleanup_stream q self stream_id
          in (([], [ResetQuicStream stream_id (or_internal error_code), StopQuicStream stream_id (or_internal error_code)]
                   @ effects), self))
     | (Inl (Configuration error_code reason), self) \<Rightarrow>
         (([], [CloseQuicConnection (or_internal error_code) (Some reason)]), self)
     | (Inl (Protocol error_code reason), self) \<Rightarrow>
         (([], [CloseQuicConnection (or_internal error_code) (Some reason)]), self)
     | (Inl (Unknown error_code reason), self) \<Rightarrow>
         (([], [CloseQuicConnection (or_internal error_code) (Some reason)]), self))"

definition transport_output ::
    "('d, 'e) Qpack \<Rightarrow> ('d, 'e) H3 \<Rightarrow> ProtocolEvent \<Rightarrow> Connection \<Rightarrow> (h3_output \<times> ('d, 'e) H3) option" where
  "transport_output q self event connection =
    (case event of
       TransportDatagramReceived data \<Rightarrow>
         Some (case h3_recv_datagram data of Inl e \<Rightarrow> Inl e | Inr events \<Rightarrow> Inr (events, []), self)
     | TransportResetStreamReceived stream_id _ \<Rightarrow> Some (h3_recv_stream_reset q self stream_id)
     | TransportStopSendingReceived stream_id _ \<Rightarrow> Some (h3_recv_stop_sending self stream_id, self)
     | TransportStreamDataReceived stream_id data end_stream \<Rightarrow>
         if is_unidirectional_stream stream_id then
           recv_unidirectional_stream_data q self stream_id data end_stream connection
         else recv_request_data q self stream_id data end_stream
     | TransportStreamOpened stream_id \<Rightarrow>
         (let (effects, self) = h3_stream_opened self stream_id in Some (Inr ([], effects), self))
     | _ \<Rightarrow> Some (Inr ([], []), self))"

definition handle_transport_event ::
    "('d, 'e) Qpack \<Rightarrow> ('d, 'e) H3 \<Rightarrow> ProtocolEvent \<Rightarrow> Connection
      \<Rightarrow> ((ProtocolEvent list \<times> effects) \<times> ('d, 'e) H3) option" where
  "handle_transport_event q self event connection = map_option (resolve_output q) (transport_output q self event connection)"

definition resume_request_stream :: "('d, 'e) H3 \<Rightarrow> StreamId \<Rightarrow> effects" where
  "resume_request_stream self stream_id =
    (case fmlookup (h3_streams self) stream_id of
       None \<Rightarrow> []
     | Some stream \<Rightarrow>
         if hs_blocked stream \<or> hs_ended stream then [] else [ReceiveQuicData stream_id u64_MAX])"

definition stop_request_stream :: "('d, 'e) Qpack \<Rightarrow> ('d, 'e) H3 \<Rightarrow> StreamId \<Rightarrow> effects \<times> ('d, 'e) H3" where
  "stop_request_stream q self stream_id =
    (if stream_id |\<notin>| fmdom (h3_streams self) then ([], self)
     else (let (effects, self) = cleanup_stream q self stream_id
           in (StopQuicStream stream_id ERR_WT_SESSION_GONE # effects, self)))"

end
