(* ===== verification/WtEngine.thy ===== *)
theory WtEngine
  imports Connection_Machine WtH3
begin

text \<open>
  The engine (\<open>protocol/engine.rs\<close>): one connection, its HTTP/3 layer and the user events that wait
  for the connection.  An event is processed together with the events it causes; the queue is a
  list, and \<open>None\<close> means that the call does not return.
\<close>

record EngineParameters =
  ep_early_event_ttl :: f64
  ep_initial_max_data :: u64
  ep_initial_max_streams_bidi :: u64
  ep_initial_max_streams_uni :: u64
  ep_max_capsule_size :: u64
  ep_max_connection_pending_events :: u64
  ep_max_field_section_size :: u64
  ep_max_pending_capsules :: u64
  ep_max_pending_datagrams :: u64
  ep_max_pending_streams :: u64
  ep_max_session_pending_events :: u64
  ep_max_sessions :: u64
  ep_max_write_buffer_size :: u64
  ep_session_receive_window :: u64

record ('d, 'e) WebTransportEngine =
  eng_connection :: Connection
  eng_h3 :: "('d, 'e) H3"
  eng_pending_user_events :: "ProtocolEvent list"

definition connection_parameters :: "EngineParameters \<Rightarrow> ConnectionParameters" where
  "connection_parameters parameters =
    \<lparr>cp_early_event_ttl = ep_early_event_ttl parameters,
     cp_initial_max_data = ep_initial_max_data parameters,
     cp_initial_max_streams_bidi = ep_initial_max_streams_bidi parameters,
     cp_initial_max_streams_uni = ep_initial_max_streams_uni parameters,
     cp_max_connection_pending_events = ep_max_connection_pending_events parameters,
     cp_max_pending_capsules = ep_max_pending_capsules parameters,
     cp_max_pending_datagrams = ep_max_pending_datagrams parameters,
     cp_max_pending_streams = ep_max_pending_streams parameters,
     cp_max_session_pending_events = ep_max_session_pending_events parameters,
     cp_max_sessions = ep_max_sessions parameters,
     cp_max_write_buffer_size = ep_max_write_buffer_size parameters,
     cp_session_receive_window = ep_session_receive_window parameters\<rparr>"

definition h3_parameters :: "EngineParameters \<Rightarrow> H3Parameters" where
  "h3_parameters parameters =
    \<lparr>hp_initial_max_data = ep_initial_max_data parameters,
     hp_initial_max_streams_bidi = ep_initial_max_streams_bidi parameters,
     hp_initial_max_streams_uni = ep_initial_max_streams_uni parameters,
     hp_max_capsule_size = ep_max_capsule_size parameters,
     hp_max_field_section_size = ep_max_field_section_size parameters\<rparr>"

definition engine_new ::
    "('d, 'e) Qpack \<Rightarrow> ConnectionHandle \<Rightarrow> RequestId option \<Rightarrow> bool \<Rightarrow> EngineParameters \<Rightarrow> ('d, 'e) WebTransportEngine" where
  "engine_new q handle request_id is_client parameters =
    \<lparr>eng_connection = connection_new handle request_id is_client (connection_parameters parameters),
     eng_h3 = h3_new q is_client (h3_parameters parameters),
     eng_pending_user_events = []\<rparr>"

subsection \<open>Encoding\<close>

fun send_chunks :: "StreamId \<Rightarrow> bytes list \<Rightarrow> bool \<Rightarrow> effects" where
  "send_chunks stream_id [] end_stream = []"
| "send_chunks stream_id (chunk # chunks) end_stream =
    SendQuicData stream_id chunk (end_stream \<and> chunks = []) # send_chunks stream_id chunks end_stream"

definition engine_encode_capsule :: "StreamId \<Rightarrow> u64 \<Rightarrow> bytes \<Rightarrow> bool \<Rightarrow> WebTransportError + effects" where
  "engine_encode_capsule stream_id capsule_type capsule_value end_stream =
    (case encode_capsule stream_id capsule_type capsule_value of
       Inl e \<Rightarrow> Inl e
     | Inr chunks \<Rightarrow> Inr (send_chunks stream_id chunks end_stream))"

definition engine_encode_datagram :: "SessionId \<Rightarrow> bytes \<Rightarrow> WebTransportError + effects" where
  "engine_encode_datagram session_id data =
    (case encode_datagram session_id data of
       Inl e \<Rightarrow> Inl e
     | Inr parts \<Rightarrow>
         Inr [SendQuicDatagram (case parts of [] \<Rightarrow> [] | header # _ \<Rightarrow> header)
                (case parts of _ # payload # _ \<Rightarrow> payload | _ \<Rightarrow> [])])"

definition engine_encode_goaway :: "('d, 'e) WebTransportEngine \<Rightarrow> u64 \<Rightarrow> effects" where
  "engine_encode_goaway self identifier =
    (case h3_local_control_stream_id (eng_h3 self) of
       None \<Rightarrow> []
     | Some stream_id \<Rightarrow>
         (case encode_goaway identifier of
            Inl _ \<Rightarrow> []
          | Inr data \<Rightarrow> [SendQuicData stream_id data False]))"

definition engine_encode_headers ::
    "('d, 'e) Qpack \<Rightarrow> ('d, 'e) WebTransportEngine \<Rightarrow> StreamId \<Rightarrow> Headers \<Rightarrow> bool
      \<Rightarrow> (WebTransportError + effects) \<times> ('d, 'e) WebTransportEngine" where
  "engine_encode_headers q self stream_id headers end_stream =
    (let (outcome, h3) = encode_headers q (eng_h3 self) stream_id headers end_stream
     in (outcome, self\<lparr>eng_h3 := h3\<rparr>))"

definition engine_encode_connect_request ::
    "('d, 'e) Qpack \<Rightarrow> ('d, 'e) WebTransportEngine \<Rightarrow> StreamId \<Rightarrow> string \<Rightarrow> string \<Rightarrow> Headers
      \<Rightarrow> (WebTransportError + effects) \<times> ('d, 'e) WebTransportEngine" where
  "engine_encode_connect_request q self stream_id authority path headers =
    (let (outcome, h3) = encode_connect_request q (eng_h3 self) stream_id authority path headers
     in (outcome, self\<lparr>eng_h3 := h3\<rparr>))"

definition engine_encode_stream_header :: "StreamId \<Rightarrow> SessionId \<Rightarrow> bool \<Rightarrow> effects" where
  "engine_encode_stream_header stream_id session_id is_unidirectional =
    encode_stream_header stream_id session_id is_unidirectional"

subsection \<open>Dispatch\<close>

definition user_create_request :: "ProtocolEvent \<Rightarrow> RequestId option" where
  "user_create_request event =
    (case event of
       UserCreateSession request_id _ _ _ _ \<Rightarrow> Some request_id
     | UserCreateSessionOptimistic request_id _ _ _ _ \<Rightarrow> Some request_id
     | UserCreateStream request_id _ _ \<Rightarrow> Some request_id
     | _ \<Rightarrow> None)"

definition fail_pending_user_events ::
    "('d, 'e) WebTransportEngine \<Rightarrow> ErrorCode option \<Rightarrow> string \<Rightarrow> effects \<times> ('d, 'e) WebTransportEngine" where
  "fail_pending_user_events self error_code reason =
    (concat (map (\<lambda>event.
       case user_create_request event of
         None \<Rightarrow> []
       | Some request_id \<Rightarrow> [NotifyRequestFailed request_id ErrorSource.Connection error_code reason])
       (eng_pending_user_events self)),
     self\<lparr>eng_pending_user_events := []\<rparr>)"

definition on_connection ::
    "ProtocolEvent \<Rightarrow> f64 \<Rightarrow> ('d, 'e) WebTransportEngine \<Rightarrow> effects \<times> ('d, 'e) WebTransportEngine" where
  "on_connection event now self =
    (let (effects, connection) = connection_event event now (eng_connection self)
     in (effects, self\<lparr>eng_connection := connection\<rparr>))"

definition with_h3 ::
    "effects \<times> ('d, 'e) WebTransportEngine \<Rightarrow> (('d, 'e) H3 \<Rightarrow> effects \<times> ('d, 'e) H3) \<Rightarrow> effects \<times> ('d, 'e) WebTransportEngine" where
  "with_h3 outcome f =
    (let (effects, self) = outcome; (more, h3) = f (eng_h3 self)
     in (effects @ more, self\<lparr>eng_h3 := h3\<rparr>))"

definition closing ::
    "effects \<times> ('d, 'e) WebTransportEngine \<Rightarrow> string \<Rightarrow> effects \<times> ('d, 'e) WebTransportEngine" where
  "closing outcome reason =
    (let (effects, self) = outcome;
         (more, self) = fail_pending_user_events self (Some ERR_LIB_CONNECTION_STATE_ERROR) reason
     in (effects @ more, self))"

definition create_or_wait ::
    "ProtocolEvent \<Rightarrow> f64 \<Rightarrow> ('d, 'e) WebTransportEngine \<Rightarrow> effects \<times> ('d, 'e) WebTransportEngine" where
  "create_or_wait event now self =
    (if con_is_client (eng_connection self) \<and> is_pre_connected (eng_connection self)
     then ([], self\<lparr>eng_pending_user_events := eng_pending_user_events self @ [event]\<rparr>)
     else on_connection event now self)"

text \<open>Whether an event goes to the HTTP/3 layer first.\<close>

definition is_h3_input :: "ProtocolEvent \<Rightarrow> Connection \<Rightarrow> bool" where
  "is_h3_input event c =
    (case event of
       TransportDatagramReceived _ \<Rightarrow> True
     | TransportResetStreamReceived stream_id _ \<Rightarrow> \<not> connection_has_stream c stream_id \<and> \<not> is_session_stream c stream_id
     | TransportStopSendingReceived stream_id _ \<Rightarrow> \<not> connection_has_stream c stream_id \<and> \<not> is_session_stream c stream_id
     | TransportStreamDataReceived stream_id _ _ \<Rightarrow> \<not> connection_has_stream c stream_id
     | TransportStreamOpened _ \<Rightarrow> True
     | _ \<Rightarrow> False)"

text \<open>The other events: one branch of the dispatch each.\<close>

definition engine_event ::
    "('d, 'e) Qpack \<Rightarrow> ProtocolEvent \<Rightarrow> f64 \<Rightarrow> ('d, 'e) WebTransportEngine \<Rightarrow> effects \<times> ('d, 'e) WebTransportEngine" where
  "engine_event q event now self =
    (let outcome = on_connection event now self
     in case event of
          H3CapsuleReceived stream_id _ _ \<Rightarrow>
            if is_session_closed (eng_connection (snd outcome)) stream_id
            then with_h3 outcome (\<lambda>h3. stop_request_stream q h3 stream_id) else outcome
        | H3HeadersReceived stream_id _ \<Rightarrow>
            if is_session_stream (eng_connection (snd outcome)) stream_id
            then with_h3 outcome (\<lambda>h3. (resume_request_stream h3 stream_id, h3))
            else with_h3 outcome (\<lambda>h3. cleanup_stream q h3 stream_id)
        | InternalBindH3ConnectStream _ stream_id \<Rightarrow> with_h3 outcome (\<lambda>h3. bind_connect_stream h3 stream_id)
        | InternalBindH3LocalStreams control_stream_id encoder_stream_id decoder_stream_id \<Rightarrow>
            with_h3 ([], self) (\<lambda>h3. bind_local_streams h3 control_stream_id encoder_stream_id decoder_stream_id)
        | InternalCloseConnection \<Rightarrow> closing outcome ''wt_connection close''
        | InternalFailH3LocalStreams \<Rightarrow> (fail_local_streams, self)
        | TransportConnectionTerminated _ _ \<Rightarrow> closing outcome ''wt_connection abort''
        | TransportResetStreamReceived stream_id _ \<Rightarrow>
            if connection_has_stream (eng_connection self) stream_id then outcome
            else
              (let (effects, self) = with_h3 ([], self) (\<lambda>h3. cleanup_stream q h3 stream_id);
                   (more, self) = on_connection event now self
               in (effects @ more, self))
        | UserCloseConnection _ _ _ \<Rightarrow> closing outcome ''wt_connection close''
        | UserCreateSession _ _ _ _ _ \<Rightarrow> create_or_wait event now self
        | UserCreateSessionOptimistic _ _ _ _ _ \<Rightarrow> create_or_wait event now self
        | UserCreateStream _ _ _ \<Rightarrow> create_or_wait event now self
        | _ \<Rightarrow> outcome)"

definition replays_pending :: "ProtocolEvent \<Rightarrow> Connection \<Rightarrow> bool" where
  "replays_pending event c =
    (case event of
       H3SettingsReceived _ \<Rightarrow> con_is_client c \<and> is_connected c
     | TransportHandshakeCompleted \<Rightarrow> con_is_client c \<and> is_connected c
     | _ \<Rightarrow> False)"

text \<open>One turn of the loop: the events that go to the front of the queue, the effects, and the engine.\<close>

definition engine_turn ::
    "('d, 'e) Qpack \<Rightarrow> ProtocolEvent \<Rightarrow> f64 \<Rightarrow> ('d, 'e) WebTransportEngine
      \<Rightarrow> (ProtocolEvent list \<times> effects \<times> ('d, 'e) WebTransportEngine) option" where
  "engine_turn q event now self =
    (if is_h3_input event (eng_connection self) then
       Option.bind (handle_transport_event q (eng_h3 self) event (eng_connection self)) (\<lambda>((events, effects), h3).
         Some (events, effects, self\<lparr>eng_h3 := h3\<rparr>))
     else
       (let (effects, self) = engine_event q event now self
        in Some (if replays_pending event (eng_connection self)
                 then (eng_pending_user_events self, effects, self\<lparr>eng_pending_user_events := []\<rparr>)
                 else ([], effects, self))))"

partial_function (option) engine_loop ::
    "('d, 'e) Qpack \<Rightarrow> f64 \<Rightarrow> ProtocolEvent list \<times> ('d, 'e) WebTransportEngine
      \<Rightarrow> (effects \<times> ('d, 'e) WebTransportEngine) option" where
  [code]: "engine_loop q now state =
    (case state of
       ([], self) \<Rightarrow> Some ([], self)
     | (event # queue, self) \<Rightarrow>
         Option.bind (engine_turn q event now self) (\<lambda>(events, effects, self).
           Option.bind (engine_loop q now (events @ queue, self)) (\<lambda>(more, self). Some (effects @ more, self))))"

definition handle_event ::
    "('d, 'e) Qpack \<Rightarrow> ProtocolEvent \<Rightarrow> f64 \<Rightarrow> ('d, 'e) WebTransportEngine
      \<Rightarrow> (effects \<times> ('d, 'e) WebTransportEngine) option" where
  "handle_event q event now self = engine_loop q now ([event], self)"

end
