(* ===== verification/H3_Frames.thy ===== *)
theory H3_Frames
  imports WtH3
begin

text \<open>
  The loop over the frames of a request stream: when it returns, and when it does not.  Frames and
  capsules start with two integers; \<open>read_pair\<close> reads them together, and the parsing loops are
  restated with it.
\<close>

definition read_pair :: "bytes \<Rightarrow> (u64 \<times> u64 \<times> bytes) option" where
  "read_pair b =
    (case read_varint b of
       Inl _ \<Rightarrow> None
     | Inr (t, r) \<Rightarrow> (case read_varint r of Inl _ \<Rightarrow> None | Inr (n, r) \<Rightarrow> Some (t, n, r)))"

lemma read_pair_shrinks: "read_pair b = Some (t, n, r) \<Longrightarrow> length r < length b"
  by (auto simp: read_pair_def split: sum.splits dest!: read_varint_shrinks)

lemma read_pair_append: "read_pair b = Some (t, n, r) \<Longrightarrow> read_pair (b @ c) = Some (t, n, r @ c)"
  by (auto simp: read_pair_def read_varint_append split: sum.splits)

lemma read_pair_written:
  assumes "put_varints [] t n = Inr code"
  shows "read_pair (code @ rest) = Some (t, n, rest)"
proof -
  obtain c where c: "write_varint [] t = Inr c" "write_varint c n = Inr code"
    using assms by (auto simp: put_varints_def put_varint_def split: sum.splits)
  then obtain d where "write_varint [] n = Inr d" "code = c @ d"
    using write_varint_buffer [of c n] by (auto split: sum.splits)
  with c show ?thesis by (simp add: read_pair_def read_write_varint)
qed

subsection \<open>Capsules\<close>

lemma parse_capsules_eq:
  "parse_capsules_loop m sid b =
    (case read_pair b of
       None \<Rightarrow> (Inr [], b)
     | Some (t, n, r) \<Rightarrow>
         if n > m then (Inl (WebTransportError.Stream sid (Some ERR_H3_MESSAGE_ERROR) ''wt_capsule validate exceeded''), b)
         else if length r < unat n then (Inr [], b)
         else
           (case parse_capsules_loop m sid (drop (unat n) r) of
              (Inl e, b) \<Rightarrow> (Inl e, b)
            | (Inr events, b) \<Rightarrow> (Inr (H3CapsuleReceived sid t (take (unat n) r) # events), b)))"
  by (subst parse_capsules_loop.simps) (auto simp: read_pair_def Let_def split: sum.splits)

lemma parse_capsules_append:
  assumes "parse_capsules_loop m sid b = (Inr events, r)"
  shows "parse_capsules_loop m sid (b @ c) =
    (case parse_capsules_loop m sid (r @ c) of
       (Inl e, r) \<Rightarrow> (Inl e, r)
     | (Inr further, r) \<Rightarrow> (Inr (events @ further), r))"
  using assms
proof (induction "length b" arbitrary: b events rule: less_induct)
  case less
  consider (stop) "events = []" "r = b" | (go) t n s evs where "read_pair b = Some (t, n, s)" "\<not> n > m" "\<not> length s < unat n"
      "parse_capsules_loop m sid (drop (unat n) s) = (Inr evs, r)" "events = H3CapsuleReceived sid t (take (unat n) s) # evs"
    using less.prems by (subst (asm) parse_capsules_eq) (auto split: option.splits if_splits sum.splits prod.splits)
  then show ?case
  proof cases
    case stop
    then show ?thesis by (auto split: sum.splits prod.splits)
  next
    case go
    have "length (drop (unat n) s) < length b"
      using read_pair_shrinks [OF go(1)] by simp
    from less.hyps [OF this go(4)] go show ?thesis
      by (subst parse_capsules_eq) (auto simp: read_pair_append [OF go(1)] split: sum.splits prod.splits)
  qed
qed

lemma parse_capsules_again:
  assumes "parse_capsules_loop m sid b = (Inr events, r)"
  shows "parse_capsules_loop m sid r = (Inr [], r)"
  using parse_capsules_append [OF assms, of "[]"] assms by (auto split: sum.splits prod.splits)

lemma handle_data_frame_again:
  assumes "handle_data_frame self sid s d = (Inr output, t)"
  shows "handle_data_frame self sid t [] = (Inr ([], []), t)"
proof (cases "hs_is_connect_stream s \<and> hs_headers_processed s")
  case True
  obtain out r where p: "parse_capsules_loop (h3_max_capsule_size self) sid (hs_capsule_buffer s @ d) = (out, r)"
    by fastforce
  show ?thesis
  proof (cases out)
    case (Inr evs)
    with parse_capsules_again [of _ _ _ evs r] p assms True show ?thesis
      by (auto simp: handle_data_frame_def parse_capsules_def Let_def split: if_splits)
  qed (use assms True p in \<open>auto simp: handle_data_frame_def parse_capsules_def Let_def split: if_splits\<close>)
qed (use assms in \<open>auto simp: handle_data_frame_def\<close>)

subsection \<open>The loop returns\<close>

lemma next_frame_eq:
  "next_frame self sid s =
    (if hs_frame_type s \<noteq> None then Inr (Some s)
     else
       (case read_pair (hs_buffer s) of
          None \<Rightarrow> Inr None
        | Some (t, n, r) \<Rightarrow>
            if t = H3_FRAME_TYPE_HEADERS \<and> unat n > unat (h3_max_field_section_size self) then
              Inl (WebTransportError.Stream sid (Some ERR_H3_MESSAGE_ERROR) ''h3_field_section validate exceeded'')
            else if t \<noteq> H3_FRAME_TYPE_DATA \<and> t \<noteq> H3_FRAME_TYPE_HEADERS \<and> unat n > CONTROL_FRAME_SIZE_LIMIT then
              Inl (Protocol (Some ERR_H3_FRAME_ERROR) ''h3_frame validate exceeded'')
            else
              Inr (Some (s\<lparr>hs_frame_type := Some t, hs_frame_size := Some (unat n),
                           hs_blocked_frame_size := (if t = H3_FRAME_TYPE_HEADERS then Some (unat n) else hs_blocked_frame_size s),
                           hs_buffer := r\<rparr>))))"
  by (auto simp: next_frame_def read_pair_def Let_def split: sum.splits)

text \<open>The frame that is being read, and whether the input ends inside a DATA frame.\<close>

definition frame_at :: "H3Stream \<Rightarrow> (u64 \<times> nat) option" where
  "frame_at s = (case (hs_frame_type s, hs_frame_size s) of (Some t, Some n) \<Rightarrow> Some (t, n) | _ \<Rightarrow> None)"

function ends_in_data :: "(u64 \<times> nat) option \<Rightarrow> bytes \<Rightarrow> bool" where
  "ends_in_data (Some (t, n)) b = (if length b < n then t = H3_FRAME_TYPE_DATA else ends_in_data None (drop n b))"
| "ends_in_data None b = (case read_pair b of None \<Rightarrow> False | Some (t, n, r) \<Rightarrow> ends_in_data (Some (t, unat n)) r)"
  by pat_completeness auto

termination
  by (relation "measure (\<lambda>(p, b). 2 * length b + (if p = None then 0 else 1))") (auto dest!: read_pair_shrinks)

definition turns_left :: "H3Stream \<Rightarrow> nat" where
  "turns_left s = 2 * length (hs_buffer s) + (if hs_frame_type s = None then 0 else 1)"

lemma handle_data_frame_keeps:
  assumes "handle_data_frame self sid s d = (out, t)"
  shows "hs_buffer t = hs_buffer s" "hs_frame_size t = hs_frame_size s" "hs_frame_type t = hs_frame_type s"
    "hs_blocked t = hs_blocked s" "hs_ended t = hs_ended s"
  using assms by (auto simp: handle_data_frame_def parse_capsules_def Let_def split: if_splits sum.splits prod.splits)

lemma handle_headers_frame_keeps:
  assumes "handle_headers_frame q self sid s d = ((out, t), self')"
  shows "hs_buffer t = hs_buffer s"
  using assms
  by (auto simp: handle_headers_frame_def Let_def split: if_splits sum.splits prod.splits HeaderDecodeStatus.splits)

lemma handle_request_frame_data:
  "handle_request_frame q self sid s H3_FRAME_TYPE_DATA (Some d) = (handle_data_frame self sid s d, self)"
  by (simp add: handle_request_frame_def const_defs)

lemma handle_request_frame_keeps:
  assumes "handle_request_frame q self sid s t d = ((out, s'), self')"
  shows "hs_buffer s' = hs_buffer s"
  using assms handle_headers_frame_keeps handle_data_frame_keeps(1)
  by (auto simp: handle_request_frame_def split: if_splits)

lemma frame_turn_goes_on:
  assumes "frame_turn q sid ended (s, h) = (Inr (out, True), (s', h'))"
  obtains u t n k s2 where "next_frame h sid s = Inr (Some u)" "hs_frame_type u = Some t" "hs_frame_size u = Some n"
    "k = min n (length (hs_buffer u))" "t = H3_FRAME_TYPE_DATA \<or> k = n" "k \<noteq> 0 \<or> ended"
    "handle_request_frame q h sid (u\<lparr>hs_buffer := drop k (hs_buffer u), hs_frame_size := Some (n - k)\<rparr>) t
       (Some (take k (hs_buffer u))) = ((Inr out, s2), h')"
    "s' = (if k = n then end_frame s2 t else s2)"
proof -
  obtain u where u: "next_frame h sid s = Inr (Some u)"
    using assms by (auto simp: frame_turn_def Let_def split: if_splits sum.splits option.splits)
  obtain t n where tn: "hs_frame_type u = Some t" "hs_frame_size u = Some n"
    using assms u by (auto simp: frame_turn_def Let_def split: if_splits option.splits)
  let ?k = "min n (length (hs_buffer u))"
  obtain r s2 h2 where step: "handle_request_frame q h sid
      (u\<lparr>hs_buffer := drop ?k (hs_buffer u), hs_frame_size := Some (n - ?k)\<rparr>) t (Some (take ?k (hs_buffer u))) = ((r, s2), h2)"
    by (metis prod.exhaust)
  have r: "r = Inr out \<and> h2 = h' \<and> s' = (if ?k = n then end_frame s2 t else s2) \<and> (t = H3_FRAME_TYPE_DATA \<or> ?k = n) \<and> (?k \<noteq> 0 \<or> ended)"
    using assms u tn step by (cases r) (auto simp: frame_turn_def Let_def split: if_splits)
  show ?thesis by (rule that [OF u tn refl]) (use r step in auto)
qed

lemma end_frame_simps [simp]:
  "hs_buffer (end_frame s t) = hs_buffer s" "hs_frame_type (end_frame s t) = None" "frame_at (end_frame s t) = None"
  by (simp_all add: end_frame_def frame_at_def Let_def)

lemma next_frame_facts:
  assumes "next_frame h sid s = Inr (Some u)" "hs_frame_type u = Some t" "hs_frame_size u = Some n"
  shows "turns_left u \<le> turns_left s" "ends_in_data (frame_at s) (hs_buffer s) = ends_in_data (Some (t, n)) (hs_buffer u)"
proof -
  have "turns_left u \<le> turns_left s \<and> ends_in_data (frame_at s) (hs_buffer s) = ends_in_data (Some (t, n)) (hs_buffer u)"
  proof (cases "hs_frame_type s")
    case None
    then obtain n' r where "read_pair (hs_buffer s) = Some (t, n', r)" "n = unat n'" "hs_buffer u = r"
      using assms by (auto simp: next_frame_eq split: if_splits option.splits)
    with None assms(2) read_pair_shrinks [of "hs_buffer s" t n' r] show ?thesis
      by (simp add: turns_left_def frame_at_def)
  next
    case (Some x)
    with assms have "u = s" by (simp add: next_frame_def)
    with assms show ?thesis by (simp add: frame_at_def)
  qed
  then show "turns_left u \<le> turns_left s" "ends_in_data (frame_at s) (hs_buffer s) = ends_in_data (Some (t, n)) (hs_buffer u)"
    by blast+
qed

lemma turn_progress:
  assumes turn: "frame_turn q sid ended (s, h) = (Inr (out, True), (s', h'))"
    and whole: "ended \<longrightarrow> \<not> ends_in_data (frame_at s) (hs_buffer s)"
  shows "turns_left s' < turns_left s \<and> (ended \<longrightarrow> \<not> ends_in_data (frame_at s') (hs_buffer s'))"
proof -
  obtain u t n k s2 where u: "next_frame h sid s = Inr (Some u)" "hs_frame_type u = Some t" "hs_frame_size u = Some n"
      "k = min n (length (hs_buffer u))" "t = H3_FRAME_TYPE_DATA \<or> k = n" "k \<noteq> 0 \<or> ended"
      "handle_request_frame q h sid (u\<lparr>hs_buffer := drop k (hs_buffer u), hs_frame_size := Some (n - k)\<rparr>) t
         (Some (take k (hs_buffer u))) = ((Inr out, s2), h')"
      "s' = (if k = n then end_frame s2 t else s2)"
    by (rule frame_turn_goes_on [OF turn])
  note fresh = next_frame_facts [OF u(1-3)]
  have buffer: "hs_buffer s2 = drop k (hs_buffer u)"
    using handle_request_frame_keeps [OF u(7)] by simp
  have left: "turns_left u = 2 * length (hs_buffer u) + 1" by (simp add: turns_left_def u(2))
  show ?thesis
  proof (cases "k = n")
    case True
    with u(4) have "\<not> length (hs_buffer u) < n" by simp
    then have "ended \<longrightarrow> \<not> ends_in_data None (drop n (hs_buffer u))" using whole fresh(2) by simp
    moreover have "turns_left s' = 2 * (length (hs_buffer u) - k)" using True u(8) buffer by (simp add: turns_left_def)
    ultimately show ?thesis using left fresh(1) True u(8) buffer by simp
  next
    case False
    then have data: "length (hs_buffer u) < n" "t = H3_FRAME_TYPE_DATA" "k = length (hs_buffer u)" using u(4,5) by auto
    then have "\<not> ended" using whole fresh(2) by simp
    moreover have "turns_left s' \<le> 1" using False u(8) buffer data by (simp add: turns_left_def)
    moreover have "0 < length (hs_buffer u)" using u(6) data calculation by simp
    ultimately show ?thesis using left fresh(1) by linarith
  qed
qed

lemma frames_loop_stops:
  assumes "frame_turn q sid ended state = (r, state')" "\<nexists>out. r = Inr (out, True)"
  shows "\<exists>x. frames_loop q sid ended state = Some x"
proof (cases r)
  case (Inl e)
  with assms show ?thesis by (subst frames_loop.simps) simp
next
  case (Inr out)
  with assms obtain events effects where "out = ((events, effects), False)" by (cases out) auto
  with assms Inr show ?thesis by (subst frames_loop.simps) simp
qed

lemma frames_loop_continues:
  assumes "frame_turn q sid ended state = (Inr ((events, effects), True), state')"
  shows "frames_loop q sid ended state =
    Option.bind (frames_loop q sid ended state') (\<lambda>(output, state).
      Some (case output of
              Inl e \<Rightarrow> Inl e
            | Inr (events', effects') \<Rightarrow> Inr (events @ events', effects @ effects'), state))"
  using assms by (subst frames_loop.simps) simp

lemma frames_loop_returns:
  assumes "ended \<longrightarrow> \<not> ends_in_data (frame_at (fst state)) (hs_buffer (fst state))"
  shows "frames_loop q sid ended state \<noteq> None"
  using assms
proof (induction "turns_left (fst state)" arbitrary: state rule: less_induct)
  case less
  obtain s h where state: "state = (s, h)" by fastforce
  obtain r s' h' where turn: "frame_turn q sid ended (s, h) = (r, (s', h'))" by (metis prod.exhaust)
  show ?case
  proof (cases "\<exists>out. r = Inr (out, True)")
    case True
    then obtain events effects where r: "r = Inr ((events, effects), True)" by auto
    have go: "frame_turn q sid ended (s, h) = (Inr ((events, effects), True), (s', h'))"
      using turn r by simp
    have "frames_loop q sid ended (s', h') \<noteq> None"
      by (rule less.hyps) (use turn_progress [OF go] less.prems state in simp_all)
    then show ?thesis unfolding state frames_loop_continues [OF go] by auto
  next
    case False
    from frames_loop_stops [OF turn False] show ?thesis unfolding state by auto
  qed
qed

subsection \<open>The loop does not return\<close>

text \<open>Inside a DATA frame with nothing left to read, a turn of the loop after the end of the stream
  changes nothing and goes on.\<close>

definition stuck :: "StreamId \<Rightarrow> H3Stream \<times> ('d, 'e) H3 \<Rightarrow> bool" where
  "stuck sid state \<longleftrightarrow> (\<exists>n. hs_frame_type (fst state) = Some H3_FRAME_TYPE_DATA \<and> hs_frame_size (fst state) = Some n \<and> 0 < n
    \<and> hs_buffer (fst state) = [] \<and> \<not> hs_blocked (fst state)
    \<and> handle_data_frame (snd state) sid (fst state) [] = (Inr ([], []), fst state))"

lemma stuck_turn:
  assumes "stuck sid state"
  shows "frame_turn q sid True state = (Inr (([], []), True), state)"
proof -
  obtain s h n where s: "state = (s, h)" "hs_frame_type s = Some H3_FRAME_TYPE_DATA" "hs_frame_size s = Some n" "0 < n"
      "hs_buffer s = []" "\<not> hs_blocked s" "handle_data_frame h sid s [] = (Inr ([], []), s)"
    using assms by (cases state) (auto simp: stuck_def)
  have "s\<lparr>hs_buffer := [], hs_frame_size := Some n\<rparr> = s"
    using s(3,5) by (cases s) simp
  then have "handle_data_frame h sid (s\<lparr>hs_buffer := [], hs_frame_size := Some n\<rparr>) [] = (Inr ([], []), s)"
    by (simp only: s(7))
  with s show ?thesis
    by (simp add: frame_turn_def next_frame_def Let_def handle_request_frame_data)
qed

lemma stuck_diverges:
  assumes "stuck sid state"
  shows "frames_loop q sid True state = None"
proof -
  have "ended \<longrightarrow> \<not> stuck sid st" if "frames_loop q sid ended st = Some y" for ended st y
    by (rule frames_loop.raw_induct [OF _ that, where P = "\<lambda>q sid ended st y. ended \<longrightarrow> \<not> stuck sid st"])
       (auto simp: stuck_turn split: prod.splits bind_splits)
  with assms show ?thesis by (cases "frames_loop q sid True state") auto
qed

lemma cut_data_diverges:
  assumes "hs_frame_type s = Some H3_FRAME_TYPE_DATA" "hs_frame_size s = Some n" "length (hs_buffer s) < n" "\<not> hs_blocked s"
    and "handle_data_frame h sid (s\<lparr>hs_buffer := [], hs_frame_size := Some (n - length (hs_buffer s))\<rparr>) (hs_buffer s)
      = (Inr (events, effects), t)"
  shows "frames_loop q sid True (s, h) = None"
proof -
  have "frame_turn q sid True (s, h) = (Inr ((events, effects), True), (t, h))"
    using assms by (simp add: frame_turn_def next_frame_def Let_def handle_request_frame_data min_def)
  moreover have "stuck sid (t, h)"
    using assms handle_data_frame_keeps [OF assms(5)] handle_data_frame_again [OF assms(5)]
    by (simp add: stuck_def)
  ultimately show ?thesis
    using stuck_diverges [of sid "(t, h)" q] by (simp add: frames_loop_continues)
qed

lemma request_cut_diverges:
  assumes server: "\<not> h3_is_client h" and fresh: "fst (take_h3_stream h sid) = h3_stream_default"
    and frame: "encode_frame_header H3_FRAME_TYPE_DATA n = Inr header" and n: "n < 2 ^ 62" and cut: "length payload < n"
  shows "recv_request_data q h sid (header @ payload) True = None"
proof -
  have size: "unat (of_nat n :: u64) = n" using n by (simp add: unat_of_nat)
  have pair: "read_pair (header @ payload) = Some (H3_FRAME_TYPE_DATA, of_nat n, payload)"
    using frame read_pair_written by (simp add: encode_frame_header_def)
  then obtain r where first: "read_varint (header @ payload) = Inr (H3_FRAME_TYPE_DATA, r)"
    by (auto simp: read_pair_def split: sum.splits)
  let ?h = "snd (take_h3_stream h sid)"
  let ?s = "(append_input h3_stream_default (header @ payload) True)\<lparr>hs_is_request_stream := True\<rparr>"
  let ?u = "?s\<lparr>hs_frame_type := Some H3_FRAME_TYPE_DATA, hs_frame_size := Some n, hs_buffer := payload\<rparr>"
  have "frames_loop q sid True (?u, ?h) = None"
    by (rule cut_data_diverges [where n = n and events = "[]" and effects = "[]"])
       (use cut in \<open>auto simp: append_input_def h3_stream_default_def handle_data_frame_def\<close>)
  moreover have "frame_turn q sid True (?s, ?h) = frame_turn q sid True (?u, ?h)"
    using pair size
    by (simp add: frame_turn_def next_frame_eq append_input_def h3_stream_default_def const_defs cong: if_cong)
  ultimately have "frames_loop q sid True (?s, ?h) = None"
    by (subst frames_loop.simps) (simp add: frames_loop.simps [of q sid True "(?u, ?h)"])
  then show ?thesis
    using first fresh server
    by (simp add: recv_request_data_def recv_request_frames_def parse_stream_data_def Let_def case_prod_beta
        append_input_def h3_stream_default_def const_defs take_h3_stream_def)
qed

subsection \<open>Streams that never block\<close>

text \<open>With the table capacity and the number of blocked streams zero, the decoder never reports a
  header block as blocked.\<close>

definition never_blocks :: "('d, 'e) Qpack \<Rightarrow> bool" where
  "never_blocks q \<longleftrightarrow> (\<forall>d i b instructions d'. qp_decode_header q d i b \<noteq> (Inr (instructions, Blocked), d'))"

definition unblocked :: "('d, 'e) H3 \<Rightarrow> bool" where
  "unblocked h \<longleftrightarrow> (\<forall>i s. fmlookup (h3_streams h) i = Some s \<longrightarrow> \<not> hs_blocked s)"

lemma unblockedI [intro]: "(\<And>i s. fmlookup (h3_streams h) i = Some s \<Longrightarrow> \<not> hs_blocked s) \<Longrightarrow> unblocked h"
  by (simp add: unblocked_def)

lemma unblocked_cong: "h3_streams g = h3_streams h \<Longrightarrow> unblocked g = unblocked h"
  by (simp add: unblocked_def)

lemma unblocked_put [simp]: "unblocked h \<Longrightarrow> unblocked (put_h3_stream h i s) = (\<not> hs_blocked s)"
  by (auto simp: unblocked_def put_h3_stream_def split: if_splits)

lemma unblocked_take:
  assumes "unblocked h"
  shows "\<not> hs_blocked (fst (take_h3_stream h i))" "unblocked (snd (take_h3_stream h i))"
  using assms by (auto simp: unblocked_def take_h3_stream_def h3_stream_default_def split: option.splits)

lemma cleanup_streams [simp]: "h3_streams (snd (cleanup_stream q h i)) = fmdrop i (h3_streams h)"
  by (simp add: cleanup_stream_def case_prod_beta)

lemma unblocked_cleanup [simp]: "unblocked h \<Longrightarrow> unblocked (snd (cleanup_stream q h i))"
  by (auto simp: unblocked_def)

text \<open>What the frames of a request stream leave alone.\<close>

abbreviation h3_kept :: "('d, 'e) H3 \<Rightarrow> ('d, 'e) H3 \<Rightarrow> bool" where
  "h3_kept h h' \<equiv> h3_streams h' = h3_streams h \<and> h3_settings_received h' = h3_settings_received h"

lemma decode_headers_keeps:
  assumes "decode_headers q h sid d = (out, h')"
  shows "h3_kept h h'"
  using assms by (auto simp: decode_headers_def Let_def split: prod.splits)

lemma decode_headers_done:
  assumes "never_blocks q" "decode_headers q h sid (Some d) = (Inr out, h')"
  shows "out \<noteq> HeadersBlocked"
  using assms by (auto simp: decode_headers_def never_blocks_def Let_def split: prod.splits sum.splits DecodeStatus.splits)

lemma handle_headers_frame_unblocked:
  assumes "never_blocks q" "handle_headers_frame q h sid s (Some d) = ((Inr out, t), h')" "\<not> hs_blocked s"
  shows "\<not> hs_blocked t" "h3_kept h h'"
  using assms decode_headers_done [OF assms(1), of h sid d] decode_headers_keeps [of q h sid "Some d"]
  by (auto simp: handle_headers_frame_def Let_def split: if_splits sum.splits prod.splits HeaderDecodeStatus.splits)

lemma handle_headers_frame_streams:
  assumes "handle_headers_frame q h sid s d = (out, h')"
  shows "h3_kept h h'"
  using assms decode_headers_keeps [of q h sid d]
  by (auto simp: handle_headers_frame_def Let_def split: if_splits sum.splits prod.splits HeaderDecodeStatus.splits)

lemma handle_request_frame_streams:
  assumes "handle_request_frame q h sid s t d = (out, h')"
  shows "h3_kept h h'"
  using assms by (auto simp: handle_request_frame_def split: if_splits dest: handle_headers_frame_streams)

lemma handle_request_frame_unblocked:
  assumes "never_blocks q" "handle_request_frame q h sid s t (Some d) = ((Inr out, s'), h')" "\<not> hs_blocked s"
  shows "\<not> hs_blocked s'"
  using assms
  by (auto simp: handle_request_frame_def split: if_splits
      dest: handle_data_frame_keeps(4) handle_headers_frame_unblocked(1) [OF assms(1)])

lemma next_frame_keeps:
  assumes "next_frame h sid s = Inr (Some u)"
  shows "hs_blocked u = hs_blocked s"
  using assms by (auto simp: next_frame_eq split: if_splits option.splits)

lemma end_frame_blocked [simp]: "hs_blocked (end_frame s t) = hs_blocked s"
  by (simp add: end_frame_def Let_def)

lemma frame_turn_keeps:
  assumes "frame_turn q sid ended (s, h) = (r, (s', h'))"
  shows "h3_kept h h'" "never_blocks q \<Longrightarrow> \<not> hs_blocked s \<Longrightarrow> r = Inr x \<Longrightarrow> \<not> hs_blocked s'"
proof -
  have "h3_kept h h' \<and> (never_blocks q \<longrightarrow> \<not> hs_blocked s \<longrightarrow> r = Inr x \<longrightarrow> \<not> hs_blocked s')"
  proof (cases "\<exists>u t n. \<not> hs_blocked s \<and> next_frame h sid s = Inr (Some u) \<and> hs_frame_type u = Some t \<and> hs_frame_size u = Some n")
    case True
    then obtain u t n where u: "\<not> hs_blocked s" "next_frame h sid s = Inr (Some u)" "hs_frame_type u = Some t" "hs_frame_size u = Some n"
      by blast
    let ?k = "min n (length (hs_buffer u))"
    let ?v = "u\<lparr>hs_buffer := drop ?k (hs_buffer u), hs_frame_size := Some (n - ?k)\<rparr>"
    obtain o' s2 h2 where step: "handle_request_frame q h sid ?v t (Some (take ?k (hs_buffer u))) = ((o', s2), h2)"
      by (metis prod.exhaust)
    have b: "\<not> hs_blocked ?v" using next_frame_keeps [OF u(2)] u(1) by simp
    have "never_blocks q \<Longrightarrow> o' = Inr y \<Longrightarrow> \<not> hs_blocked s2" for y
      using handle_request_frame_unblocked [of q h sid ?v t _ y s2 h2] step b by simp
    with handle_request_frame_streams [OF step] assms u step b show ?thesis
      by (cases o') (auto simp: frame_turn_def Let_def split: if_splits)
  next
    case False
    then show ?thesis
      using assms next_frame_keeps [of h sid s]
      by (fastforce simp: frame_turn_def Let_def split: if_splits sum.splits option.splits)
  qed
  then show "h3_kept h h'" "never_blocks q \<Longrightarrow> \<not> hs_blocked s \<Longrightarrow> r = Inr x \<Longrightarrow> \<not> hs_blocked s'" by auto
qed

end
