(* ===== verification/H3_Returns.thy ===== *)
theory H3_Returns
  imports H3_Frames
begin

text \<open>
  What the HTTP/3 layer does with an event of the transport: it returns unless the end of a request
  stream cuts a DATA frame short, and it keeps its streams unblocked.
\<close>

lemma frames_loop_keeps:
  assumes "frames_loop q sid ended state = Some (out, state')"
  shows "h3_kept (snd state) (snd state')
    \<and> (never_blocks q \<longrightarrow> \<not> hs_blocked (fst state) \<longrightarrow> (\<exists>x. out = Inr x) \<longrightarrow> \<not> hs_blocked (fst state'))"
proof -
  let ?P = "\<lambda>q sid ended state y. h3_kept (snd state) (snd (snd y))
    \<and> (never_blocks q \<longrightarrow> \<not> hs_blocked (fst state) \<longrightarrow> (\<exists>x. fst y = Inr x) \<longrightarrow> \<not> hs_blocked (fst (snd y)))"
  have "?P q sid ended state (out, state')"
  proof (rule frames_loop.raw_induct [OF _ assms, where P = ?P])
    fix loop q sid ended state and y :: "h3_output \<times> H3Stream \<times> ('a, 'b) H3"
    assume IH: "\<And>q sid ended st y. loop q sid ended st = Some y \<Longrightarrow> ?P q sid ended st y"
      and step: "(case frame_turn q sid ended state of
         (Inl e, state) \<Rightarrow> Some (Inl e, state)
       | (Inr ((events, effects), go_on), state) \<Rightarrow>
           if \<not> go_on then Some (Inr (events, effects), state)
           else Option.bind (loop q sid ended state) (\<lambda>(output, state).
             Some (case output of Inl e \<Rightarrow> Inl e | Inr (events', effects') \<Rightarrow> Inr (events @ events', effects @ effects'), state))) = Some y"
    obtain s h where state: "state = (s, h)" by fastforce
    obtain r s' h' where turn: "frame_turn q sid ended (s, h) = (r, (s', h'))" by (metis prod.exhaust)
    note keeps = frame_turn_keeps [OF turn]
    show "?P q sid ended state y"
    proof (cases r)
      case (Inl e)
      with step turn keeps(1) state show ?thesis by auto
    next
      case (Inr x)
      obtain events effects go_on where x: "x = ((events, effects), go_on)" by (metis prod.exhaust)
      show ?thesis
      proof (cases go_on)
        case True
        then obtain o' t' where rest: "loop q sid ended (s', h') = Some (o', t')"
            "y = (case o' of Inl e \<Rightarrow> Inl e | Inr (events', effects') \<Rightarrow> Inr (events @ events', effects @ effects'), t')"
          using step turn Inr x state by (auto split: bind_splits prod.splits)
        with IH [OF rest(1)] keeps Inr state show ?thesis by (auto split: sum.splits)
      qed (use step turn keeps Inr x state in auto)
    qed
  qed
  then show ?thesis by simp
qed

lemma parse_stream_data_keeps:
  assumes "parse_stream_data q h sid s ended = Some (Inr x, (s', h'))" "never_blocks q" "\<not> hs_blocked s"
  shows "h3_kept h h'" "\<not> hs_blocked s'"
  using assms frames_loop_keeps [of q sid ended "(s, h)" "Inr x" "(s', h')"] by (auto simp: parse_stream_data_def)

lemma parse_stream_data_streams:
  assumes "parse_stream_data q h sid s ended = Some (out, (s', h'))"
  shows "h3_kept h h'"
  using assms
  by (auto simp: parse_stream_data_def split: if_splits prod.splits sum.splits HeaderDecodeStatus.splits
      dest!: frames_loop_keeps dest: decode_headers_keeps)

lemma parse_stream_data_returns:
  assumes "ended \<longrightarrow> \<not> ends_in_data (frame_at s) (hs_buffer s)"
  shows "parse_stream_data q h sid s ended \<noteq> None"
proof -
  have "frame_at (s\<lparr>hs_blocked := False\<rparr>) = frame_at s" by (simp add: frame_at_def)
  with assms frames_loop_returns [of ended "(s, h)" for h] frames_loop_returns [of ended "(s\<lparr>hs_blocked := False\<rparr>, h)" for h]
  show ?thesis
    by (auto simp: parse_stream_data_def split: prod.splits sum.splits HeaderDecodeStatus.splits)
qed

text \<open>The stream after a chunk of input, and whether the chunk ends it inside a DATA frame.\<close>

definition with_input :: "('d, 'e) H3 \<Rightarrow> StreamId \<Rightarrow> bytes \<Rightarrow> bool \<Rightarrow> H3Stream" where
  "with_input h sid d e = append_input (fst (take_h3_stream h sid)) d e"

definition cuts_data :: "('d, 'e) H3 \<Rightarrow> StreamId \<Rightarrow> bytes \<Rightarrow> bool \<Rightarrow> bool" where
  "cuts_data h sid d e \<longleftrightarrow> hs_ended (with_input h sid d e)
    \<and> ends_in_data (frame_at (with_input h sid d e)) (hs_buffer (with_input h sid d e))"

lemma recv_request_frames_returns:
  assumes "hs_ended s \<longrightarrow> \<not> ends_in_data (frame_at s) (hs_buffer s)"
  shows "recv_request_frames q h sid s \<noteq> None"
  using parse_stream_data_returns [OF assms, of q h sid]
  by (auto simp: recv_request_frames_def Let_def split: sum.splits prod.splits)

lemma recv_request_data_returns:
  assumes "\<not> cuts_data h sid d e"
  shows "recv_request_data q h sid d e \<noteq> None"
proof -
  have "frame_at (s\<lparr>hs_is_request_stream := True\<rparr>) = frame_at s" for s by (simp add: frame_at_def)
  with assms recv_request_frames_returns [of "with_input h sid d e" q] recv_request_frames_returns [of "(with_input h sid d e)\<lparr>hs_is_request_stream := True\<rparr>" q]
  show ?thesis
    by (auto simp: recv_request_data_def cuts_data_def with_input_def Let_def case_prod_beta split: sum.splits)
qed

subsection \<open>Streams stay unblocked\<close>

lemma append_input_blocked [simp]: "hs_blocked (append_input s d e) = hs_blocked s"
  by (simp add: append_input_def)

lemma await_byte_unblocked: "unblocked h \<Longrightarrow> \<not> hs_blocked s \<Longrightarrow> unblocked (snd (await_byte q h sid s))"
  by (simp add: await_byte_def case_prod_beta)

lemma parse_stream_header_unblocked:
  "unblocked h \<Longrightarrow> \<not> hs_blocked s \<Longrightarrow> unblocked (snd (parse_stream_header q h sid s))"
  by (simp add: parse_stream_header_def await_byte_unblocked split: sum.split prod.split)

lemma recv_request_frames_unblocked:
  assumes "recv_request_frames q h sid s = Some (out, h')" "never_blocks q" "unblocked h" "\<not> hs_blocked s"
  shows "unblocked h'"
proof -
  obtain r s2 h2 where p: "parse_stream_data q h sid s (hs_ended s) = Some (r, (s2, h2))"
    using assms(1) by (auto simp: recv_request_frames_def Let_def split: bind_splits)
  have "unblocked h2" using parse_stream_data_streams [OF p] assms(3) unblocked_cong by blast
  moreover have "r = Inr x \<Longrightarrow> \<not> hs_blocked s2" for x
    using parse_stream_data_keeps(2) [of q h sid s "hs_ended s" x s2 h2] p assms by simp
  ultimately show ?thesis
    using assms(1) p by (auto simp: recv_request_frames_def Let_def case_prod_beta split: sum.splits if_splits)
qed

lemma recv_request_data_unblocked:
  assumes "recv_request_data q h sid d e = Some (out, h')" "never_blocks q" "unblocked h"
  shows "unblocked h'"
proof -
  obtain s0 h0 where t: "take_h3_stream h sid = (s0, h0)" by fastforce
  with unblocked_take [OF assms(3), of sid] have u: "\<not> hs_blocked s0" "unblocked h0" by simp_all
  let ?s = "append_input s0 d e"
  have s: "\<not> hs_blocked ?s" "\<not> hs_blocked (?s\<lparr>hs_is_request_stream := True\<rparr>)"
      "\<not> hs_blocked (?s\<lparr>hs_buffer := [], hs_stream_type := Some H3_STREAM_TYPE_WEBTRANSPORT\<rparr>)"
    using u(1) by simp_all
  note cases = await_byte_unblocked [OF u(2) s(1), of q sid] parse_stream_header_unblocked [OF u(2) s(1), of q sid]
    parse_stream_header_unblocked [OF u(2) s(3), of q sid] recv_request_frames_unblocked [OF _ assms(2) u(2) s(1), of sid out h']
    recv_request_frames_unblocked [OF _ assms(2) u(2) s(2), of sid out h']
  show ?thesis
    using assms(1) t u(2) cases by (auto simp: recv_request_data_def Let_def split: if_splits sum.splits)
qed

lemma resume_unblocked_id: "unblocked h \<Longrightarrow> resume_unblocked q h ids = Some (Inr ([], []), h)"
  by (induction ids) (auto simp: unblocked_def split: option.split)

lemma handle_control_frame_streams:
  assumes "handle_control_frame q h t d c = (out, h')"
  shows "h3_streams h' = h3_streams h"
  using assms
  by (auto simp: handle_control_frame_def handle_max_push_id_def handle_settings_def Let_def
      split: if_splits sum.splits prod.splits)

lemma control_frames_eq:
  "control_frames q h b c =
    (case read_pair b of
       None \<Rightarrow> ((Inr ([], []), b), h)
     | Some (t, n, r) \<Rightarrow>
         if t = H3_FRAME_TYPE_DATA then ((Inl (control_stream_error ERR_H3_FRAME_UNEXPECTED), b), h)
         else if t \<noteq> H3_FRAME_TYPE_HEADERS \<and> unat n > CONTROL_FRAME_SIZE_LIMIT then
           ((Inl (Protocol (Some ERR_H3_FRAME_ERROR) ''h3_frame validate exceeded''), b), h)
         else if length r < unat n then ((Inr ([], []), b), h)
         else
           (case handle_control_frame q h t (take (unat n) r) c of
              (Inl e, h) \<Rightarrow> ((Inl e, drop (unat n) r), h)
            | (Inr (events, effects), h) \<Rightarrow>
                (case control_frames q h (drop (unat n) r) c of
                   ((Inl e, b), h) \<Rightarrow> ((Inl e, b), h)
                 | ((Inr (events', effects'), b), h) \<Rightarrow> ((Inr (events @ events', effects @ effects'), b), h))))"
  by (subst control_frames.simps) (auto simp: read_pair_def Let_def split: sum.splits)

lemma control_frames_streams:
  assumes "control_frames q h b c = (out, h')"
  shows "h3_streams h' = h3_streams h"
  using assms
proof (induction "length b" arbitrary: b h out h' rule: less_induct)
  case less
  show ?case
  proof (cases "\<exists>t n r events effects h2. read_pair b = Some (t, n, r) \<and> handle_control_frame q h t (take (unat n) r) c = (Inr (events, effects), h2)")
    case True
    then obtain t n r events effects h2 where p: "read_pair b = Some (t, n, r)"
        "handle_control_frame q h t (take (unat n) r) c = (Inr (events, effects), h2)" by blast
    obtain o3 h3 where rest: "control_frames q h2 (drop (unat n) r) c = (o3, h3)" by fastforce
    have "length (drop (unat n) r) < length b" using read_pair_shrinks [OF p(1)] by simp
    note same = less.hyps [OF this rest] handle_control_frame_streams [OF p(2)]
    show ?thesis
      using less.prems [unfolded control_frames_eq [of q h b c]] p rest same by (auto split: if_splits sum.splits prod.splits)
  next
    case False
    then show ?thesis
      using less.prems [unfolded control_frames_eq [of q h b c]]
      by (auto split: if_splits sum.splits prod.splits option.splits dest!: handle_control_frame_streams)
  qed
qed

lemma keep_reading_unblocked:
  "unblocked (snd p) \<Longrightarrow> \<not> hs_blocked s \<Longrightarrow> unblocked (snd (keep_reading p sid s))"
  by (cases p) (simp add: keep_reading_def split: sum.split prod.split)

definition returns_unblocked :: "(h3_output \<times> ('d, 'e) H3) option \<Rightarrow> bool" where
  "returns_unblocked r \<longleftrightarrow> (case r of None \<Rightarrow> False | Some p \<Rightarrow> unblocked (snd p))"

lemma returns_unblocked_Some [simp]: "returns_unblocked (Some p) = unblocked (snd p)"
  by (simp add: returns_unblocked_def)

lemma recv_typed_stream_ok:
  assumes "unblocked h" "\<not> hs_blocked s"
  shows "returns_unblocked (recv_typed_stream q h sid s t c)"
proof -
  have u1: "unblocked (snd (control_frames q h (hs_buffer s) c))"
    using control_frames_streams [of q h "hs_buffer s" c] unblocked_cong assms(1) by (metis prod.collapse)
  have u2: "unblocked (h\<lparr>h3_encoder := x\<rparr>)" "unblocked (h\<lparr>h3_decoder := y\<rparr>)" for x y
    using assms(1) by (simp_all add: unblocked_def)
  have k: "unblocked (snd (keep_reading (r, g) sid (s\<lparr>hs_buffer := z\<rparr>)))" "unblocked (snd (keep_reading (r, g) sid s))"
    if "unblocked g" for g r z
    using keep_reading_unblocked [of "(r, g)"] that assms(2) by simp_all
  note h = parse_stream_header_unblocked [OF assms, of q sid]
  consider "t = H3_STREAM_TYPE_CONTROL" | "t = H3_STREAM_TYPE_QPACK_DECODER" | "t = H3_STREAM_TYPE_QPACK_ENCODER"
    | "t \<notin> {H3_STREAM_TYPE_CONTROL, H3_STREAM_TYPE_QPACK_DECODER, H3_STREAM_TYPE_QPACK_ENCODER}" by blast
  then show ?thesis
  proof cases
    case 3
    obtain r d where f: "qp_feed_encoder q (h3_decoder h) (hs_buffer s) = (r, d)" by fastforce
    with 3 show ?thesis
      by (cases r) (simp_all add: recv_typed_stream_def resume_unblocked_id u2 k assms Let_def const_defs)
  qed (simp_all add: recv_typed_stream_def u1 u2 k h assms Let_def case_prod_beta const_defs)
qed

lemma register_streams:
  "h3_streams (snd (register_peer_infrastructure_stream h sid t)) = h3_streams h"
  by (simp add: register_peer_infrastructure_stream_def Let_def)

lemma recv_unidirectional_ok:
  assumes "unblocked h"
  shows "returns_unblocked (recv_unidirectional_stream_data q h sid d e c)"
proof -
  obtain s0 h0 where t: "take_h3_stream h sid = (s0, h0)" by fastforce
  with unblocked_take [OF assms, of sid] have u: "\<not> hs_blocked s0" "unblocked h0" by simp_all
  let ?s = "append_input s0 d e"
  have s: "\<not> hs_blocked ?s" "\<And>t. \<not> hs_blocked (?s\<lparr>hs_buffer := [], hs_stream_type := Some t\<rparr>)"
    using u(1) by simp_all
  have r: "unblocked (snd (register_peer_infrastructure_stream h0 sid t))" for t
    using register_streams [of h0 sid t] u(2) unblocked_cong by blast
  show ?thesis
  proof (cases "hs_stream_type ?s")
    case None
    show ?thesis
    proof (cases "read_varint (hs_buffer ?s)")
      case (Inl x)
      with None t show ?thesis
        using await_byte_unblocked [OF u(2) s(1)] by (simp add: recv_unidirectional_stream_data_def Let_def)
    next
      case (Inr y)
      obtain st rest where y: "y = (st, rest)" by fastforce
      obtain o1 h1 where reg: "register_peer_infrastructure_stream h0 sid st = (o1, h1)" by fastforce
      with r [of st] have "unblocked h1" by simp
      with None Inr y t reg u(2) s(2) show ?thesis
        by (cases o1) (simp_all add: recv_unidirectional_stream_data_def Let_def recv_typed_stream_ok)
    qed
  next
    case (Some st)
    with t recv_typed_stream_ok [OF u(2) s(1)] show ?thesis by (simp add: recv_unidirectional_stream_data_def Let_def)
  qed
qed

subsection \<open>Events of the transport\<close>

definition event_cuts_data :: "('d, 'e) H3 \<Rightarrow> ProtocolEvent \<Rightarrow> bool" where
  "event_cuts_data h event =
    (case event of
       TransportStreamDataReceived sid d e \<Rightarrow> \<not> is_unidirectional_stream sid \<and> cuts_data h sid d e
     | _ \<Rightarrow> False)"

lemma transport_output_ok:
  assumes "never_blocks q" "unblocked h" "\<not> event_cuts_data h event"
  shows "returns_unblocked (transport_output q h event c)"
proof (cases event)
  case (TransportStreamDataReceived sid d e)
  show ?thesis
  proof (cases "is_unidirectional_stream sid")
    case False
    with assms(3) TransportStreamDataReceived have "recv_request_data q h sid d e \<noteq> None"
      by (intro recv_request_data_returns) (simp add: event_cuts_data_def)
    then obtain out h' where r: "recv_request_data q h sid d e = Some (out, h')" by auto
    with False TransportStreamDataReceived recv_request_data_unblocked [OF r assms(1,2)] show ?thesis
      by (simp add: transport_output_def)
  qed (use TransportStreamDataReceived assms(2) recv_unidirectional_ok in \<open>simp add: transport_output_def\<close>)
qed (use assms(2) in \<open>simp_all add: transport_output_def h3_recv_stream_reset_def h3_stream_opened_def h3_stream_default_def
      case_prod_beta\<close>)

lemma resolve_output_unblocked: "unblocked (snd p) \<Longrightarrow> unblocked (snd (resolve_output q p))"
  by (cases p) (auto simp: resolve_output_def case_prod_beta split: sum.split WebTransportError.split)

lemma handle_transport_event_ok:
  assumes "never_blocks q" "unblocked h" "\<not> event_cuts_data h event"
  obtains out h' where "handle_transport_event q h event c = Some (out, h')" "unblocked h'"
proof -
  obtain p where p: "transport_output q h event c = Some p" "unblocked (snd p)"
    using transport_output_ok [OF assms, of c] by (auto simp: returns_unblocked_def split: option.splits)
  with resolve_output_unblocked [OF p(2), of q] show ?thesis
    by (intro that [of "fst (resolve_output q p)" "snd (resolve_output q p)"]) (simp_all add: handle_transport_event_def)
qed

end
