(* ===== verification/H3_Output.thy ===== *)
theory H3_Output
  imports H3_Returns Session_Streams
begin

text \<open>
  What the HTTP/3 layer produces: only its own kinds of events, and effects that answer no
  request.
\<close>

definition is_h3_event :: "ProtocolEvent \<Rightarrow> bool" where
  "is_h3_event event =
    (case event of
       H3CapsuleReceived _ _ _ \<Rightarrow> True
     | H3ConnectStreamClosed _ \<Rightarrow> True
     | H3DatagramReceived _ _ \<Rightarrow> True
     | H3GoawayReceived \<Rightarrow> True
     | H3HeadersReceived _ _ \<Rightarrow> True
     | H3SettingsReceived _ \<Rightarrow> True
     | H3WebTransportStreamOpened _ _ \<Rightarrow> True
     | _ \<Rightarrow> False)"

lemma is_h3_event_simps [simp]:
  "is_h3_event (H3CapsuleReceived sid t v)" "is_h3_event (H3ConnectStreamClosed sid)" "is_h3_event (H3DatagramReceived i d)"
  "is_h3_event H3GoawayReceived" "is_h3_event (H3HeadersReceived sid hs)" "is_h3_event (H3SettingsReceived s)"
  "is_h3_event (H3WebTransportStreamOpened i sid)"
  by (simp_all add: is_h3_event_def)

text \<open>The events a request stream gives rise to.\<close>

definition is_request_event :: "ProtocolEvent \<Rightarrow> bool" where
  "is_request_event event =
    (case event of
       H3CapsuleReceived _ _ _ \<Rightarrow> True
     | H3ConnectStreamClosed _ \<Rightarrow> True
     | H3HeadersReceived _ _ \<Rightarrow> True
     | _ \<Rightarrow> False)"

lemma is_request_event_simps [simp]:
  "is_request_event (H3CapsuleReceived sid t v)" "is_request_event (H3ConnectStreamClosed sid)" "is_request_event (H3HeadersReceived sid hs)"
  by (simp_all add: is_request_event_def)

definition is_plain_event :: "ProtocolEvent \<Rightarrow> bool" where
  "is_plain_event event \<longleftrightarrow> is_h3_event event \<and> (\<forall>i sid. event \<noteq> H3WebTransportStreamOpened i sid)"

lemma is_plain_event_simps [simp]:
  "is_request_event event \<Longrightarrow> is_plain_event event" "is_plain_event (H3DatagramReceived i d)" "is_plain_event H3GoawayReceived"
  "is_plain_event (H3SettingsReceived s)"
  by (simp_all add: is_plain_event_def is_request_event_def is_h3_event_def split: ProtocolEvent.splits)

definition outputs :: "(ProtocolEvent \<Rightarrow> bool) \<Rightarrow> h3_output \<Rightarrow> bool" where
  "outputs P out = (case out of Inl _ \<Rightarrow> True | Inr (events, effects) \<Rightarrow> list_all P events \<and> dispatched effects = [])"

lemma outputs_simps [simp]:
  "outputs P (Inl e)" "outputs P (Inr (events, effects)) \<longleftrightarrow> list_all P events \<and> dispatched effects = []"
  by (simp_all add: outputs_def)

lemma outputs_mono: "outputs P out \<Longrightarrow> (\<And>e. P e \<Longrightarrow> Q e) \<Longrightarrow> outputs Q out"
  by (auto simp: outputs_def list.pred_mono_strong split: sum.splits)

abbreviation plain_clean :: "h3_output \<Rightarrow> bool" where
  "plain_clean \<equiv> outputs is_plain_event"

abbreviation request_clean :: "h3_output \<Rightarrow> bool" where
  "request_clean \<equiv> outputs is_request_event"

lemma request_clean_plain: "request_clean out \<Longrightarrow> plain_clean out"
  by (erule outputs_mono) simp

text \<open>A stream that carries requests, and what other streams may announce.\<close>

definition carries_requests :: "('d, 'e) H3 \<Rightarrow> StreamId \<Rightarrow> bool" where
  "carries_requests h sid \<longleftrightarrow> \<not> is_unidirectional_stream sid \<and>
    (case fmlookup (h3_streams h) sid of
       None \<Rightarrow> False
     | Some s \<Rightarrow> hs_is_request_stream s \<and> hs_stream_type s \<noteq> Some H3_STREAM_TYPE_WEBTRANSPORT)"

definition opens_stream :: "('d, 'e) H3 \<Rightarrow> StreamId \<Rightarrow> h3_output \<Rightarrow> bool" where
  "opens_stream h sid out \<longleftrightarrow> (\<exists>i. out = Inr ([H3WebTransportStreamOpened i sid], [])) \<and> \<not> carries_requests h sid"

lemma qpack_instructions_clean [simp]: "dispatched (qpack_instructions i b) = []"
  by (simp add: qpack_instructions_def split: option.split)

lemma cleanup_clean [simp]: "dispatched (fst (cleanup_stream q h sid)) = []"
  by (simp add: cleanup_stream_def case_prod_beta)

lemma parse_capsules_clean:
  "parse_capsules_loop m sid b = (Inr events, r) \<Longrightarrow> list_all is_request_event events"
proof (induction "length b" arbitrary: b events rule: less_induct)
  case less
  show ?case
  proof (cases "read_pair b")
    case (Some p)
    obtain t n s where p: "p = (t, n, s)" by (metis prod.exhaust)
    have "length (drop (unat n) s) < length b" using read_pair_shrinks Some p by fastforce
    with less.hyps [OF this] less.prems [unfolded parse_capsules_eq [of m sid b]] Some p show ?thesis
      by (auto split: if_splits sum.splits prod.splits)
  qed (use less.prems [unfolded parse_capsules_eq [of m sid b]] in simp)
qed

lemma handle_request_frame_clean: "request_clean (fst (fst (handle_request_frame q h sid s t d)))"
proof -
  have data: "request_clean (fst (handle_data_frame h sid s b))" for b
    by (auto simp: handle_data_frame_def parse_capsules_def Let_def dest!: parse_capsules_clean split: prod.splits sum.splits)
  have decode: "decode_headers q h sid d = (Inr (HeadersDone hs effects), h') \<Longrightarrow> dispatched effects = []" for hs effects h'
    by (auto simp: decode_headers_def Let_def split: prod.splits sum.splits DecodeStatus.splits)
  have "request_clean (fst (fst (handle_headers_frame q h sid s d)))"
    by (auto simp: handle_headers_frame_def Let_def dest!: decode split: prod.splits sum.splits HeaderDecodeStatus.splits)
  with data show ?thesis by (simp add: handle_request_frame_def)
qed

lemma frame_turn_clean:
  assumes "frame_turn q sid ended state = (Inr (out, go_on), state')"
  shows "request_clean (Inr out)"
proof -
  obtain s h where state: "state = (s, h)" by fastforce
  show ?thesis
  proof (cases "\<exists>u t n. next_frame h sid s = Inr (Some u) \<and> hs_frame_type u = Some t \<and> hs_frame_size u = Some n")
    case True
    then obtain u t n where u: "next_frame h sid s = Inr (Some u)" "hs_frame_type u = Some t" "hs_frame_size u = Some n" by blast
    let ?k = "min n (length (hs_buffer u))"
    let ?v = "u\<lparr>hs_buffer := drop ?k (hs_buffer u), hs_frame_size := Some (n - ?k)\<rparr>"
    obtain r s2 h2 where step: "handle_request_frame q h sid ?v t (Some (take ?k (hs_buffer u))) = ((r, s2), h2)"
      by (metis prod.exhaust)
    with handle_request_frame_clean [of q h sid ?v t "Some (take ?k (hs_buffer u))"] assms state u show ?thesis
      by (cases r) (auto simp: frame_turn_def Let_def split: if_splits)
  next
    case False
    then show ?thesis
      using assms state by (auto simp: frame_turn_def Let_def split: if_splits sum.splits option.splits)
  qed
qed

lemma frames_loop_clean:
  assumes "frames_loop q sid ended state = Some (out, state')"
  shows "request_clean out"
proof -
  let ?P = "\<lambda>q sid ended state y. request_clean (fst y)"
  have "?P q sid ended state (out, state')"
  proof (rule frames_loop.raw_induct [OF _ assms, where P = ?P])
    fix loop q sid ended state and y :: "h3_output \<times> H3Stream \<times> ('a, 'b) H3"
    assume IH: "\<And>q sid ended st y. loop q sid ended st = Some y \<Longrightarrow> ?P q sid ended st y"
      and step: "(case frame_turn q sid ended state of
         (Inl e, state) \<Rightarrow> Some (Inl e, state)
       | (Inr ((events, effects), go_on), state) \<Rightarrow>
           if \<not> go_on then Some (Inr (events, effects), state)
           else Option.bind (loop q sid ended state) (\<lambda>(output, state).
             Some (case output of Inl e \<Rightarrow> Inl e | Inr (events', effects') \<Rightarrow> Inr (events @ events', effects @ effects'), state))) = Some y"
    obtain r st where turn: "frame_turn q sid ended state = (r, st)" by (metis prod.exhaust)
    show "?P q sid ended state y"
    proof (cases r)
      case (Inr x)
      obtain events effects go_on where x: "x = ((events, effects), go_on)" by (metis prod.exhaust)
      have clean: "request_clean (Inr (events, effects))" using frame_turn_clean turn Inr x by blast
      show ?thesis
      proof (cases go_on)
        case True
        then obtain o' t' where rest: "loop q sid ended st = Some (o', t')"
            "y = (case o' of Inl e \<Rightarrow> Inl e | Inr (events', effects') \<Rightarrow> Inr (events @ events', effects @ effects'), t')"
          using step turn Inr x by (auto split: bind_splits prod.splits)
        with IH [OF rest(1)] clean show ?thesis by (auto split: sum.splits)
      qed (use step turn Inr x clean in auto)
    qed (use step turn in auto)
  qed
  then show ?thesis by simp
qed

lemma parse_stream_data_clean:
  assumes "parse_stream_data q h sid s ended = Some (out, state')"
  shows "request_clean out"
  using assms
  by (auto simp: parse_stream_data_def split: if_splits prod.splits sum.splits HeaderDecodeStatus.splits dest: frames_loop_clean)

lemma await_byte_clean: "request_clean (fst (await_byte q h sid s))"
  by (simp add: await_byte_def case_prod_beta)

lemma parse_stream_header_clean:
  "request_clean (fst (parse_stream_header q h sid s)) \<or> (\<exists>i. fst (parse_stream_header q h sid s) = Inr ([H3WebTransportStreamOpened i sid], []))"
  by (simp add: parse_stream_header_def await_byte_clean split: sum.split prod.split)

lemma recv_request_frames_clean:
  assumes "recv_request_frames q h sid s = Some (out, h')"
  shows "request_clean out"
proof -
  obtain r s2 h2 where p: "parse_stream_data q h sid s (hs_ended s) = Some (r, (s2, h2))"
    using assms by (auto simp: recv_request_frames_def Let_def split: bind_splits)
  with assms parse_stream_data_clean [OF p] show ?thesis
    by (cases r) (auto simp: recv_request_frames_def Let_def case_prod_beta split: if_splits)
qed

lemma recv_request_data_clean:
  assumes "recv_request_data q h sid d e = Some (out, h')"
  shows "request_clean out \<or> opens_stream h sid out"
proof -
  have awaited: "await_byte q h' sid s = (out, h2) \<Longrightarrow> request_clean out" for h' s h2
    using await_byte_clean [of q h' sid s] by simp
  have opened: "parse_stream_header q h' sid s = (out, h2) \<Longrightarrow> \<not> carries_requests h sid \<Longrightarrow> request_clean out \<or> opens_stream h sid out" for h' s h2
    using parse_stream_header_clean [of q h' sid s] by (auto simp: opens_stream_def)
  note framed = recv_request_frames_clean
  obtain s h1 where s: "take_h3_stream h sid = (s, h1)" by (metis prod.exhaust)
  then have "carries_requests h sid \<Longrightarrow> hs_is_request_stream s \<and> hs_stream_type s \<noteq> Some H3_STREAM_TYPE_WEBTRANSPORT"
    by (auto simp: carries_requests_def take_h3_stream_def split: option.splits)
  with assms s show ?thesis
    by (cases "read_varint (hs_buffer (append_input s d e))"; cases "carries_requests h sid")
      (auto simp: recv_request_data_def Let_def append_input_def dest: awaited opened framed split: if_splits)
qed

lemma handle_control_frame_clean:
  assumes "handle_control_frame q h t d c = (out, h')"
  shows "plain_clean out"
  using assms
  by (auto simp: handle_control_frame_def handle_max_push_id_def handle_settings_def Let_def
      split: if_splits sum.splits prod.splits)

lemma control_frames_clean:
  assumes "control_frames q h b c = ((out, r), h')"
  shows "plain_clean out"
  using assms
proof (induction "length b" arbitrary: b h out r h' rule: less_induct)
  case less
  show ?case
  proof (cases "read_pair b")
    case (Some p)
    obtain t n s where p: "p = (t, n, s)" by (metis prod.exhaust)
    have l: "length (drop (unat n) s) < length b" using read_pair_shrinks Some p by fastforce
    obtain o2 h2 where o2: "handle_control_frame q h t (take (unat n) s) c = (o2, h2)" by (metis prod.exhaust)
    have "plain_clean o2" using handle_control_frame_clean [OF o2] .
    moreover obtain o3 r3 h3 where o3: "control_frames q h2 (drop (unat n) s) c = ((o3, r3), h3)" by (metis prod.exhaust)
    from less.hyps [OF l o3] have "plain_clean o3" .
    moreover note less.prems [unfolded control_frames_eq [of q h b c]]
    ultimately show ?thesis
      using Some p o2 o3 by (cases o2; cases o3) (auto split: if_splits)
  qed (use less.prems [unfolded control_frames_eq [of q h b c]] in fastforce)
qed

lemma keep_reading_clean: "plain_clean (fst p) \<Longrightarrow> plain_clean (fst (keep_reading p sid s))"
  by (cases p) (auto simp: keep_reading_def split: sum.split)

lemma recv_typed_stream_clean:
  assumes "recv_typed_stream q h sid s t c = Some (out, h')" "unblocked h"
  shows "plain_clean out \<or> t = H3_STREAM_TYPE_WEBTRANSPORT \<and> (\<exists>i. out = Inr ([H3WebTransportStreamOpened i sid], []))"
proof -
  have kept: "keep_reading p sid u = (out, h') \<Longrightarrow> plain_clean (fst p) \<Longrightarrow> plain_clean out" for p u
    using keep_reading_clean [of p sid u] by simp
  have opened: "parse_stream_header q h sid s = (out, h') \<Longrightarrow> plain_clean out \<or> (\<exists>i. out = Inr ([H3WebTransportStreamOpened i sid], []))"
    using parse_stream_header_clean [of q h sid s] request_clean_plain by auto
  have control: "plain_clean (fst (fst (control_frames q h (hs_buffer s) c)))"
    using control_frames_clean by (metis prod.collapse)
  have fed: "plain_clean (fst (case x of Inl _ \<Rightarrow> Inl e | Inr _ \<Rightarrow> Inr ([], []), h2))" for x :: "QpackError + unit" and e h2
    by (simp split: sum.split)
  have "unblocked (h\<lparr>h3_decoder := x\<rparr>)" for x
    using assms(2) by (simp add: unblocked_def)
  note resumed = resume_unblocked_id [OF this]
  show ?thesis
    using assms(1)
    by (auto simp: recv_typed_stream_def Let_def case_prod_beta control fed resumed split: if_splits sum.splits bind_splits
        dest!: kept opened)
qed


lemma recv_unidirectional_clean:
  assumes "recv_unidirectional_stream_data q h sid d e c = Some (out, h')" "unblocked h" "is_unidirectional_stream sid"
  shows "plain_clean out \<or> opens_stream h sid out"
proof -
  have awaited: "await_byte q h' sid s = (out, h2) \<Longrightarrow> plain_clean out" for h' s h2
    using request_clean_plain [OF await_byte_clean [of q h' sid s]] by simp
  have typed: "recv_typed_stream q h2 sid s t c = Some (out, h') \<Longrightarrow> unblocked h2 \<Longrightarrow> plain_clean out \<or> opens_stream h sid out" for h2 s t
    using recv_typed_stream_clean [of q h2 sid s t c out h'] assms(3) by (auto simp: opens_stream_def carries_requests_def)
  obtain s h1 where s: "take_h3_stream h sid = (s, h1)" by (metis prod.exhaust)
  with unblocked_take [OF assms(2), of sid] have h1: "unblocked h1" by simp
  then have "unblocked (snd (register_peer_infrastructure_stream h1 sid t))" for t
    using unblocked_cong [OF register_streams] by blast
  then have registered: "register_peer_infrastructure_stream h1 sid t = (r, h2) \<Longrightarrow> unblocked h2" for t r h2
    by (metis snd_conv)
  from assms(1) s h1 show ?thesis
    by (cases "hs_stream_type (append_input s d e)"; cases "read_varint (hs_buffer (append_input s d e))")
      (auto simp: recv_unidirectional_stream_data_def Let_def dest: awaited typed registered
        split: if_splits sum.splits prod.splits)
qed

lemma transport_output_clean:
  assumes "transport_output q h event c = Some (out, h')" "unblocked h"
  shows "plain_clean out \<or> (\<exists>sid d e. event = TransportStreamDataReceived sid d e \<and> opens_stream h sid out)"
proof -
  have reset: "h3_recv_stream_reset q h sid = (out, h') \<Longrightarrow> plain_clean out" for sid
    by (auto simp: h3_recv_stream_reset_def case_prod_beta split: if_splits)
  have datagram: "h3_recv_datagram d = Inr events \<Longrightarrow> list_all is_plain_event events" for d events
    by (auto simp: h3_recv_datagram_def Let_def split: sum.splits if_splits)
  show ?thesis
  proof (cases "\<exists>sid d e. event = TransportStreamDataReceived sid d e")
    case True
    with assms(1) recv_unidirectional_clean [OF _ assms(2)] recv_request_data_clean request_clean_plain show ?thesis
      by (fastforce simp: transport_output_def split: if_splits)
  next
    case False
    with assms(1) show ?thesis
      by (cases event) (auto simp: transport_output_def h3_recv_stop_sending_def h3_stream_opened_def
          dest: reset datagram split: sum.splits)
  qed
qed

text \<open>The layer hands on only its own events, announces a stream only when it is no request stream,
  and its effects answer no request.\<close>

lemma handle_transport_event_clean:
  assumes "handle_transport_event q h event c = Some ((events, effects), h')" "unblocked h"
  shows "list_all is_plain_event events
      \<or> (\<exists>sid d e i. event = TransportStreamDataReceived sid d e \<and> events = [H3WebTransportStreamOpened i sid] \<and> \<not> carries_requests h sid)"
    and "dispatched effects = []"
proof -
  obtain out h2 where p: "transport_output q h event c = Some (out, h2)"
      "resolve_output q (out, h2) = ((events, effects), h')"
    using assms(1) by (auto simp: handle_transport_event_def)
  note clean = transport_output_clean [OF p(1) assms(2)]
  have "out = Inl e \<Longrightarrow> events = [] \<and> dispatched effects = []" for e
    using p(2) by (cases e) (auto simp: resolve_output_def case_prod_beta)
  moreover have "out = Inr x \<Longrightarrow> x = (events, effects)" for x
    using p(2) by (simp add: resolve_output_def)
  ultimately show "list_all is_plain_event events
      \<or> (\<exists>sid d e i. event = TransportStreamDataReceived sid d e \<and> events = [H3WebTransportStreamOpened i sid] \<and> \<not> carries_requests h sid)"
    "dispatched effects = []"
    using clean by (cases out; auto simp: opens_stream_def)+
qed

subsection \<open>SETTINGS are reported once\<close>

definition settings_count :: "ProtocolEvent list \<Rightarrow> nat" where
  "settings_count events = length (filter (\<lambda>e. e \<in> range H3SettingsReceived) events)"

lemma settings_count_simps [simp]:
  "settings_count [] = 0" "settings_count (e # events) = of_bool (e \<in> range H3SettingsReceived) + settings_count events"
  "settings_count (events @ events') = settings_count events + settings_count events'"
  by (simp_all add: settings_count_def)

lemma request_settings_count: "list_all is_request_event events \<Longrightarrow> settings_count events = 0"
  by (auto simp: settings_count_def is_request_event_def list_all_iff filter_empty_conv)

text \<open>A report of SETTINGS is paid for with the flag that they were received.\<close>

definition settings_paid :: "('d, 'e) H3 \<Rightarrow> h3_output \<Rightarrow> ('d, 'e) H3 \<Rightarrow> bool" where
  "settings_paid h out h' \<longleftrightarrow>
    (case out of Inl _ \<Rightarrow> 0 | Inr (events, _) \<Rightarrow> settings_count events) + of_bool (h3_settings_received h)
      \<le> (of_bool (h3_settings_received h') :: nat)"

lemma settings_paid_append:
  assumes "settings_paid h (Inr (events, effects)) g"
  shows "settings_paid g (Inr (events', effects')) h' \<Longrightarrow> settings_paid h (Inr (events @ events', effects @ effects')) h'"
    and "settings_paid g (Inl e) h' \<Longrightarrow> settings_paid h (Inl e) h'"
  using assms unfolding settings_paid_def sum.case prod.case settings_count_simps(3) by linarith+

lemma settings_paid_same [simp]:
  "h3_settings_received h' = h3_settings_received h \<Longrightarrow> settings_paid h (Inl e) h'"
  "h3_settings_received h' = h3_settings_received h \<Longrightarrow> settings_paid h (Inr ([], effects)) h'"
  by (simp_all add: settings_paid_def)

lemma request_paid:
  assumes "request_clean out \<or> opens_stream g sid out" "h3_settings_received h' = h3_settings_received h"
  shows "settings_paid h out h'"
  using assms by (auto simp: settings_paid_def opens_stream_def request_settings_count split: sum.splits)

lemma received_kept [simp]:
  "h3_settings_received (put_h3_stream h sid s) = h3_settings_received h"
  "h3_settings_received (snd (take_h3_stream h sid)) = h3_settings_received h"
  "h3_settings_received (snd (cleanup_stream q h sid)) = h3_settings_received h"
  "h3_settings_received (snd (await_byte q h sid s)) = h3_settings_received h"
  "h3_settings_received (snd (parse_stream_header q h sid s)) = h3_settings_received h"
  "h3_settings_received (snd (register_peer_infrastructure_stream h sid t)) = h3_settings_received h"
  by (simp_all add: put_h3_stream_def take_h3_stream_def cleanup_stream_def await_byte_def parse_stream_header_def
      register_peer_infrastructure_stream_def case_prod_beta Let_def split: option.split sum.split)

lemma recv_request_data_paid:
  assumes "recv_request_data q h sid d e = Some (out, h')"
  shows "settings_paid h out h'"
proof -
  have framed: "recv_request_frames q g sid s = Some (out, h') \<Longrightarrow> h3_settings_received h' = h3_settings_received g" for g s
    by (auto simp: recv_request_frames_def Let_def case_prod_beta split: bind_splits sum.splits if_splits
        dest!: parse_stream_data_streams)
  have eq: "f = (out, h') \<Longrightarrow> h3_settings_received (snd f) = b \<Longrightarrow> h3_settings_received h' = b" for f b by simp
  obtain s h1 where s: "take_h3_stream h sid = (s, h1)" by (metis prod.exhaust)
  have h1: "h3_settings_received h1 = h3_settings_received h" using received_kept(2) [of h sid] s by simp
  have "h3_settings_received h' = h3_settings_received h"
    using assms s h1
    by (auto simp: recv_request_data_def Let_def case_prod_beta split: if_splits sum.splits prod.splits
        dest!: framed dest: eq [OF _ received_kept(4)] eq [OF _ received_kept(5)])
  with recv_request_data_clean [OF assms] show ?thesis by (rule request_paid)
qed

lemma handle_control_frame_paid:
  assumes "handle_control_frame q h t d c = (out, h')"
  shows "settings_paid h out h'"
  using assms
  by (auto simp: settings_paid_def handle_control_frame_def handle_max_push_id_def handle_settings_def Let_def
      split: if_splits sum.splits prod.splits)

lemma control_frames_paid:
  assumes "control_frames q h b c = ((out, r), h')"
  shows "settings_paid h out h'"
  using assms
proof (induction "length b" arbitrary: b h out r h' rule: less_induct)
  case less
  note eq = less.prems [unfolded control_frames_eq [of q h b c]]
  show ?case
  proof (cases "read_pair b")
    case (Some p)
    obtain t n s where p: "p = (t, n, s)" by (metis prod.exhaust)
    have l: "length (drop (unat n) s) < length b" using read_pair_shrinks Some p by fastforce
    obtain o2 h2 where o2: "handle_control_frame q h t (take (unat n) s) c = (o2, h2)" by (metis prod.exhaust)
    obtain o3 r3 h3 where o3: "control_frames q h2 (drop (unat n) s) c = ((o3, r3), h3)" by (metis prod.exhaust)
    have "settings_paid h o2 h2" "settings_paid h2 o3 h3"
      using handle_control_frame_paid [OF o2] less.hyps [OF l o3] by simp_all
    with eq Some p o2 o3 show ?thesis
      by (cases o2; cases o3) (auto intro: settings_paid_append split: if_splits)
  qed (use eq in auto)
qed

lemma keep_reading_paid:
  assumes "keep_reading (out, g) sid s = (out', h')" "settings_paid h out g"
  shows "settings_paid h out' h'"
proof (cases out)
  case (Inr x)
  with assms show ?thesis
    by (cases x; cases "hs_ended s")
      (auto simp: keep_reading_def intro: settings_paid_append(2), simp add: settings_paid_def)
qed (use assms in \<open>simp add: keep_reading_def\<close>)

lemma recv_typed_stream_paid:
  assumes "recv_typed_stream q h sid s t c = Some (out, h')" "unblocked h"
  shows "settings_paid h out h'"
proof -
  have control: "control_frames q h (hs_buffer s) c = ((o', b), g) \<Longrightarrow> settings_paid h o' g" for o' b g
    by (rule control_frames_paid)
  have opened: "parse_stream_header q h sid s = (out, h') \<Longrightarrow> settings_paid h out h'"
    using parse_stream_header_clean [of q h sid s] received_kept(5) [of q h sid s]
    by (auto simp: settings_paid_def request_settings_count split: sum.splits)
  have "unblocked (h\<lparr>h3_decoder := x\<rparr>)" for x
    using assms(2) by (simp add: unblocked_def)
  note resumed = resume_unblocked_id [OF this]
  show ?thesis
    using assms(1)
    by (auto simp: recv_typed_stream_def Let_def resumed opened
        split: if_splits sum.splits prod.splits dest!: keep_reading_paid [where h = h] dest: control)
qed

lemma recv_unidirectional_paid:
  assumes "recv_unidirectional_stream_data q h sid d e c = Some (out, h')" "unblocked h"
  shows "settings_paid h out h'"
proof -
  obtain s h1 where s: "take_h3_stream h sid = (s, h1)" by (metis prod.exhaust)
  with unblocked_take [OF assms(2), of sid] received_kept(2) [of h sid]
  have h1: "unblocked h1" "h3_settings_received h1 = h3_settings_received h" by simp_all
  have typed: "recv_typed_stream q g sid u t c = Some (out, h') \<Longrightarrow> unblocked g \<and> h3_settings_received g = h3_settings_received h
      \<Longrightarrow> settings_paid h out h'" for g u t
    using recv_typed_stream_paid [of q g sid u t c out h'] by (simp add: settings_paid_def)
  have registered: "register_peer_infrastructure_stream h1 sid t = (r, g) \<Longrightarrow> unblocked g \<and> h3_settings_received g = h3_settings_received h" for t r g
    using received_kept(6) [of h1 sid t] unblocked_cong [OF register_streams [of h1 sid t]] h1 by (metis snd_conv)
  have awaited: "await_byte q h1 sid u = (out, h') \<Longrightarrow> settings_paid h out h'" for u
    using request_paid [OF disjI1 [OF await_byte_clean [of q h1 sid u]], of h' h] received_kept(4) [of q h1 sid u] h1 by simp
  from assms(1) s h1 show ?thesis
    by (cases "hs_stream_type (append_input s d e)"; cases "read_varint (hs_buffer (append_input s d e))")
      (auto simp: recv_unidirectional_stream_data_def Let_def dest: awaited typed registered
        split: if_splits sum.splits prod.splits)
qed

lemma handle_transport_event_paid:
  assumes "handle_transport_event q h event c = Some ((events, effects), h')" "unblocked h"
  shows "settings_count events + of_bool (h3_settings_received h) \<le> (of_bool (h3_settings_received h') :: nat)"
proof -
  obtain out h2 where p: "transport_output q h event c = Some (out, h2)"
      "resolve_output q (out, h2) = ((events, effects), h')"
    using assms(1) by (auto simp: handle_transport_event_def)
  have "settings_paid h out h2"
  proof (cases "\<exists>sid d e. event = TransportStreamDataReceived sid d e")
    case True
    with p(1) recv_unidirectional_paid [OF _ assms(2)] recv_request_data_paid show ?thesis
      by (fastforce simp: transport_output_def split: if_splits)
  next
    case False
    with p(1) show ?thesis
      by (cases event) (auto simp: transport_output_def h3_recv_stop_sending_def h3_stream_opened_def h3_recv_stream_reset_def
          h3_recv_datagram_def settings_paid_def case_prod_beta Let_def split: sum.splits if_splits)
  qed
  moreover have "out = Inl e \<Longrightarrow> events = [] \<and> h3_settings_received h' = h3_settings_received h2" for e
    using p(2) received_kept(3) by (cases e) (auto simp: resolve_output_def case_prod_beta)
  moreover have "out = Inr x \<Longrightarrow> x = (events, effects) \<and> h' = h2" for x
    using p(2) by (simp add: resolve_output_def)
  ultimately show ?thesis by (cases out) (auto simp: settings_paid_def)
qed

end
