(* ===== verification/Engine_Runs.thy ===== *)
theory Engine_Runs
  imports WtEngine H3_Output Connection_Frame
begin

text \<open>
  What one turn of the engine does: which calls reach the connection, that the HTTP/3 layer and the
  queue of waiting user events answer no request twice, and that a turn keeps the engine consistent.
\<close>

subsection \<open>Waiting events\<close>

abbreviation is_create :: "ProtocolEvent \<Rightarrow> bool" where
  "is_create e \<equiv> user_create_request e \<noteq> None"

lemma create_submits: "user_create_request e = Some r \<Longrightarrow> event_submits e = [r]"
  by (cases e) (auto simp: user_create_request_def)

lemma create_cases [consumes 1]:
  assumes "is_create e"
  obtains r a p hs ps where "e = UserCreateSession r a p hs ps"
    | r a p hs ps where "e = UserCreateSessionOptimistic r a p hs ps"
    | r i u where "e = UserCreateStream r i u"
  using assms by (cases e) (auto simp: user_create_request_def)

abbreviation submits_all :: "ProtocolEvent list \<Rightarrow> RequestId list" where
  "submits_all events \<equiv> concat (map event_submits events)"

definition eng_holds :: "('d, 'e) WebTransportEngine \<Rightarrow> RequestId multiset" where
  "eng_holds self = con_holds (eng_connection self) + mset (submits_all (eng_pending_user_events self))"

definition waits :: "ProtocolEvent \<Rightarrow> ('d, 'e) WebTransportEngine \<Rightarrow> bool" where
  "waits e self \<longleftrightarrow> is_create e \<and> con_is_client (eng_connection self) \<and> is_pre_connected (eng_connection self)"

text \<open>The calls a turn makes on the connection.\<close>

definition turn_calls :: "ProtocolEvent \<Rightarrow> f64 \<Rightarrow> ('d, 'e) WebTransportEngine \<Rightarrow> (ProtocolEvent \<times> f64) list" where
  "turn_calls e now self = (if waits e self then [] else [(e, now)])"

definition connection_run ::
    "ProtocolEvent \<Rightarrow> f64 \<Rightarrow> ('d, 'e) WebTransportEngine \<Rightarrow> effects \<times> Connection" where
  "connection_run e now self = run_calls connection_step (eng_connection self) (turn_calls e now self)"

lemma connection_run_simps:
  "waits e self \<Longrightarrow> connection_run e now self = ([], eng_connection self)"
  "\<not> waits e self \<Longrightarrow> connection_run e now self = connection_event e now (eng_connection self)"
  by (simp_all add: connection_run_def turn_calls_def prod_eq_iff) (simp_all add: connection_step_def)

subsection \<open>One event\<close>

text \<open>An outcome of an event: the connection did what it does on its own, what it says is passed on
  in order, and requests move between the queue, the connection and the answers.\<close>

definition follows :: "ProtocolEvent \<Rightarrow> f64 \<Rightarrow> ('d, 'e) WebTransportEngine \<Rightarrow> effects \<times> ('d, 'e) WebTransportEngine \<Rightarrow> bool" where
  "follows e now self p \<longleftrightarrow>
    eng_connection (snd p) = snd (connection_run e now self)
    \<and> subseq (fst (connection_run e now self)) (fst p)
    \<and> mset (dispatched (fst p)) + mset (submits_all (eng_pending_user_events (snd p))) =
        mset (dispatched (fst (connection_run e now self))) + mset (submits_all (eng_pending_user_events self))
        + (if waits e self then mset (event_submits e) else {#})
    \<and> set (eng_pending_user_events (snd p)) \<subseteq> set (eng_pending_user_events self) \<union> (if waits e self then {e} else {})
    \<and> (unblocked (eng_h3 self) \<longrightarrow> unblocked (eng_h3 (snd p)))
    \<and> h3_settings_received (eng_h3 (snd p)) = h3_settings_received (eng_h3 self)"

definition calm :: "(('d, 'e) H3 \<Rightarrow> effects \<times> ('d, 'e) H3) \<Rightarrow> bool" where
  "calm f \<longleftrightarrow> (\<forall>h. dispatched (fst (f h)) = [] \<and> (unblocked h \<longrightarrow> unblocked (snd (f h)))
    \<and> h3_settings_received (snd (f h)) = h3_settings_received h)"

lemma follows_connection: "\<not> waits e self \<Longrightarrow> follows e now self (on_connection e now self)"
  by (simp add: follows_def on_connection_def connection_run_simps case_prod_beta)

lemma follows_idle:
  assumes "connection_event e now (eng_connection self) = ([], eng_connection self)" "\<not> waits e self" "dispatched effects = []"
  shows "follows e now self (effects, self)"
  using assms by (simp add: follows_def connection_run_simps)

lemma follows_h3: "follows e now self p \<Longrightarrow> calm f \<Longrightarrow> follows e now self (with_h3 p f)"
  by (auto simp: follows_def calm_def with_h3_def case_prod_beta)

lemma follows_create: "is_create e \<Longrightarrow> follows e now self (create_or_wait e now self)"
  using follows_connection [of e self now]
  by (auto simp: create_or_wait_def waits_def) (auto simp: follows_def connection_run_simps waits_def)

lemma failed_dispatched:
  assumes "list_all is_create (eng_pending_user_events self)"
  shows "dispatched (fst (fail_pending_user_events self ec m)) = submits_all (eng_pending_user_events self)"
proof -
  have "list_all is_create es \<Longrightarrow>
      dispatched (concat (map (\<lambda>event. case user_create_request event of None \<Rightarrow> []
        | Some r \<Rightarrow> [NotifyRequestFailed r ErrorSource.Connection ec m]) es)) = submits_all es" for es
    by (induction es) (auto simp: create_submits)
  with assms show ?thesis by (simp add: fail_pending_user_events_def)
qed

lemma follows_closing:
  assumes "follows e now self p" "list_all is_create (eng_pending_user_events (snd p))"
  shows "follows e now self (closing p reason)"
  using assms failed_dispatched [OF assms(2)]
  by (auto simp: follows_def closing_def fail_pending_user_events_def case_prod_beta)

lemma calm_h3 [simp]:
  "calm (\<lambda>h. cleanup_stream q h sid)" "calm (\<lambda>h. stop_request_stream q h sid)"
  "calm (\<lambda>h. (resume_request_stream h sid, h))" "calm (\<lambda>h. bind_connect_stream h sid)"
  by (auto simp: calm_def stop_request_stream_def resume_request_stream_def bind_connect_stream_def h3_stream_default_def
      case_prod_beta split: option.split)

lemma calm_local_streams [simp]: "calm (\<lambda>h. bind_local_streams h x y z)"
proof -
  have set: "unblocked (snd (set_local_stream_ids h x y z)) = unblocked h
      \<and> h3_settings_received (snd (set_local_stream_ids h x y z)) = h3_settings_received h" for h :: "('a, 'b) H3"
    by (simp add: set_local_stream_ids_def unblocked_def)
  have "unblocked (snd (initialize_local_streams h x y z d)) = unblocked h
      \<and> h3_settings_received (snd (initialize_local_streams h x y z d)) = h3_settings_received h" for h :: "('a, 'b) H3" and d
    using set [of h] by (auto simp: initialize_local_streams_def split: sum.split prod.split)
  then show ?thesis
    by (auto simp: calm_def bind_local_streams_def split: sum.splits prod.splits) (metis snd_conv)+
qed

lemma fail_local_streams_dispatched [simp]: "dispatched fail_local_streams = []"
  by (simp add: fail_local_streams_def)

lemma not_waits [simp]: "\<not> is_create e \<Longrightarrow> \<not> waits e self"
  by (simp add: waits_def)

lemma waits_pending: "follows e now self p \<Longrightarrow> list_all is_create (eng_pending_user_events self)
    \<Longrightarrow> list_all is_create (eng_pending_user_events (snd p))"
  by (auto simp: follows_def list_all_iff waits_def split: if_splits)

lemma user_create_simps [simp]:
  "is_create (UserCreateSession r a pa hs ps)" "is_create (UserCreateSessionOptimistic r a pa hs ps)" "is_create (UserCreateStream r i u)"
  by (simp_all add: user_create_request_def)

lemma engine_event_follows:
  assumes "\<not> is_h3_input e (eng_connection self)" "list_all is_create (eng_pending_user_events self)"
  shows "follows e now self (engine_event q e now self)"
proof (cases "is_create e")
  case True
  then show ?thesis
    using follows_create [OF True, of now self] by (cases rule: create_cases) (simp_all add: engine_event_def)
next
  case False
  note conn = follows_connection [OF not_waits [OF False], of now self]
  note closed = follows_closing [OF conn waits_pending [OF conn assms(2)]]
  show ?thesis
  proof (cases e)
    case (TransportResetStreamReceived sid ec)
    let ?p = "cleanup_stream q (eng_h3 self) sid"
    have "calm (\<lambda>h. cleanup_stream q h sid)" by simp
    with False TransportResetStreamReceived conn show ?thesis
      by (auto simp: engine_event_def with_h3_def on_connection_def case_prod_beta follows_def calm_def connection_run_simps)
  next
    case (InternalBindH3LocalStreams x y z)
    with follows_h3 [OF follows_idle [of e now self "[]"]] False show ?thesis by (simp add: engine_event_def)
  next
    case InternalFailH3LocalStreams
    with follows_idle [of e now self fail_local_streams] False show ?thesis by (simp add: engine_event_def)
  qed (use False conn closed in \<open>simp_all add: engine_event_def Let_def follows_h3 user_create_request_def\<close>)
qed

subsection \<open>One turn\<close>

text \<open>
  The engine with events still queued: the connection and its tables are consistent, only user
  events wait, no header block is blocked, SETTINGS are reported at most once, and every request is
  in one place only.
\<close>

definition eng_inv :: "ProtocolEvent list \<Rightarrow> ('d, 'e) WebTransportEngine \<Rightarrow> bool" where
  "eng_inv queue self \<longleftrightarrow>
    con_inv (eng_connection self) \<and> list_all is_create (eng_pending_user_events self) \<and> unblocked (eng_h3 self)
    \<and> settings_count queue + of_bool (con_peer_settings_received (eng_connection self))
        \<le> (of_bool (h3_settings_received (eng_h3 self)) :: nat)
    \<and> (\<forall>r. count (eng_holds self + mset (submits_all queue)) r \<le> 1)
    \<and> (\<forall>r \<in> set (submits_all (eng_pending_user_events self @ filter is_create queue)). r |\<notin>| bound_requests (eng_connection self))"

lemma eng_inv_I:
  assumes "con_inv (eng_connection self)" "list_all is_create (eng_pending_user_events self)" "unblocked (eng_h3 self)"
    "settings_count queue + of_bool (con_peer_settings_received (eng_connection self)) \<le> (of_bool (h3_settings_received (eng_h3 self)) :: nat)"
    "\<And>r. count (eng_holds self + mset (submits_all queue)) r \<le> 1"
    "\<And>r. r \<in> set (submits_all (eng_pending_user_events self @ filter is_create queue)) \<Longrightarrow> r |\<notin>| bound_requests (eng_connection self)"
  shows "eng_inv queue self"
  using assms by (simp add: eng_inv_def)

lemma settings_not_create [simp]: "user_create_request (H3SettingsReceived s) = None"
  by (simp add: user_create_request_def)

lemma create_settings_count: "list_all is_create events \<Longrightarrow> settings_count events = 0"
  by (induction events) auto

lemma create_event_ok:
  assumes "eng_inv (e # queue) self" "is_create e"
  shows "event_ok (e, now) (eng_connection self)"
proof -
  let ?c = "eng_connection self"
  obtain r where r: "user_create_request e = Some r" "event_submits e = [r]" using assms(2) create_submits by blast
  have "r |\<notin>| bound_requests ?c" using assms r by (simp add: eng_inv_def)
  moreover have "count (con_holds ?c) r = 0"
    using assms(1) r by (auto simp: eng_inv_def eng_holds_def dest!: spec [of _ r])
  then have "r |\<notin>| fmdom (con_session_requests ?c)"
    by (auto simp: con_holds_def sorted_keys_def not_in_iff [symmetric])
  ultimately have "new_request ?c r" by (simp add: new_request_def)
  with assms(2) r(1) show ?thesis
    by (cases rule: create_cases) (simp_all add: event_ok_def user_create_request_def)
qed

lemma settings_event_ok:
  assumes "eng_inv (H3SettingsReceived settings # queue) self"
  shows "\<not> con_peer_settings_received (eng_connection self)"
proof
  assume "con_peer_settings_received (eng_connection self)"
  with assms have "Suc (Suc (settings_count queue)) \<le> (of_bool (h3_settings_received (eng_h3 self)) :: nat)"
    by (simp add: eng_inv_def)
  also have "\<dots> \<le> 1" by simp
  finally show False by simp
qed

lemma plain_event_ok:
  assumes "eng_inv (e # queue) self" "is_plain_event e"
  shows "event_ok (e, now) (eng_connection self)"
proof (cases "e \<in> range H3SettingsReceived")
  case True
  with assms(1) show ?thesis by (auto simp: event_ok_def dest: settings_event_ok)
next
  case False
  with assms(2) show ?thesis by (cases e) (auto simp: event_ok_def is_plain_event_def is_h3_event_def)
qed

text \<open>A turn on an event that does not go to the HTTP/3 layer.\<close>

lemma connection_run_ok:
  assumes "con_inv (eng_connection self)" "\<not> waits e self \<Longrightarrow> event_ok (e, now) (eng_connection self)"
  shows "calls_ok connection_step event_ok (eng_connection self) (turn_calls e now self)"
    and "con_keeps (eng_connection self) (if waits e self then {#} else mset (event_submits e)) (connection_run e now self)"
  using assms connection_step_keeps [of "eng_connection self" e now]
  by (simp_all add: turn_calls_def connection_run_simps con_keeps_refl)

lemma follows_books:
  assumes "follows e now self p"
    and "con_keeps (eng_connection self) (if waits e self then {#} else mset (event_submits e)) (connection_run e now self)"
  shows "mset (dispatched (fst p)) + eng_holds (snd p) = eng_holds self + mset (event_submits e)"
proof -
  let ?run = "connection_run e now self"
  let ?P = "mset (submits_all (eng_pending_user_events self))" and ?S = "mset (event_submits e)"
  have p: "mset (dispatched (fst p)) + mset (submits_all (eng_pending_user_events (snd p)))
      = mset (dispatched (fst ?run)) + ?P + (if waits e self then ?S else {#})"
    and d: "eng_connection (snd p) = snd ?run" using assms(1) by (simp_all add: follows_def)
  have run: "mset (dispatched (fst ?run)) + con_holds (snd ?run) = con_holds (eng_connection self) + (if waits e self then {#} else ?S)"
    using assms(2) by (simp add: con_keeps_def con_moves_def)
  let ?P' = "mset (submits_all (eng_pending_user_events (snd p)))"
  have "mset (dispatched (fst p)) + eng_holds (snd p) = (mset (dispatched (fst p)) + ?P') + con_holds (snd ?run)"
    unfolding eng_holds_def d by (simp only: ac_simps)
  also have "\<dots> = (mset (dispatched (fst ?run)) + con_holds (snd ?run)) + (?P + (if waits e self then ?S else {#}))"
    unfolding p by (simp only: ac_simps)
  also have "\<dots> = eng_holds self + ?S"
    unfolding run eng_holds_def by (simp add: ac_simps)
  finally show ?thesis .
qed

lemma follows_bound:
  assumes inv: "eng_inv (e # queue) self" and d: "eng_connection (snd p) = snd (connection_run e now self)"
    and ok: "\<not> waits e self \<Longrightarrow> event_ok (e, now) (eng_connection self)"
    and r: "r \<in> set (submits_all (eng_pending_user_events self @ filter is_create (e # queue)))"
    and new: "\<not> waits e self \<Longrightarrow> r \<in> set (submits_all (eng_pending_user_events self @ filter is_create queue))"
  shows "r |\<notin>| bound_requests (eng_connection (snd p))"
proof -
  let ?c = "eng_connection self"
  have old: "r |\<notin>| bound_requests ?c" using inv r unfolding eng_inv_def by auto
  show ?thesis
  proof (cases "waits e self")
    case True
    with d old show ?thesis by (simp add: connection_run_simps)
  next
    case False
    have "r |\<notin>| event_binds e"
    proof
      assume "r |\<in>| event_binds e"
      then obtain sid where e: "e = InternalBindH3ConnectStream r sid" by (auto simp: event_binds_def split: ProtocolEvent.splits)
      have "r |\<in>| fmdom (con_session_requests ?c)" using ok [OF False] e by (simp add: event_ok_def connecting_def)
      then have "r \<in># con_holds ?c" by (simp add: con_holds_def sorted_keys_def)
      then have "1 \<le> count (con_holds ?c) r" by (simp add: Suc_le_eq)
      moreover have "r \<in> set (submits_all (eng_pending_user_events self)) \<or> r \<in> set (submits_all queue)"
        using new [OF False] by auto
      then have "1 \<le> count (mset (submits_all (eng_pending_user_events self))) r + count (mset (submits_all queue)) r"
        by (metis Suc_le_eq One_nat_def add_gr_0 count_greater_zero_iff set_mset_mset)
      moreover have "count (eng_holds self + mset (submits_all (e # queue))) r \<le> 1"
        using inv unfolding eng_inv_def by blast
      ultimately show False unfolding eng_holds_def map_append list.map concat.simps mset_append count_union by linarith
    qed
    with event_bound_requests [of e now ?c] old d False show ?thesis by (auto simp: connection_run_simps)
  qed
qed

lemma follows_inv:
  assumes inv: "eng_inv (e # queue) self" and f: "follows e now self p"
    and ok: "\<not> waits e self \<Longrightarrow> event_ok (e, now) (eng_connection self)"
  shows "mset (dispatched (fst p)) + eng_holds (snd p) = eng_holds self + mset (event_submits e)"
    and "eng_inv queue (snd p)"
proof -
  let ?c = "eng_connection self" and ?d = "eng_connection (snd p)"
  have con: "con_inv ?c" using inv by (simp add: eng_inv_def)
  note keeps = connection_run_ok(2) [OF con ok]
  have d: "?d = snd (connection_run e now self)" using f by (simp add: follows_def)
  show books: "mset (dispatched (fst p)) + eng_holds (snd p) = eng_holds self + mset (event_submits e)"
    by (rule follows_books [OF f keeps])
  have pending: "set (eng_pending_user_events (snd p)) \<subseteq> set (eng_pending_user_events self) \<union> (if waits e self then {e} else {})"
    using f by (simp add: follows_def)
  show "eng_inv queue (snd p)"
  proof (rule eng_inv_I)
    show "con_inv ?d" using keeps d by (simp add: con_keeps_def)
    show "list_all is_create (eng_pending_user_events (snd p))"
      using waits_pending [OF f] inv by (simp add: eng_inv_def)
    show "unblocked (eng_h3 (snd p))" using f inv by (simp add: follows_def eng_inv_def)
    have "of_bool (con_peer_settings_received ?d)
        \<le> of_bool (e \<in> range H3SettingsReceived) + (of_bool (con_peer_settings_received ?c) :: nat)"
      using event_settings [of e now ?c] by (cases "waits e self"; cases "e \<in> range H3SettingsReceived") (simp_all add: d connection_run_simps)
    then show "settings_count queue + of_bool (con_peer_settings_received ?d) \<le> (of_bool (h3_settings_received (eng_h3 (snd p))) :: nat)"
      using inv f by (simp add: eng_inv_def follows_def)
    fix r
    have "eng_holds (snd p) + mset (submits_all queue) \<subseteq># eng_holds self + mset (submits_all (e # queue))"
      using books by (simp add: add.assoc [symmetric]) (metis mset_subset_eq_add_right mset_subset_eq_mono_add_right_cancel)
    then have "count (eng_holds (snd p) + mset (submits_all queue)) r \<le> count (eng_holds self + mset (submits_all (e # queue))) r"
      by (rule mset_subset_eq_count)
    also have "\<dots> \<le> 1" using inv unfolding eng_inv_def by blast
    finally show "count (eng_holds (snd p) + mset (submits_all queue)) r \<le> 1" .
    assume "r \<in> set (submits_all (eng_pending_user_events (snd p) @ filter is_create queue))"
    then show "r |\<notin>| bound_requests ?d"
      by (intro follows_bound [OF inv d ok]) (use pending in \<open>auto simp: waits_def split: if_splits\<close>)
  qed
qed

end
