(* ===== verification/Engine_Loop.thy ===== *)
theory Engine_Loop
  imports Engine_Runs
begin

text \<open>
  The loop of the engine: an event and all it causes are processed to the end, and what happens to
  the connection is a run of its own.
\<close>

subsection \<open>One turn\<close>

lemma engine_turn_connection:
  assumes inv: "eng_inv (e # queue) self" and other: "\<not> is_h3_input e (eng_connection self)"
    and ok: "\<not> waits e self \<Longrightarrow> event_ok (e, now) (eng_connection self)"
  obtains events effects self' where "engine_turn q e now self = Some (events, effects, self')"
    "list_all is_create events" "is_create e \<Longrightarrow> events = []" "eng_inv (events @ queue) self'"
    "calls_ok connection_step event_ok (eng_connection self) (turn_calls e now self)"
    "eng_connection self' = snd (connection_run e now self)" "subseq (fst (connection_run e now self)) effects"
    "mset (dispatched effects) + (eng_holds self' + mset (submits_all events)) = eng_holds self + mset (event_submits e)"
proof -
  let ?p = "engine_event q e now self"
  have pending: "list_all is_create (eng_pending_user_events self)" and con: "con_inv (eng_connection self)"
    using inv by (simp_all add: eng_inv_def)
  note f = engine_event_follows [OF other pending, of now q]
  note books = follows_inv(1) [OF inv f ok] and after = follows_inv(2) [OF inv f ok]
  note calls = connection_run_ok(1) [OF con ok]
  obtain effects s where p: "?p = (effects, s)" by fastforce
  show thesis
  proof (cases "replays_pending e (eng_connection s)")
    case True
    let ?s = "s\<lparr>eng_pending_user_events := []\<rparr>" and ?events = "eng_pending_user_events s"
    have create: "list_all is_create ?events" using after p by (simp add: eng_inv_def)
    have "eng_inv (?events @ queue) ?s"
      using after p create create_settings_count [OF create]
      by (auto simp: eng_inv_def eng_holds_def add.assoc list_all_iff)
    moreover have "\<not> is_create e"
      using True by (auto simp: replays_pending_def user_create_request_def split: ProtocolEvent.splits)
    moreover have "eng_holds ?s + mset (submits_all ?events) = eng_holds s" by (simp add: eng_holds_def)
    moreover have "engine_turn q e now self = Some (?events, effects, ?s)" using other p True by (simp add: engine_turn_def)
    ultimately show thesis
      using that [of ?events effects ?s] create calls books f p by (simp add: follows_def)
  next
    case False
    then have "engine_turn q e now self = Some ([], effects, s)" using other p by (simp add: engine_turn_def)
    then show thesis
      using that [of "[]" effects s] calls books f p after by (simp add: follows_def)
  qed
qed

subsection \<open>The loop\<close>

text \<open>The queue is processed to its end: the connection has made an admissible run, whose effects
  are among those of the engine, and no request is lost or answered twice.\<close>

definition engine_run ::
    "('d, 'e) Qpack \<Rightarrow> f64 \<Rightarrow> ProtocolEvent list \<Rightarrow> ('d, 'e) WebTransportEngine \<Rightarrow> effects \<Rightarrow> ('d, 'e) WebTransportEngine \<Rightarrow> bool" where
  "engine_run q now queue self es self' \<longleftrightarrow>
    engine_loop q now (queue, self) = Some (es, self') \<and> eng_inv [] self'
    \<and> mset (dispatched es) + eng_holds self' = eng_holds self + mset (submits_all queue)
    \<and> (\<exists>calls. calls_ok connection_step event_ok (eng_connection self) calls
        \<and> eng_connection self' = snd (run_calls connection_step (eng_connection self) calls)
        \<and> subseq (fst (run_calls connection_step (eng_connection self) calls)) es)"

lemma engine_loop_Nil [simp]: "engine_loop q now ([], self) = Some ([], self)"
  by (subst engine_loop.simps) simp

lemma engine_loop_Cons:
  "engine_loop q now (e # queue, self) =
    Option.bind (engine_turn q e now self) (\<lambda>(events, effects, self).
      Option.bind (engine_loop q now (events @ queue, self)) (\<lambda>(more, self). Some (effects @ more, self)))"
  by (subst engine_loop.simps) simp

lemma engine_run_Nil: "eng_inv [] self \<Longrightarrow> engine_run q now [] self [] self"
  unfolding engine_run_def by (auto intro: exI [of _ "[]"])

lemma engine_run_Cons:
  assumes turn: "engine_turn q e now self = Some (events, effects, s)"
    and calls: "calls_ok connection_step event_ok (eng_connection self) calls"
      "eng_connection s = snd (run_calls connection_step (eng_connection self) calls)"
      "subseq (fst (run_calls connection_step (eng_connection self) calls)) effects"
    and books: "mset (dispatched effects) + (eng_holds s + mset (submits_all events)) = eng_holds self + mset (event_submits e)"
    and rest: "engine_run q now (events @ queue) s es self'"
  shows "engine_run q now (e # queue) self (effects @ es) self'"
proof -
  obtain more where more: "calls_ok connection_step event_ok (eng_connection s) more"
      "eng_connection self' = snd (run_calls connection_step (eng_connection s) more)"
      "subseq (fst (run_calls connection_step (eng_connection s) more)) es"
    using rest by (auto simp: engine_run_def)
  have "calls_ok connection_step event_ok (eng_connection self) (calls @ more)
      \<and> eng_connection self' = snd (run_calls connection_step (eng_connection self) (calls @ more))
      \<and> subseq (fst (run_calls connection_step (eng_connection self) (calls @ more))) (effects @ es)"
    using calls more by (simp add: calls_ok_append run_calls_append list_emb_append_mono)
  moreover have "mset (dispatched (effects @ es)) + eng_holds self' = eng_holds self + mset (submits_all (e # queue))"
  proof -
    have "mset (dispatched es) + eng_holds self' = eng_holds s + mset (submits_all (events @ queue))"
      using rest by (simp only: engine_run_def)
    then have "mset (dispatched effects) + (mset (dispatched es) + eng_holds self')
        = (mset (dispatched effects) + (eng_holds s + mset (submits_all events))) + mset (submits_all queue)"
      by (simp add: add.assoc)
    then show ?thesis unfolding books by (simp add: add.assoc)
  qed
  ultimately show ?thesis
    using turn rest unfolding engine_run_def engine_loop_Cons by auto
qed

lemma engine_run_turn:
  assumes inv: "eng_inv (e # queue) self" and other: "\<not> is_h3_input e (eng_connection self)"
    and ok: "\<not> waits e self \<Longrightarrow> event_ok (e, now) (eng_connection self)"
    and rest: "\<And>events s. list_all is_create events \<Longrightarrow> (is_create e \<Longrightarrow> events = []) \<Longrightarrow> eng_inv (events @ queue) s
      \<Longrightarrow> \<exists>es self'. engine_run q now (events @ queue) s es self'"
  shows "\<exists>es self'. engine_run q now (e # queue) self es self'"
proof -
  obtain events effects s where turn: "engine_turn q e now self = Some (events, effects, s)"
    "list_all is_create events" "is_create e \<Longrightarrow> events = []" "eng_inv (events @ queue) s"
    "calls_ok connection_step event_ok (eng_connection self) (turn_calls e now self)"
    "eng_connection s = snd (connection_run e now self)" "subseq (fst (connection_run e now self)) effects"
    "mset (dispatched effects) + (eng_holds s + mset (submits_all events)) = eng_holds self + mset (event_submits e)"
    using engine_turn_connection [OF inv other ok, where q = q] by blast
  obtain es self' where "engine_run q now (events @ queue) s es self'" using rest [OF turn(2-4)] by blast
  from engine_run_Cons [OF turn(1,5-7) [unfolded connection_run_def] turn(8) this] show ?thesis by blast
qed

text \<open>Events that follow from others are processed to the end: each of them causes no more than the
  waiting user events, and those cause none.\<close>

lemma later_events_run:
  assumes "eng_inv queue self" "list_all (\<lambda>e. is_plain_event e \<or> is_create e) queue"
  shows "\<exists>es self'. engine_run q now queue self es self'"
  using assms
proof (induction "(length (filter (\<lambda>e. \<not> is_create e) queue), length queue)" arbitrary: queue self
    rule: wf_induct_rule [OF wf_lex_prod [OF wf_less_than wf_less_than]])
  case 1
  show ?case
  proof (cases queue)
    case Nil
    with 1(2) engine_run_Nil show ?thesis by blast
  next
    case (Cons e rest)
    have e: "is_plain_event e \<or> is_create e" and later: "list_all (\<lambda>e. is_plain_event e \<or> is_create e) rest"
      using 1(3) Cons by simp_all
    have "\<not> is_h3_input e (eng_connection self)"
      using e by (cases e) (auto simp: is_h3_input_def is_plain_event_def is_h3_event_def user_create_request_def)
    moreover have "event_ok (e, now) (eng_connection self)"
      using e plain_event_ok create_event_ok 1(2) Cons by blast
    ultimately show ?thesis
      unfolding Cons
    proof (rule engine_run_turn [OF 1(2) [unfolded Cons]])
      fix events and s :: "('a, 'b) WebTransportEngine"
      assume create: "list_all is_create events" and "is_create e \<Longrightarrow> events = []" and inv: "eng_inv (events @ rest) s"
      moreover have "filter (\<lambda>e. \<not> is_create e) events = []" using create by (auto simp: list_all_iff filter_empty_conv)
      ultimately have "((length (filter (\<lambda>e. \<not> is_create e) (events @ rest)), length (events @ rest)),
          (length (filter (\<lambda>e. \<not> is_create e) queue), length queue)) \<in> less_than <*lex*> less_than"
        unfolding Cons by (cases "is_create e") auto
      moreover have "list_all (\<lambda>e. is_plain_event e \<or> is_create e) (events @ rest)"
        using create later by (auto simp: list_all_iff)
      ultimately show "\<exists>es self'. engine_run q now (events @ rest) s es self'"
        using 1(1) inv by blast
    qed
  qed
qed

subsection \<open>Admissible events\<close>

text \<open>
  The contract of the engine.  Events of the HTTP/3 layer come from that layer only; data on a
  stream that no session has is data of a request stream, or of a stream the peer has just opened;
  a stream does not end inside a DATA frame; what reaches the connection directly respects its
  contract; and request identifiers are new.
\<close>

definition stream_data_ok :: "ProtocolEvent \<Rightarrow> ('d, 'e) WebTransportEngine \<Rightarrow> bool" where
  "stream_data_ok e self =
    (case e of
       TransportStreamDataReceived sid d f \<Rightarrow>
         carries_requests (eng_h3 self) sid
         \<or> is_fresh_stream (eng_connection self) sid \<and> is_peer_initiated_stream sid (con_is_client (eng_connection self))
     | _ \<Rightarrow> True)"

definition engine_ok :: "ProtocolEvent \<times> f64 \<Rightarrow> ('d, 'e) WebTransportEngine \<Rightarrow> bool" where
  "engine_ok = (\<lambda>(e, now) self.
    \<not> is_h3_event e
    \<and> (if is_h3_input e (eng_connection self) then \<not> event_cuts_data (eng_h3 self) e \<and> stream_data_ok e self
       else event_ok (e, now) (eng_connection self))
    \<and> list_all (\<lambda>r. r \<notin># eng_holds self \<and> r |\<notin>| bound_requests (eng_connection self)) (event_submits e))"

definition engine_step ::
    "('d, 'e) Qpack \<Rightarrow> ProtocolEvent \<times> f64 \<Rightarrow> ('d, 'e) WebTransportEngine \<Rightarrow> effects \<times> ('d, 'e) WebTransportEngine" where
  "engine_step q = (\<lambda>(e, now) self. case handle_event q e now self of None \<Rightarrow> ([], self) | Some p \<Rightarrow> p)"

lemma submits_short: "length (event_submits e) \<le> 1"
  by (cases e) simp_all

lemma plain_submits: "list_all is_plain_event events \<Longrightarrow> submits_all events = []"
proof (induction events)
  case (Cons e events)
  then have "event_submits e = []" by (cases e) (auto simp: is_plain_event_def is_h3_event_def)
  with Cons show ?case by simp
qed simp

lemma plain_not_create: "is_plain_event e \<Longrightarrow> \<not> is_create e"
  by (cases e) (auto simp: is_plain_event_def is_h3_event_def user_create_request_def)

lemma engine_ok_inv:
  assumes "eng_inv [] self" "engine_ok (e, now) self"
  shows "eng_inv [e] self"
proof (rule eng_inv_I)
  show "con_inv (eng_connection self)" "list_all is_create (eng_pending_user_events self)" "unblocked (eng_h3 self)"
    using assms(1) by (simp_all add: eng_inv_def)
  have "e \<notin> range H3SettingsReceived" using assms(2) by (auto simp: engine_ok_def)
  then show "settings_count [e] + of_bool (con_peer_settings_received (eng_connection self))
      \<le> (of_bool (h3_settings_received (eng_h3 self)) :: nat)"
    using assms(1) by (simp add: eng_inv_def)
  fix r
  have new: "r \<in> set (event_submits e) \<Longrightarrow> count (eng_holds self) r = 0 \<and> r |\<notin>| bound_requests (eng_connection self)"
    using assms(2) by (auto simp: engine_ok_def list_all_iff not_in_iff)
  have short: "count (mset (event_submits e)) r \<le> 1"
    using submits_short [of e] by (cases "event_submits e") auto
  have held: "count (eng_holds self) r \<le> 1" using assms(1) by (simp add: eng_inv_def)
  have "count (eng_holds self) r + count (mset (event_submits e)) r \<le> 1"
  proof (cases "r \<in> set (event_submits e)")
    case False
    then have "count (mset (event_submits e)) r = 0" by (simp add: count_eq_zero_iff)
    with held show ?thesis by linarith
  qed (use new short in simp)
  then show "count (eng_holds self + mset (submits_all [e])) r \<le> 1" by simp
  assume "r \<in> set (submits_all (eng_pending_user_events self @ filter is_create [e]))"
  with new assms(1) show "r |\<notin>| bound_requests (eng_connection self)"
    by (auto simp: eng_inv_def split: if_splits)
qed

text \<open>What the HTTP/3 layer makes of an event.\<close>

lemma h3_turn:
  assumes inv: "eng_inv [e] self" and ok: "engine_ok (e, now) self" and h3: "is_h3_input e (eng_connection self)" and "never_blocks q"
  obtains events effects s where "engine_turn q e now self = Some (events, effects, s)" "eng_inv events s"
    "eng_connection s = eng_connection self" "dispatched effects = []" "eng_holds s = eng_holds self" "submits_all events = []"
    "list_all is_plain_event events \<or> (\<exists>i sid. events = [H3WebTransportStreamOpened i sid]
      \<and> event_ok (H3WebTransportStreamOpened i sid, now) (eng_connection self))"
proof -
  have u: "unblocked (eng_h3 self)" using inv by (simp add: eng_inv_def)
  have "\<not> event_cuts_data (eng_h3 self) e" and data: "stream_data_ok e self" using ok h3 by (simp_all add: engine_ok_def)
  then obtain out h' where t: "handle_transport_event q (eng_h3 self) e (eng_connection self) = Some (out, h')" "unblocked h'"
    using handle_transport_event_ok [OF assms(4) u] by metis
  obtain events effects where out: "out = (events, effects)" by fastforce
  let ?s = "self\<lparr>eng_h3 := h'\<rparr>"
  note t = t [unfolded out]
  note clean = handle_transport_event_clean [OF t(1) u] and paid = handle_transport_event_paid [OF t(1) u]
  have opened: "list_all is_plain_event events \<or> (\<exists>i sid. events = [H3WebTransportStreamOpened i sid]
      \<and> event_ok (H3WebTransportStreamOpened i sid, now) (eng_connection self))"
    using clean(1) data by (auto simp: stream_data_ok_def event_ok_def)
  have none: "submits_all events = []" "filter is_create events = []"
    using opened plain_submits plain_not_create by (auto simp: list_all_iff filter_empty_conv user_create_request_def)
  have "settings_count [e] + of_bool (con_peer_settings_received (eng_connection self)) \<le> (of_bool (h3_settings_received (eng_h3 self)) :: nat)"
    and count: "count (eng_holds self + mset (submits_all [e])) r \<le> 1" for r
    using inv by (simp_all only: eng_inv_def)
  then have settings: "settings_count events + of_bool (con_peer_settings_received (eng_connection self)) \<le> (of_bool (h3_settings_received h') :: nat)"
    using paid by linarith
  have same: "eng_holds ?s = eng_holds self" by (simp add: eng_holds_def)
  have "event_submits e = []" using h3 by (cases e) (auto simp: is_h3_input_def)
  then have books: "count (eng_holds ?s + mset (submits_all events)) r \<le> 1" for r
    using count [of r] unfolding same none(1) by simp
  have "eng_inv events ?s"
  proof (rule eng_inv_I)
    fix r
    show "count (eng_holds ?s + mset (submits_all events)) r \<le> 1" by (rule books)
  qed (use inv settings none t(2) in \<open>auto simp: eng_inv_def\<close>)
  moreover have "engine_turn q e now self = Some (events, effects, ?s)"
    using h3 t by (simp add: engine_turn_def)
  ultimately show thesis
    using that [of events effects ?s] clean(2) none(1) opened by (simp add: eng_holds_def)
qed

lemma handle_event_run:
  assumes "eng_inv [] self" "engine_ok (e, now) self" "never_blocks q"
  shows "\<exists>es self'. engine_run q now [e] self es self'"
proof -
  note inv = engine_ok_inv [OF assms(1,2)]
  show ?thesis
  proof (cases "is_h3_input e (eng_connection self)")
    case True
    obtain events effects s where t: "engine_turn q e now self = Some (events, effects, s)" "eng_inv events s"
      "eng_connection s = eng_connection self" "dispatched effects = []" "eng_holds s = eng_holds self" "submits_all events = []"
      "list_all is_plain_event events \<or> (\<exists>i sid. events = [H3WebTransportStreamOpened i sid]
        \<and> event_ok (H3WebTransportStreamOpened i sid, now) (eng_connection self))"
      using h3_turn [OF inv assms(2) True assms(3)] by blast
    have none: "event_submits e = []" using True by (cases e) (auto simp: is_h3_input_def)
    have "\<exists>es self'. engine_run q now events s es self'"
      using t(7)
    proof
      assume "list_all is_plain_event events"
      then show ?thesis by (intro later_events_run [OF t(2)]) (simp add: list_all_iff)
    next
      assume "\<exists>i sid. events = [H3WebTransportStreamOpened i sid] \<and> event_ok (H3WebTransportStreamOpened i sid, now) (eng_connection self)"
      then obtain i sid where o: "events = [H3WebTransportStreamOpened i sid]" "event_ok (H3WebTransportStreamOpened i sid, now) (eng_connection s)"
        using t(3) by auto
      show ?thesis unfolding o(1)
        by (rule engine_run_turn [OF t(2) [unfolded o(1)] _ o(2)])
           (auto simp: is_h3_input_def list_all_iff intro: later_events_run)
    qed
    then obtain es self' where "engine_run q now (events @ []) s es self'" by auto
    from engine_run_Cons [OF t(1) _ _ _ _ this, of "[]"] t(3-6) none show ?thesis by auto
  next
    case False
    then have "event_ok (e, now) (eng_connection self)" using assms(2) by (simp add: engine_ok_def)
    then show ?thesis
      by (rule engine_run_turn [OF inv False]) (auto simp: list_all_iff intro: later_events_run)
  qed
qed

subsection \<open>The engine as a machine\<close>

lemma handle_event_step:
  assumes "eng_inv [] self" "engine_ok (e, now) self" "never_blocks q"
  shows "handle_event q e now self = Some (engine_step q (e, now) self)"
    and "engine_run q now [e] self (fst (engine_step q (e, now) self)) (snd (engine_step q (e, now) self))"
  using handle_event_run [OF assms] by (auto simp: engine_step_def handle_event_def engine_run_def)

interpretation engine_requests: request_machine "engine_step q" engine_ok "\<lambda>self. never_blocks q \<and> eng_inv [] self"
    step_submits dispatched eng_holds for q :: "('d, 'e) Qpack"
proof unfold_locales
  fix es fs and c :: "ProtocolEvent \<times> f64" and s :: "('d, 'e) WebTransportEngine"
  show "dispatched (es @ fs) = dispatched es @ dispatched fs" "dispatched [] = []" by simp_all
  obtain e now where c: "c = (e, now)" by fastforce
  assume "never_blocks q \<and> eng_inv [] s" "engine_ok c s"
  then show "never_blocks q \<and> eng_inv [] (snd (engine_step q c s))"
    "mset (dispatched (fst (engine_step q c s))) + eng_holds (snd (engine_step q c s)) = eng_holds s + mset (step_submits c)"
    using handle_event_step(2) [of s e now q] c by (simp_all add: engine_run_def step_submits_def)
qed

text \<open>A sequence of events, handled one after the other.\<close>

fun handle_events ::
    "('d, 'e) Qpack \<Rightarrow> ('d, 'e) WebTransportEngine \<Rightarrow> (ProtocolEvent \<times> f64) list \<Rightarrow> (effects \<times> ('d, 'e) WebTransportEngine) option" where
  "handle_events q self [] = Some ([], self)"
| "handle_events q self ((e, now) # events) =
    Option.bind (handle_event q e now self) (\<lambda>(effects, self).
      Option.bind (handle_events q self events) (\<lambda>(more, self). Some (effects @ more, self)))"

lemma handle_events_run:
  assumes "eng_inv [] self" "never_blocks q" "calls_ok (engine_step q) engine_ok self events"
  shows "handle_events q self events = Some (run_calls (engine_step q) self events)
    \<and> (\<exists>calls. calls_ok connection_step event_ok (eng_connection self) calls
      \<and> eng_connection (snd (run_calls (engine_step q) self events)) = snd (run_calls connection_step (eng_connection self) calls)
      \<and> subseq (fst (run_calls connection_step (eng_connection self) calls)) (fst (run_calls (engine_step q) self events)))"
  using assms
proof (induction events arbitrary: self)
  case Nil
  then show ?case by (auto intro: exI [of _ "[]"])
next
  case (Cons ev events)
  obtain e now where ev: "ev = (e, now)" by fastforce
  let ?c = "eng_connection self"
  obtain fx s where step: "engine_step q (e, now) self = (fx, s)" by fastforce
  have ok: "engine_ok (e, now) self" "calls_ok (engine_step q) engine_ok s events" using Cons.prems(3) ev step by simp_all
  note first = handle_event_step [OF Cons.prems(1) ok(1) Cons.prems(2), unfolded step fst_conv snd_conv]
  have "eng_inv [] s" using first(2) by (simp add: engine_run_def)
  note rest = Cons.IH [OF this Cons.prems(2) ok(2)]
  obtain calls where calls: "calls_ok connection_step event_ok ?c calls" "eng_connection s = snd (run_calls connection_step ?c calls)"
      "subseq (fst (run_calls connection_step ?c calls)) fx"
    using first(2) by (auto simp: engine_run_def)
  obtain more where more: "calls_ok connection_step event_ok (eng_connection s) more"
      "eng_connection (snd (run_calls (engine_step q) s events)) = snd (run_calls connection_step (eng_connection s) more)"
      "subseq (fst (run_calls connection_step (eng_connection s) more)) (fst (run_calls (engine_step q) s events))"
    using rest by blast
  have "calls_ok connection_step event_ok ?c (calls @ more)
      \<and> eng_connection (snd (run_calls (engine_step q) self (ev # events))) = snd (run_calls connection_step ?c (calls @ more))
      \<and> subseq (fst (run_calls connection_step ?c (calls @ more))) (fst (run_calls (engine_step q) self (ev # events)))"
    using calls more ev step by (simp add: calls_ok_append run_calls_append list_emb_append_mono)
  moreover have "run_calls (engine_step q) self (ev # events)
      = (fx @ fst (run_calls (engine_step q) s events), snd (run_calls (engine_step q) s events))"
    using ev step by (intro prod_eqI) simp_all
  then have "handle_events q self (ev # events) = Some (run_calls (engine_step q) self (ev # events))"
    using first(1) rest ev by (simp add: case_prod_beta)
  ultimately show ?case by blast
qed

end
