(* ===== verification/H3_Settings.thy ===== *)
theory H3_Settings
  imports H3_Output
begin

text \<open>
  SETTINGS on the wire: what one end encodes is what the other end parses, and both ends draw the
  same conclusions from it.
\<close>

subsection \<open>Encoding\<close>

definition present :: "(u64 \<times> u64 option) list \<Rightarrow> (u64 \<times> u64) list" where
  "present known = concat (map (\<lambda>(i, v). case v of None \<Rightarrow> [] | Some x \<Rightarrow> [(i, x)]) known)"

definition settings_entries :: "H3Settings \<Rightarrow> (u64 \<times> u64) list" where
  "settings_entries s = present (known_settings s) @ set_unknown s"

lemma present_simps [simp]:
  "present [] = []" "present ((i, None) # known) = present known" "present ((i, Some v) # known) = (i, v) # present known"
  by (simp_all add: present_def)

lemma encode_known_present: "encode_known b known = encode_unknown b (present known)"
  by (induction b known rule: encode_known.induct) (simp_all split: sum.split)

lemma encode_unknown_append:
  "encode_unknown b (es @ fs) = (case encode_unknown b es of Inl e \<Rightarrow> Inl e | Inr b \<Rightarrow> encode_unknown b fs)"
  by (induction b es rule: encode_unknown.induct) (simp_all split: sum.split)

lemma encode_settings_entries: "encode_settings s = encode_unknown [] (settings_entries s)"
  by (simp add: encode_settings_def settings_entries_def encode_known_present encode_unknown_append)

lemma put_varints_buffer:
  assumes "put_varints b v w = Inr c"
  obtains d where "put_varints [] v w = Inr d" "c = b @ d"
proof -
  obtain c1 where c1: "write_varint b v = Inr c1" "write_varint c1 w = Inr c"
    using assms by (auto simp: put_varints_def put_varint_def split: sum.splits)
  obtain d1 where d1: "write_varint [] v = Inr d1" "c1 = b @ d1"
    using c1(1) write_varint_buffer [of b v] by (auto split: sum.splits)
  obtain d2 where d2: "write_varint [] w = Inr d2" "c = c1 @ d2"
    using c1(2) write_varint_buffer [of c1 w] by (auto split: sum.splits)
  have "put_varints [] v w = Inr (d1 @ d2)"
    using d1 d2 write_varint_buffer [of d1 w] by (simp add: put_varints_def put_varint_def)
  with d1 d2 that show thesis by simp
qed

subsection \<open>Parsing\<close>

fun store_all :: "H3Settings \<Rightarrow> (u64 \<times> u64) list \<Rightarrow> H3Settings option" where
  "store_all s [] = Some s"
| "store_all s ((i, v) # es) =
    (if is_reserved_setting i then None else Option.bind (settings_store s i v) (\<lambda>s. store_all s es))"

lemma store_all_append: "store_all s (es @ fs) = Option.bind (store_all s es) (\<lambda>s. store_all s fs)"
  by (induction s es rule: store_all.induct) (simp_all split: bind_split)

lemma parse_settings_pair:
  assumes "read_pair b = Some (i, v, r)" "n < SETTINGS_ENTRIES_LIMIT" "\<not> is_reserved_setting i" "settings_store s i v = Some s'"
  shows "parse_settings_loop b s n = parse_settings_loop r s' (n + 1)"
  using assms by (subst parse_settings_loop.simps) (auto simp: read_pair_def read_varint_def [of "[]"] split: sum.splits)

lemma parse_settings_entries:
  assumes "encode_unknown b es = Inr c" "store_all s es = Some s'" "n + length es \<le> SETTINGS_ENTRIES_LIMIT"
  shows "\<exists>d. c = b @ d \<and> parse_settings_loop d s n = Inr s'"
proof -
  have "\<exists>d. c = b @ d \<and> (\<forall>r. parse_settings_loop (d @ r) s n = parse_settings_loop r s' (n + length es))"
    using assms
  proof (induction b es arbitrary: s n rule: encode_unknown.induct)
    case (2 b i v es)
    obtain c1 where c1: "put_varints b i v = Inr c1" "encode_unknown c1 es = Inr c"
      using 2(2) by (auto split: sum.splits)
    obtain d1 where d1: "put_varints [] i v = Inr d1" "c1 = b @ d1" using put_varints_buffer [OF c1(1)] by blast
    obtain s1 where s1: "\<not> is_reserved_setting i" "settings_store s i v = Some s1" "store_all s1 es = Some s'"
      using 2(3) by (auto split: if_splits bind_splits)
    obtain d where d: "c = c1 @ d" "parse_settings_loop (d @ r) s1 (n + 1) = parse_settings_loop r s' (n + 1 + length es)" for r
      using 2(1) [OF c1(1,2) s1(3), of "n + 1"] 2(4) by auto
    have "parse_settings_loop (d1 @ d @ r) s n = parse_settings_loop (d @ r) s1 (n + 1)" for r
      by (rule parse_settings_pair [OF read_pair_written [OF d1(1)] _ s1(1,2)]) (use 2(4) in simp)
    with d d1(2) show ?case by (intro exI [of _ "d1 @ d"]) simp
  qed simp
  then obtain d where "c = b @ d" "parse_settings_loop (d @ []) s n = parse_settings_loop [] s' (n + length es)" by blast
  moreover have "parse_settings_loop [] s' k = Inr s'" for k by (subst parse_settings_loop.simps) simp
  ultimately show ?thesis by simp
qed

subsection \<open>Settings that can be sent\<close>

definition known_identifiers :: "u64 list" where
  "known_identifiers = map fst (known_settings no_settings)"

definition settings_ok :: "H3Settings \<Rightarrow> bool" where
  "settings_ok s \<longleftrightarrow> distinct (map fst (set_unknown s))
    \<and> (\<forall>i \<in> set (map fst (set_unknown s)). i \<notin> set known_identifiers \<and> \<not> is_reserved_setting i)
    \<and> length (settings_entries s) \<le> SETTINGS_ENTRIES_LIMIT"

lemma store_known:
  "set_qpack_max_table_capacity s = None \<Longrightarrow> store_all s (present ((SETTINGS_QPACK_MAX_TABLE_CAPACITY, v) # known))
     = store_all (s\<lparr>set_qpack_max_table_capacity := v\<rparr>) (present known)"
  "set_max_field_section_size s = None \<Longrightarrow> store_all s (present ((SETTINGS_MAX_FIELD_SECTION_SIZE, v) # known))
     = store_all (s\<lparr>set_max_field_section_size := v\<rparr>) (present known)"
  "set_qpack_blocked_streams s = None \<Longrightarrow> store_all s (present ((SETTINGS_QPACK_BLOCKED_STREAMS, v) # known))
     = store_all (s\<lparr>set_qpack_blocked_streams := v\<rparr>) (present known)"
  "set_enable_connect_protocol s = None \<Longrightarrow> store_all s (present ((SETTINGS_ENABLE_CONNECT_PROTOCOL, v) # known))
     = store_all (s\<lparr>set_enable_connect_protocol := v\<rparr>) (present known)"
  "set_h3_datagram s = None \<Longrightarrow> store_all s (present ((SETTINGS_H3_DATAGRAM, v) # known))
     = store_all (s\<lparr>set_h3_datagram := v\<rparr>) (present known)"
  "set_wt_initial_max_data s = None \<Longrightarrow> store_all s (present ((SETTINGS_WT_INITIAL_MAX_DATA, v) # known))
     = store_all (s\<lparr>set_wt_initial_max_data := v\<rparr>) (present known)"
  "set_wt_initial_max_streams_uni s = None \<Longrightarrow> store_all s (present ((SETTINGS_WT_INITIAL_MAX_STREAMS_UNI, v) # known))
     = store_all (s\<lparr>set_wt_initial_max_streams_uni := v\<rparr>) (present known)"
  "set_wt_initial_max_streams_bidi s = None \<Longrightarrow> store_all s (present ((SETTINGS_WT_INITIAL_MAX_STREAMS_BIDI, v) # known))
     = store_all (s\<lparr>set_wt_initial_max_streams_bidi := v\<rparr>) (present known)"
  "set_wt_enabled s = None \<Longrightarrow> store_all s (present ((SETTINGS_WT_ENABLED, v) # known))
     = store_all (s\<lparr>set_wt_enabled := v\<rparr>) (present known)"
  by (cases v; cases s; simp add: settings_store_def is_reserved_setting_def const_defs)+

lemma store_known_all: "store_all no_settings (present (known_settings s)) = Some (s\<lparr>set_unknown := []\<rparr>)"
  by (cases s) (simp only: known_settings_def store_known no_settings_def H3Settings.simps H3Settings.update_convs present_simps store_all.simps)

lemma store_unknown:
  assumes "i \<notin> set known_identifiers" "i \<notin> set (map fst (set_unknown s))"
  shows "settings_store s i v = Some (s\<lparr>set_unknown := set_unknown s @ [(i, v)]\<rparr>)"
  using assms by (force simp: settings_store_def known_identifiers_def known_settings_def list_ex_iff)

lemma store_unknown_all:
  assumes "distinct (map fst (set_unknown s @ us))"
    "\<forall>i \<in> set (map fst us). i \<notin> set known_identifiers \<and> \<not> is_reserved_setting i"
  shows "store_all s us = Some (s\<lparr>set_unknown := set_unknown s @ us\<rparr>)"
  using assms
proof (induction us arbitrary: s)
  case (Cons u us)
  obtain i v where u: "u = (i, v)" by fastforce
  with Cons.prems store_unknown [of i s v] Cons.IH [of "s\<lparr>set_unknown := set_unknown s @ [u]\<rparr>"] show ?case by simp
qed simp

lemma store_entries:
  assumes "settings_ok s"
  shows "store_all no_settings (settings_entries s) = Some s"
proof -
  have "store_all (s\<lparr>set_unknown := []\<rparr>) (set_unknown s) = Some s"
    using store_unknown_all [of "s\<lparr>set_unknown := []\<rparr>" "set_unknown s"] assms by (simp add: settings_ok_def)
  then show ?thesis by (simp add: settings_entries_def store_all_append store_known_all)
qed

lemma parse_encoded:
  assumes "settings_ok s" "encode_settings s = Inr b"
  shows "parse_settings b = Inr s"
  using parse_settings_entries [of "[]" "settings_entries s" b no_settings s 0] assms store_entries [OF assms(1)]
  by (auto simp: encode_settings_entries settings_ok_def parse_settings_def)

subsection \<open>Settings that are received\<close>

lemma ucast_take_bit_bound:
  fixes x :: "'a::len word"
  assumes "n \<le> 62"
  shows "(ucast (take_bit n x) :: u64) \<le> QUIC_VARINT_LIMIT"
proof -
  have "unat (ucast (take_bit n x) :: u64) = take_bit 64 (take_bit n (unat x))"
    by (simp add: unsigned_ucast_eq unsigned_take_bit_eq min.commute)
  also have "\<dots> < 2 ^ n" by (rule order.strict_trans1 [OF take_bit_nat_less_eq_self take_bit_nat_less_exp])
  also have "\<dots> \<le> (2 :: nat) ^ 62" using assms by (rule power_increasing) simp
  finally show ?thesis by (simp add: word_le_nat_alt QUIC_VARINT_LIMIT_code)
qed

lemma read_varint_bound: "read_varint b = Inr (v, r) \<Longrightarrow> v \<le> QUIC_VARINT_LIMIT"
  using ucast_take_bit_bound [of 62 "get_be (take 8 b) :: u64"]
  by (auto simp: read_varint_def Let_def and_masks ucast_take_bit_bound split: list.splits if_splits)

lemma read_pair_bound: "read_pair b = Some (i, v, r) \<Longrightarrow> i \<le> QUIC_VARINT_LIMIT \<and> v \<le> QUIC_VARINT_LIMIT"
  by (auto simp: read_pair_def split: sum.splits dest: read_varint_bound)

definition settings_fit :: "H3Settings \<Rightarrow> bool" where
  "settings_fit s \<longleftrightarrow> (\<forall>(i, v) \<in> set (settings_entries s). i \<le> QUIC_VARINT_LIMIT \<and> v \<le> QUIC_VARINT_LIMIT)"

definition unknown_ok :: "H3Settings \<Rightarrow> bool" where
  "unknown_ok s \<longleftrightarrow> distinct (map fst (set_unknown s))
    \<and> (\<forall>i \<in> set (map fst (set_unknown s)). i \<notin> set known_identifiers \<and> \<not> is_reserved_setting i)"

lemma store_entry:
  assumes "settings_store s i v = Some s'"
  shows "length (settings_entries s') = Suc (length (settings_entries s))"
    "set (settings_entries s') = insert (i, v) (set (settings_entries s))"
    "unknown_ok s \<Longrightarrow> \<not> is_reserved_setting i \<Longrightarrow> unknown_ok s'"
proof -
  have "mset (settings_entries s') = add_mset (i, v) (mset (settings_entries s))"
    using assms
    by (simp add: settings_store_def Let_def split: if_split_asm option.split_asm; hypsubst_thin;
        simp add: settings_entries_def known_settings_def present_def)
  from arg_cong [OF this, of size] arg_cong [OF this, of set_mset]
  show "length (settings_entries s') = Suc (length (settings_entries s))"
    "set (settings_entries s') = insert (i, v) (set (settings_entries s))"
    by simp_all
  show "unknown_ok s'" if "unknown_ok s" "\<not> is_reserved_setting i"
  proof -
    consider "set_unknown s' = set_unknown s"
      | "set_unknown s' = set_unknown s @ [(i, v)]" "i \<notin> set known_identifiers" "i \<notin> fst ` set (set_unknown s)"
      using assms
      by (force simp: settings_store_def known_identifiers_def known_settings_def list_ex_iff Let_def split: if_splits option.splits)
    then show ?thesis using that by cases (auto simp: unknown_ok_def)
  qed
qed

lemma parse_settings_ok:
  assumes "parse_settings_loop b s n = Inr s'" "unknown_ok s" "settings_fit s" "length (settings_entries s) = n" "n \<le> SETTINGS_ENTRIES_LIMIT"
  shows "unknown_ok s' \<and> settings_fit s' \<and> length (settings_entries s') \<le> SETTINGS_ENTRIES_LIMIT"
  using assms
proof (induction "length b" arbitrary: b s n rule: less_induct)
  case less
  show ?case
  proof (cases "b = []")
    case True
    with less.prems show ?thesis by (subst (asm) parse_settings_loop.simps) simp
  next
    case False
    then obtain i v r s1 where step: "read_pair b = Some (i, v, r)" "n < SETTINGS_ENTRIES_LIMIT" "\<not> is_reserved_setting i"
        "settings_store s i v = Some s1" "parse_settings_loop r s1 (n + 1) = Inr s'"
      using less.prems(1)
      by (subst (asm) parse_settings_loop.simps) (auto simp: read_pair_def split: if_splits sum.splits option.splits)
    have "settings_fit s1"
      using less.prems(3) store_entry(2) [OF step(4)] read_pair_bound [OF step(1)] by (auto simp: settings_fit_def)
    with less.hyps [OF read_pair_shrinks [OF step(1)] step(5)] store_entry [OF step(4)] less.prems(2,4) step(2,3)
    show ?thesis by simp
  qed
qed

lemma encode_fits:
  assumes "\<forall>(i, v) \<in> set es. i \<le> QUIC_VARINT_LIMIT \<and> v \<le> QUIC_VARINT_LIMIT"
  shows "\<exists>c. encode_unknown b es = Inr c"
  using assms
proof (induction b es rule: encode_unknown.induct)
  case (2 b i v es)
  have "\<exists>c. write_varint b' w = Inr c" if "w \<le> QUIC_VARINT_LIMIT" for b' w
    using write_varint_fits [OF that] write_varint_buffer [of b' w] by auto
  moreover have "i \<le> QUIC_VARINT_LIMIT" "v \<le> QUIC_VARINT_LIMIT" using 2(2) by simp_all
  ultimately obtain x y where "write_varint b i = Inr x" "write_varint x v = Inr y" by meson
  then have "put_varints b i v = Inr y" by (simp add: put_varints_def put_varint_def)
  with 2 show ?case by auto
qed simp



end
