(* ===== verification/Plain_Qpack.thy ===== *)
theory Plain_Qpack
  imports H3_Frames
begin

text \<open>
  A header compressor for the examples: every name and every value is preceded by its length in one
  byte, nothing is compressed, and neither side keeps a table.
\<close>

definition plain_string :: "bytes \<Rightarrow> bytes" where
  "plain_string b = of_nat (length b) # b"

text \<open>The first argument bounds the number of strings.\<close>

fun plain_strings :: "bytes \<Rightarrow> bytes \<Rightarrow> bytes list" where
  "plain_strings [] b = []"
| "plain_strings fuel [] = []"
| "plain_strings (_ # fuel) (n # b) = take (unat n) b # plain_strings fuel (drop (unat n) b)"

fun plain_pairs :: "bytes list \<Rightarrow> Headers" where
  "plain_pairs (name # v # rest) = (name, v) # plain_pairs rest"
| "plain_pairs _ = []"

definition plain_encode :: "Headers \<Rightarrow> bytes" where
  "plain_encode headers = concat (map (\<lambda>(name, v). plain_string name @ plain_string v) headers)"

definition plain_decode :: "bytes \<Rightarrow> Headers" where
  "plain_decode b = plain_pairs (plain_strings b b)"

definition plain_qpack :: "(unit, unit) Qpack" where
  "plain_qpack =
    \<lparr>qp_decoder_new = (\<lambda>_ _. ()),
     qp_abandon_header_block = (\<lambda>_ _. ([], ())),
     qp_decode_header = (\<lambda>_ _ b. (Inr ([], Done (plain_decode b)), ())),
     qp_feed_encoder = (\<lambda>_ _. (Inr [], ())),
     qp_resume_header = (\<lambda>_ _. (Inr ([], None), ())),
     qp_encoder_new = (\<lambda>_ _. ()),
     qp_apply_settings = (\<lambda>_ _ _. (Inr [], ())),
     qp_encode = (\<lambda>_ _ headers. (Inr (plain_encode headers, []), ())),
     qp_feed_decoder = (\<lambda>_ _. (Inr (), ()))\<rparr>"

lemma plain_never_blocks [simp]: "never_blocks plain_qpack"
  by (simp add: never_blocks_def plain_qpack_def)

text \<open>The HTTP/3 layer of a client or a server with this compressor.\<close>

definition example_h3 :: "bool \<Rightarrow> (unit, unit) H3" where
  "example_h3 client = h3_new plain_qpack client
    \<lparr>hp_initial_max_data = 100, hp_initial_max_streams_bidi = 2, hp_initial_max_streams_uni = 2, hp_max_capsule_size = 64,
     hp_max_field_section_size = 1000\<rparr>"

lemma example_h3_simps [simp]:
  "h3_streams (example_h3 client) = fmempty" "h3_is_client (example_h3 client) = client"
  "h3_max_field_section_size (example_h3 client) = 1000" "h3_max_capsule_size (example_h3 client) = 64" "h3_local_encoder_stream_id (example_h3 client) = None"
  by (simp_all add: example_h3_def h3_new_def)

end
