(* ===== verification/H3_Capsules.thy ===== *)
theory H3_Capsules
  imports H3_Output Plain_Qpack
begin

text \<open>
  Capsules on a CONNECT stream.  A sender wraps every capsule in a DATA frame; the transport delivers
  the bytes in pieces of any size.  The receiver reports exactly the capsules sent.
\<close>

type_synonym capsule = "u64 \<times> bytes"

definition capsule_body :: "capsule \<Rightarrow> bytes" where
  "capsule_body = (\<lambda>(t, v). case put_varints [] t (len64 v) of Inl _ \<Rightarrow> [] | Inr header \<Rightarrow> header @ v)"

definition capsule_wire :: "StreamId \<Rightarrow> capsule \<Rightarrow> bytes" where
  "capsule_wire sid = (\<lambda>(t, v). case encode_capsule sid t v of Inl _ \<Rightarrow> [] | Inr chunks \<Rightarrow> concat chunks)"

abbreviation capsules_wire :: "StreamId \<Rightarrow> capsule list \<Rightarrow> bytes" where
  "capsules_wire sid caps \<equiv> concat (map (capsule_wire sid) caps)"

definition capsule_ok :: "u64 \<Rightarrow> StreamId \<Rightarrow> capsule \<Rightarrow> bool" where
  "capsule_ok m sid = (\<lambda>(t, v). is_valid_session_id sid \<and> t \<le> QUIC_VARINT_LIMIT \<and> length v \<le> unat m \<and> length v < 2 ^ 62 - 16)"

abbreviation capsule_event :: "StreamId \<Rightarrow> capsule \<Rightarrow> ProtocolEvent" where
  "capsule_event sid \<equiv> \<lambda>(t, v). H3CapsuleReceived sid t v"

subsection \<open>One capsule\<close>

lemma put_varints_fits:
  assumes "v \<le> QUIC_VARINT_LIMIT" "w \<le> QUIC_VARINT_LIMIT"
  obtains c where "put_varints [] v w = Inr c" "0 < length c" "length c \<le> 16"
proof -
  obtain a b where "write_varint [] v = Inr a" "write_varint [] w = Inr b" using assms write_varint_fits by blast
  then have "put_varints [] v w = Inr (a @ b)"
    using write_varint_buffer [of a w] by (simp add: put_varints_def put_varint_def)
  moreover have "length a = varint_size v" "length b = varint_size w"
    using length_write_varint [of "[]"] \<open>write_varint [] v = Inr a\<close> \<open>write_varint [] w = Inr b\<close> by force+
  moreover have "0 < varint_size x" "varint_size x \<le> 8" for x by (simp_all add: varint_size_def)
  ultimately show thesis using that [of "a @ b"] by (simp add: add_mono [of _ 8 _ 8, simplified])
qed

lemma QUIC_VARINT_LIMIT_nat: "unat QUIC_VARINT_LIMIT = 2 ^ 62 - 1"
  by (simp add: QUIC_VARINT_LIMIT_code)

lemma of_nat_varint: "n < 2 ^ 62 \<Longrightarrow> (of_nat n :: u64) \<le> QUIC_VARINT_LIMIT \<and> unat (of_nat n :: u64) = n"
  by (simp add: word_le_nat_alt QUIC_VARINT_LIMIT_nat unat_of_nat)

lemma capsule_wire_frame:
  assumes "capsule_ok m sid (t, v)"
  obtains header where "put_varints [] H3_FRAME_TYPE_DATA (of_nat (length (capsule_body (t, v)))) = Inr header"
    "capsule_wire sid (t, v) = header @ capsule_body (t, v)" "0 < length (capsule_body (t, v))"
    "length (capsule_body (t, v)) < 2 ^ 62"
proof -
  have v: "len64 v \<le> QUIC_VARINT_LIMIT" "length v < 2 ^ 62 - 16" "t \<le> QUIC_VARINT_LIMIT"
    using assms of_nat_varint [of "length v"] by (simp_all add: capsule_ok_def len64_def)
  obtain c where c: "put_varints [] t (len64 v) = Inr c" "0 < length c" "length c \<le> 16"
    using put_varints_fits [OF v(3,1)] by blast
  have body: "capsule_body (t, v) = c @ v" using c(1) by (simp add: capsule_body_def)
  have size: "length (c @ v) < 2 ^ 62" using c(3) v(2) by simp
  have "H3_FRAME_TYPE_DATA \<le> QUIC_VARINT_LIMIT" by (simp add: const_defs QUIC_VARINT_LIMIT_code)
  then obtain header where header: "put_varints [] H3_FRAME_TYPE_DATA (of_nat (length (c @ v))) = Inr header"
    using put_varints_fits of_nat_varint [OF size] by blast
  then have "capsule_wire sid (t, v) = header @ c @ v"
    using assms c(1) by (simp add: capsule_wire_def encode_capsule_def encode_frame_header_def capsule_ok_def)
  with that [of header] header body c(2) size show thesis by simp
qed

lemma capsule_parsed:
  assumes "capsule_ok m sid (t, v)"
  shows "parse_capsules_loop m sid (capsule_body (t, v)) = (Inr [H3CapsuleReceived sid t v], [])"
proof -
  have v: "len64 v \<le> QUIC_VARINT_LIMIT" "unat (len64 v) = length v" "t \<le> QUIC_VARINT_LIMIT" "\<not> len64 v > m"
    using assms of_nat_varint [of "length v"] by (auto simp: capsule_ok_def len64_def word_less_nat_alt)
  obtain c where c: "put_varints [] t (len64 v) = Inr c" using put_varints_fits [OF v(3,1)] by blast
  have "parse_capsules_loop m sid [] = (Inr [], [])"
    by (subst parse_capsules_eq) (simp add: read_pair_def read_varint_def)
  then show ?thesis
    using c read_pair_written [OF c, of v] v(2,4)
    by (subst parse_capsules_eq) (simp add: capsule_body_def)
qed

text \<open>A capsule that is not complete is kept.\<close>

lemma capsule_partial:
  assumes ok: "capsule_ok m sid (t, v)" and body: "capsule_body (t, v) = b @ c" and "c \<noteq> []"
  shows "parse_capsules_loop m sid b = (Inr [], b)"
proof (cases "read_pair b")
  case None
  then show ?thesis by (subst parse_capsules_eq) simp
next
  case (Some p)
  obtain t' n r where p: "read_pair b = Some (t', n, r)" using Some by (cases p) auto
  have v: "len64 v \<le> QUIC_VARINT_LIMIT" "unat (len64 v) = length v" "t \<le> QUIC_VARINT_LIMIT" "\<not> len64 v > m"
    using ok of_nat_varint [of "length v"] by (auto simp: capsule_ok_def len64_def word_less_nat_alt)
  obtain h where h: "put_varints [] t (len64 v) = Inr h" using put_varints_fits [OF v(3,1)] by blast
  have "h @ v = b @ c" using body h by (simp add: capsule_body_def)
  then have "Some (t, len64 v, v) = Some (t', n, r @ c)"
    using read_pair_written [OF h, of v] read_pair_append [OF p, of c] by simp
  then have "n = len64 v" "v = r @ c" by auto
  with v(2,4) p assms(3) show ?thesis by (subst parse_capsules_eq) simp
qed

lemma data_not_headers: "H3_FRAME_TYPE_DATA \<noteq> H3_FRAME_TYPE_HEADERS"
  by (simp add: const_defs)

subsection \<open>A stream that carries capsules\<close>

definition between_frames :: "StreamId \<Rightarrow> H3Stream \<Rightarrow> bytes \<Rightarrow> capsule list \<Rightarrow> bool" where
  "between_frames sid s w caps \<longleftrightarrow>
    hs_frame_type s = None \<and> hs_capsule_buffer s = [] \<and> hs_buffer s @ w = capsules_wire sid caps"

definition inside_frame :: "StreamId \<Rightarrow> H3Stream \<Rightarrow> bytes \<Rightarrow> capsule list \<Rightarrow> bool" where
  "inside_frame sid s w caps \<longleftrightarrow>
    (\<exists>c rest x. caps = c # rest \<and> x \<noteq> [] \<and> hs_frame_type s = Some H3_FRAME_TYPE_DATA \<and> hs_frame_size s = Some (length x)
      \<and> capsule_body c = hs_capsule_buffer s @ x \<and> hs_buffer s @ w = x @ capsules_wire sid rest)"

definition carries_capsules :: "H3Stream \<Rightarrow> bool" where
  "carries_capsules s \<longleftrightarrow> hs_is_connect_stream s \<and> hs_is_request_stream s \<and> hs_headers_processed s
    \<and> \<not> hs_blocked s \<and> \<not> hs_ended s \<and> hs_stream_type s = None"

text \<open>The stream \<open>s\<close> with the bytes \<open>w\<close> still to come holds the capsules \<open>caps\<close>.\<close>

definition reading :: "u64 \<Rightarrow> StreamId \<Rightarrow> H3Stream \<Rightarrow> bytes \<Rightarrow> capsule list \<Rightarrow> bool" where
  "reading m sid s w caps \<longleftrightarrow> carries_capsules s \<and> list_all (capsule_ok m sid) caps
    \<and> (between_frames sid s w caps \<or> inside_frame sid s w caps)"

definition at_rest :: "H3Stream \<Rightarrow> bool" where
  "at_rest s \<longleftrightarrow> (if hs_frame_type s = None then read_pair (hs_buffer s) = None else hs_buffer s = [])"

lemma inside_turn:
  assumes "carries_capsules s" "list_all (capsule_ok (h3_max_capsule_size h) sid) caps" "inside_frame sid s w caps"
  obtains "hs_buffer s = []" "frame_turn q sid False (s, h) = (Inr (([], []), False), (s, h))"
  | s' where "hs_buffer s \<noteq> []" "hs_buffer s' = []" "frame_turn q sid False (s, h) = (Inr (([], []), True), (s', h))"
      "carries_capsules s'" "inside_frame sid s' w caps"
  | c rest s' where "hs_buffer s \<noteq> []" "caps = c # rest" "length (hs_buffer s') < length (hs_buffer s)"
      "frame_turn q sid False (s, h) = (Inr (([capsule_event sid c], []), True), (s', h))"
      "carries_capsules s'" "between_frames sid s' w rest"
proof -
  obtain t v rest x where x: "caps = (t, v) # rest" "x \<noteq> []" "hs_frame_type s = Some H3_FRAME_TYPE_DATA" "hs_frame_size s = Some (length x)"
      "capsule_body (t, v) = hs_capsule_buffer s @ x" "hs_buffer s @ w = x @ capsules_wire sid rest"
    using assms(3) by (auto simp: inside_frame_def)
  have ok: "capsule_ok (h3_max_capsule_size h) sid (t, v)" using assms(2) x(1) by simp
  show thesis
  proof (cases "hs_buffer s = []")
    case True
    with that(1) show thesis by (simp add: frame_turn_def Let_def)
  next
    case False
    note turn = assms(1) x(3,4) False
    show thesis
    proof (cases "length (hs_buffer s) < length x")
      case True
      then obtain y where y: "x = hs_buffer s @ y" "y \<noteq> []" "w = y @ capsules_wire sid rest"
        using x(6) by (auto simp: append_eq_append_conv2)
      let ?s = "s\<lparr>hs_buffer := [], hs_frame_size := Some (length y), hs_capsule_buffer := hs_capsule_buffer s @ hs_buffer s\<rparr>"
      have "frame_turn q sid False (s, h) = (Inr (([], []), True), (?s, h))"
        using turn y(1,2) capsule_partial [OF ok, of "hs_capsule_buffer s @ hs_buffer s" y] x(5)
        by (simp add: frame_turn_def next_frame_def Let_def handle_request_frame_data handle_data_frame_def parse_capsules_def
            carries_capsules_def)
      moreover have "inside_frame sid ?s w caps" using x y by (auto simp: inside_frame_def)
      ultimately show thesis using that(2) [of ?s] turn(1) False by (simp add: carries_capsules_def)
    next
      case False
      then obtain y where y: "hs_buffer s = x @ y" "y @ w = capsules_wire sid rest"
        using x(6) by (auto simp: append_eq_append_conv2)
      let ?s = "s\<lparr>hs_buffer := y, hs_frame_size := None, hs_frame_type := None, hs_capsule_buffer := []\<rparr>"
      have "frame_turn q sid False (s, h) = (Inr (([H3CapsuleReceived sid t v], []), True), (?s, h))"
        using turn y(1) x(2) capsule_parsed [OF ok] x(5)
        by (simp add: frame_turn_def next_frame_def Let_def handle_request_frame_data handle_data_frame_def parse_capsules_def
            carries_capsules_def end_frame_def data_not_headers)
      moreover have "between_frames sid ?s w rest" using y(2) by (simp add: between_frames_def)
      ultimately show thesis
        using that(3) [of "(t, v)" rest ?s] turn(1) x(1,2) y(1) \<open>hs_buffer s \<noteq> []\<close> by (simp add: carries_capsules_def)
    qed
  qed
qed

lemma between_turn:
  assumes "carries_capsules s" "list_all (capsule_ok (h3_max_capsule_size h) sid) caps" "between_frames sid s w caps"
  obtains "read_pair (hs_buffer s) = None" "frame_turn q sid False (s, h) = (Inr (([], []), False), (s, h))"
  | u where "hs_buffer u = []" "carries_capsules u" "inside_frame sid u w caps"
      "frame_turn q sid False (s, h) = (Inr (([], []), False), (u, h))"
  | u where "length (hs_buffer u) < length (hs_buffer s)" "carries_capsules u" "inside_frame sid u w caps"
      "frame_turn q sid False (s, h) = frame_turn q sid False (u, h)"
proof (cases "read_pair (hs_buffer s)")
  case None
  have "next_frame h sid s = Inr None" using None assms(3) by (simp add: next_frame_eq between_frames_def)
  with None that(1) show thesis by (simp add: frame_turn_def Let_def)
next
  case (Some p)
  obtain t n r where p: "read_pair (hs_buffer s) = Some (t, n, r)" using Some by (cases p) auto
  have b: "hs_frame_type s = None" "hs_capsule_buffer s = []" "hs_buffer s @ w = capsules_wire sid caps"
    using assms(3) by (simp_all add: between_frames_def)
  have "hs_buffer s \<noteq> []" using p by (auto simp: read_pair_def read_varint_def)
  then obtain c rest where caps: "caps = c # rest" using b(3) by (cases caps) auto
  obtain ct cv where c: "c = (ct, cv)" by fastforce
  have "capsule_ok (h3_max_capsule_size h) sid (ct, cv)" using assms(2) caps c by simp
  from capsule_wire_frame [OF this] obtain header where header:
    "put_varints [] H3_FRAME_TYPE_DATA (of_nat (length (capsule_body c))) = Inr header"
    "capsule_wire sid c = header @ capsule_body c" "0 < length (capsule_body c)" "length (capsule_body c) < 2 ^ 62"
    unfolding c by blast
  have "Some (H3_FRAME_TYPE_DATA, of_nat (length (capsule_body c)), capsule_body c @ capsules_wire sid rest) = Some (t, n, r @ w)"
    using read_pair_written [OF header(1), of "capsule_body c @ capsules_wire sid rest"] read_pair_append [OF p, of w] b(3) caps header(2)
    by simp
  then have n: "t = H3_FRAME_TYPE_DATA" "unat n = length (capsule_body c)" "r @ w = capsule_body c @ capsules_wire sid rest"
    using of_nat_varint [OF header(4)] by auto
  let ?u = "s\<lparr>hs_frame_type := Some H3_FRAME_TYPE_DATA, hs_frame_size := Some (length (capsule_body c)), hs_buffer := r\<rparr>"
  have u: "carries_capsules ?u" "inside_frame sid ?u w caps"
    using assms(1) b(2) n(3) caps header(3) by (auto simp: carries_capsules_def inside_frame_def)
  have head: "next_frame h sid s = Inr (Some ?u)"
    using p n(1,2) b(1) by (simp add: next_frame_eq data_not_headers)
  show thesis
  proof (cases "r = []")
    case True
    have "frame_turn q sid False (s, h) = (Inr (([], []), False), (?u, h))"
      using head True assms(1) b(2) header(3) \<open>hs_buffer s \<noteq> []\<close>
      by (simp add: frame_turn_def Let_def handle_request_frame_data handle_data_frame_def carries_capsules_def)
    with that(2) [of ?u] u True show thesis by simp
  next
    case False
    have "next_frame h sid ?u = Inr (Some ?u)" by (simp add: next_frame_def)
    with head False assms(1) \<open>hs_buffer s \<noteq> []\<close> have "frame_turn q sid False (s, h) = frame_turn q sid False (?u, h)"
      by (simp add: frame_turn_def carries_capsules_def)
    moreover have "length (hs_buffer ?u) < length (hs_buffer s)" using read_pair_shrinks [OF p] by simp
    ultimately show thesis using that(3) [of ?u] u by blast
  qed
qed

lemma capsules_loop:
  assumes "reading (h3_max_capsule_size h) sid s w caps"
  shows "\<exists>got rest s'. frames_loop q sid False (s, h) = Some (Inr (map (capsule_event sid) got, []), (s', h))
    \<and> caps = got @ rest \<and> reading (h3_max_capsule_size h) sid s' w rest \<and> at_rest s'"
    (is "?P s caps")
  using assms
proof (induction "turns_left s" arbitrary: s caps rule: less_induct)
  case less
  have s: "carries_capsules s" "list_all (capsule_ok (h3_max_capsule_size h) sid) caps" using less.prems by (simp_all add: reading_def)
  have stop: "?P s caps" if "frame_turn q sid False (s, h) = (Inr (([], []), False), (u, h))" "at_rest u"
      "reading (h3_max_capsule_size h) sid u w caps" for u
    by (intro exI [of _ "[]"] exI [of _ caps] exI [of _ u]) (subst frames_loop.simps, use that in simp)
  have step: "?P s caps" if t: "frame_turn q sid False (s, h) = (Inr ((map (capsule_event sid) got, []), True), (u, h))"
      "turns_left u < turns_left s" "caps = got @ rest" "reading (h3_max_capsule_size h) sid u w rest" for u got rest
  proof -
    obtain got' rest' s' where "frames_loop q sid False (u, h) = Some (Inr (map (capsule_event sid) got', []), (s', h))"
        "rest = got' @ rest'" "reading (h3_max_capsule_size h) sid s' w rest'" "at_rest s'"
      using less.hyps [OF t(2,4)] by blast
    then show ?thesis
      by (intro exI [of _ "got @ got'"] exI [of _ rest'] exI [of _ s'])
         (simp add: frames_loop_continues [OF t(1)] t(3))
  qed
  show ?case
  proof (cases "inside_frame sid s w caps")
    case True
    then show ?thesis
    proof (rule inside_turn [OF s, where q = q])
      assume "hs_buffer s = []" and turn: "frame_turn q sid False (s, h) = (Inr (([], []), False), (s, h))"
      with True have "at_rest s" by (auto simp: at_rest_def inside_frame_def)
      with stop [OF turn] less.prems show ?thesis by blast
    next
      fix s'
      assume "hs_buffer s \<noteq> []" "hs_buffer s' = []" "frame_turn q sid False (s, h) = (Inr (([], []), True), (s', h))"
        "carries_capsules s'" "inside_frame sid s' w caps"
      with step [of "[]" s' caps] s(2) True show ?thesis by (auto simp: turns_left_def reading_def inside_frame_def)
    next
      fix c rest s'
      assume "hs_buffer s \<noteq> []" "caps = c # rest" "length (hs_buffer s') < length (hs_buffer s)"
        "frame_turn q sid False (s, h) = (Inr (([capsule_event sid c], []), True), (s', h))"
        "carries_capsules s'" "between_frames sid s' w rest"
      with step [of "[c]" s' rest] s(2) show ?thesis by (simp add: turns_left_def reading_def between_frames_def)
    qed
  next
    case False
    then have "between_frames sid s w caps" using less.prems by (simp add: reading_def)
    then show ?thesis
    proof (rule between_turn [OF s, where q = q])
      assume "read_pair (hs_buffer s) = None" "frame_turn q sid False (s, h) = (Inr (([], []), False), (s, h))"
      with stop [of s] less.prems \<open>between_frames sid s w caps\<close> show ?thesis by (simp add: at_rest_def between_frames_def)
    next
      fix u
      assume u: "hs_buffer u = []" "carries_capsules u" "inside_frame sid u w caps"
        and turn: "frame_turn q sid False (s, h) = (Inr (([], []), False), (u, h))"
      then have "at_rest u" by (auto simp: at_rest_def inside_frame_def)
      moreover have "reading (h3_max_capsule_size h) sid u w caps" using u s(2) by (simp add: reading_def)
      ultimately show ?thesis using stop [OF turn] by blast
    next
      fix u
      assume u: "length (hs_buffer u) < length (hs_buffer s)" "carries_capsules u" "inside_frame sid u w caps"
        "frame_turn q sid False (s, h) = frame_turn q sid False (u, h)"
      then have "?P u caps" using less.hyps [of u caps] s(2) by (auto simp: turns_left_def reading_def)
      moreover have "frames_loop q sid False (s, h) = frames_loop q sid False (u, h)"
        by (subst (1 2) frames_loop.simps) (simp only: u(4))
      ultimately show ?thesis by simp
    qed
  qed
qed

subsection \<open>Pieces\<close>

fun recv_chunks ::
    "('d, 'e) Qpack \<Rightarrow> ('d, 'e) H3 \<Rightarrow> StreamId \<Rightarrow> bytes list \<Rightarrow> (ProtocolEvent list \<times> ('d, 'e) H3) option" where
  "recv_chunks q h sid [] = Some ([], h)"
| "recv_chunks q h sid (d # ds) =
    (case recv_request_data q h sid d False of
       Some (Inr (events, effects), h) \<Rightarrow>
         (case recv_chunks q h sid ds of None \<Rightarrow> None | Some (events', h) \<Rightarrow> Some (events @ events', h))
     | _ \<Rightarrow> None)"

lemma reading_input: "reading m sid s (d @ w) caps \<Longrightarrow> reading m sid (append_input s d False) w caps"
  by (auto simp: reading_def carries_capsules_def between_frames_def inside_frame_def append_input_def)

lemma capsule_stream_stays:
  assumes "fmlookup (h3_streams h) sid = Some s" "carries_capsules s"
    and "frames_loop q sid e (append_input s d e, h\<lparr>h3_streams := fmdrop sid (h3_streams h)\<rparr>) = Some (Inr (events, effects), (s', h'))"
    and "\<not> hs_blocked s'" "\<not> (hs_ended s' \<and> hs_buffer s' = [])"
  shows "recv_request_data q h sid d e
    = Some (Inr (events, effects @ (if hs_ended s' then [] else [ReceiveQuicData sid u64_MAX])), put_h3_stream h' sid s')"
proof -
  have "hs_ended (append_input s d e) = e" "hs_blocked (append_input s d e) = False" "hs_headers_processed (append_input s d e)"
    "hs_is_request_stream (append_input s d e)" "hs_stream_type (append_input s d e) = None"
    using assms(2) by (simp_all add: append_input_def carries_capsules_def)
  with assms show ?thesis
    by (simp add: recv_request_data_def take_h3_stream_def recv_request_frames_def parse_stream_data_def)
qed

lemma capsules_chunk:
  assumes "fmlookup (h3_streams h) sid = Some s" "reading (h3_max_capsule_size h) sid s (d @ w) caps"
  obtains got rest s' h' effects where "recv_request_data q h sid d False = Some (Inr (map (capsule_event sid) got, effects), h')"
    "caps = got @ rest" "fmlookup (h3_streams h') sid = Some s'" "h3_max_capsule_size h' = h3_max_capsule_size h"
    "reading (h3_max_capsule_size h) sid s' w rest" "at_rest s'"
proof -
  let ?h = "h\<lparr>h3_streams := fmdrop sid (h3_streams h)\<rparr>" and ?s = "append_input s d False"
  have r: "reading (h3_max_capsule_size ?h) sid ?s w caps" using reading_input [OF assms(2)] by simp
  then obtain got rest s' where loop: "frames_loop q sid False (?s, ?h) = Some (Inr (map (capsule_event sid) got, []), (s', ?h))"
      "caps = got @ rest" "reading (h3_max_capsule_size ?h) sid s' w rest" "at_rest s'"
    using capsules_loop [of ?h sid ?s w caps q] by blast
  have "carries_capsules s" "carries_capsules s'" using assms(2) loop(3) by (simp_all add: reading_def)
  then have "recv_request_data q h sid d False
      = Some (Inr (map (capsule_event sid) got, [ReceiveQuicData sid u64_MAX]), put_h3_stream ?h sid s')"
    using capsule_stream_stays [OF assms(1) _ loop(1)] by (simp add: carries_capsules_def)
  with that [of got "[ReceiveQuicData sid u64_MAX]" "put_h3_stream ?h sid s'" rest s'] loop show thesis
    by (simp add: put_h3_stream_def)
qed

lemma at_rest_done:
  assumes "reading m sid s [] caps" "at_rest s"
  shows "caps = []" "hs_buffer s = []" "hs_frame_type s = None"
proof -
  have no: "\<not> inside_frame sid s [] caps" using assms(2) by (auto simp: at_rest_def inside_frame_def)
  then have b: "between_frames sid s [] caps" using assms(1) by (simp add: reading_def)
  show "caps = []"
  proof (cases caps)
    case (Cons c rest)
    obtain t v where c: "c = (t, v)" by fastforce
    have "capsule_ok m sid (t, v)" using assms(1) Cons c by (simp add: reading_def)
    from capsule_wire_frame [OF this] obtain header where
      "put_varints [] H3_FRAME_TYPE_DATA (of_nat (length (capsule_body c))) = Inr header" "capsule_wire sid c = header @ capsule_body c"
      unfolding c by blast
    then have "read_pair (hs_buffer s) \<noteq> None"
      using b Cons read_pair_written by (simp add: between_frames_def)
    with assms(2) b show ?thesis by (simp add: at_rest_def between_frames_def)
  qed simp
  with b show "hs_buffer s = []" "hs_frame_type s = None" by (simp_all add: between_frames_def)
qed

lemma capsules_chunks:
  assumes "fmlookup (h3_streams h) sid = Some s" "reading (h3_max_capsule_size h) sid s (concat chunks) caps" "at_rest s"
  shows "\<exists>h' s'. recv_chunks q h sid chunks = Some (map (capsule_event sid) caps, h')
    \<and> fmlookup (h3_streams h') sid = Some s' \<and> carries_capsules s' \<and> hs_buffer s' = [] \<and> hs_frame_type s' = None"
  using assms
proof (induction chunks arbitrary: h s caps)
  case Nil
  then show ?case using at_rest_done [of "h3_max_capsule_size h" sid s caps] by (simp add: reading_def)
next
  case (Cons d ds)
  have all: "reading (h3_max_capsule_size h) sid s (d @ concat ds) caps" using Cons.prems(2) by simp
  obtain got rest s2 h2 effects where step: "recv_request_data q h sid d False = Some (Inr (map (capsule_event sid) got, effects), h2)"
    "caps = got @ rest" "fmlookup (h3_streams h2) sid = Some s2" "h3_max_capsule_size h2 = h3_max_capsule_size h"
    "reading (h3_max_capsule_size h) sid s2 (concat ds) rest" "at_rest s2"
    by (rule capsules_chunk [OF Cons.prems(1) all, where q = q])
  with Cons.IH [OF step(3) _ step(6), of rest] show ?case by auto
qed

text \<open>
  C11. Capsules survive the transport: when a peer sends capsules, each in a DATA frame, and the bytes
  arrive on a CONNECT stream cut into pieces in any way, the HTTP/3 layer reports exactly these
  capsules, in order, and then the end of the stream.
\<close>

theorem capsules_delivered:
  assumes "fmlookup (h3_streams h) sid = Some s" "carries_capsules s"
    and "hs_buffer s = []" "hs_capsule_buffer s = []" "hs_frame_type s = None"
    and "list_all (capsule_ok (h3_max_capsule_size h) sid) caps" and "concat chunks = capsules_wire sid caps"
  shows "\<exists>h'. recv_chunks q h sid chunks = Some (map (capsule_event sid) caps, h')
    \<and> (\<exists>effects h''. recv_request_data q h' sid [] True = Some (Inr ([H3ConnectStreamClosed sid], effects), h''))"
proof -
  have "reading (h3_max_capsule_size h) sid s (concat chunks) caps" "at_rest s"
    using assms by (simp_all add: reading_def between_frames_def at_rest_def read_pair_def read_varint_def)
  with capsules_chunks [OF assms(1)] obtain h' s' where h': "recv_chunks q h sid chunks = Some (map (capsule_event sid) caps, h')"
      "fmlookup (h3_streams h') sid = Some s'" "carries_capsules s'" "hs_buffer s' = []" "hs_frame_type s' = None"
    by blast
  let ?h = "h'\<lparr>h3_streams := fmdrop sid (h3_streams h')\<rparr>" and ?s = "s'\<lparr>hs_ended := True\<rparr>"
  have input: "append_input s' [] True = ?s" by (cases s') (simp add: append_input_def)
  have "next_frame ?h sid ?s = Inr None"
    using h' by (simp add: next_frame_def read_varint_def)
  then have "frames_loop q sid True (?s, ?h) = Some (Inr ([], []), (?s, ?h))"
    using h'(3) by (subst frames_loop.simps) (simp add: frame_turn_def carries_capsules_def)
  then have "\<exists>effects h''. recv_request_data q h' sid [] True = Some (Inr ([H3ConnectStreamClosed sid], effects), h'')"
    using h' by (simp add: recv_request_data_def take_h3_stream_def input recv_request_frames_def parse_stream_data_def
        carries_capsules_def case_prod_beta)
  with h'(1) show ?thesis by blast
qed

definition example_connect_stream :: H3Stream where
  "example_connect_stream = h3_stream_default\<lparr>hs_is_request_stream := True, hs_is_connect_stream := True, hs_headers_processed := True\<rparr>"

lemma example_connect_stream_ready:
  "carries_capsules example_connect_stream" "hs_buffer example_connect_stream = []" "hs_capsule_buffer example_connect_stream = []" "hs_frame_type example_connect_stream = None"
  by (simp_all add: example_connect_stream_def carries_capsules_def h3_stream_default_def)

abbreviation example_h3_server :: "(unit, unit) H3" where
  "example_h3_server \<equiv> put_h3_stream (example_h3 False) 4 example_connect_stream"

theorem capsules_delivered_witness:
  "\<exists>h'. recv_chunks plain_qpack example_h3_server 4 [[0], [3, 1], [1, 7, 0, 2], [2, 0]]
    = Some ([H3CapsuleReceived 4 1 [7], H3CapsuleReceived 4 2 []], h')"
proof -
  have "list_all (capsule_ok 64 4) [(1, [7]), (2, [])]"
    by (simp add: capsule_ok_def is_valid_session_id_def const_defs QUIC_VARINT_LIMIT_code)
  moreover have "concat [[0], [3, 1], [1, 7, 0, 2], [2, 0]] = capsules_wire 4 [(1, [7]), (2, [])]" by code_simp
  ultimately show ?thesis
    using capsules_delivered [of example_h3_server 4 example_connect_stream "[(1, [7]), (2, [])]" "[[0], [3, 1], [1, 7, 0, 2], [2, 0]]" plain_qpack]
      example_connect_stream_ready
    by (simp add: put_h3_stream_def) blast
qed

subsection \<open>Input that is left over\<close>

text \<open>
  C20. An empty DATA frame holds back what follows it: when one arrives on a CONNECT stream together
  with further bytes, the loop over the frames stops at it, and the bytes - be they complete frames -
  stay in the buffer until the next input.
\<close>

theorem empty_frame_stalls:
  assumes "fmlookup (h3_streams h) sid = Some s" "carries_capsules s"
    and "hs_buffer s = []" "hs_capsule_buffer s = []" "hs_frame_type s = None"
  shows "\<exists>h'. recv_request_data q h sid ([0, 0] @ rest) False = Some (Inr ([], [ReceiveQuicData sid u64_MAX]), h')
    \<and> (\<exists>s'. fmlookup (h3_streams h') sid = Some s' \<and> hs_buffer s' = rest)"
proof -
  let ?h = "h\<lparr>h3_streams := fmdrop sid (h3_streams h)\<rparr>" and ?s = "s\<lparr>hs_buffer := 0 # 0 # rest\<rparr>"
  have input: "append_input s ([0, 0] @ rest) False = ?s"
    using assms(2,3) by (cases s) (simp add: append_input_def carries_capsules_def)
  have "write_varint [] 0 = Inr [0]" by code_simp
  then have "read_varint (0 # b) = Inr (0, b)" for b using read_write_varint [of 0 "[0]" b] by simp
  then have "next_frame ?h sid ?s = Inr (Some (s\<lparr>hs_buffer := rest, hs_frame_type := Some 0, hs_frame_size := Some 0\<rparr>))"
    using assms(5) by (simp add: next_frame_eq read_pair_def const_defs)
  then have turn: "frame_turn q sid False (?s, ?h)
      = (Inr (([], []), False), (s\<lparr>hs_buffer := rest, hs_frame_type := None, hs_frame_size := None\<rparr>, ?h))"
    using assms(2,4)
    by (simp add: frame_turn_def handle_request_frame_def handle_data_frame_def const_defs carries_capsules_def end_frame_def)
  have "frames_loop q sid False (append_input s ([0, 0] @ rest) False, ?h)
      = Some (Inr ([], []), (s\<lparr>hs_buffer := rest, hs_frame_type := None, hs_frame_size := None\<rparr>, ?h))"
    unfolding input by (subst frames_loop.simps) (simp add: turn)
  from capsule_stream_stays [OF assms(1,2) this] assms(2) show ?thesis
    by (simp add: carries_capsules_def put_h3_stream_def)
qed

theorem empty_frame_stalls_witness:
  "\<exists>h'. recv_request_data plain_qpack example_h3_server 4 [0, 0, 0, 3, 1, 1, 7] False = Some (Inr ([], [ReceiveQuicData 4 u64_MAX]), h')
    \<and> (\<exists>s'. fmlookup (h3_streams h') 4 = Some s' \<and> hs_buffer s' = [0, 3, 1, 1, 7])"
  using empty_frame_stalls [of example_h3_server 4 example_connect_stream plain_qpack "[0, 3, 1, 1, 7]"] example_connect_stream_ready
  by (simp add: put_h3_stream_def)

text \<open>
  C21. A CONNECT stream that ends inside a frame header ends unnoticed: the bytes stay in the buffer,
  the end of the stream is not reported, and the stream stays in the table.
\<close>

theorem cut_header_unnoticed:
  assumes "fmlookup (h3_streams h) sid = Some s" "carries_capsules s" "hs_buffer s = []" "hs_frame_type s = None"
    and "b \<noteq> []" "read_pair b = None"
  shows "\<exists>h'. recv_request_data q h sid b True = Some (Inr ([], []), h')
    \<and> (\<exists>s'. fmlookup (h3_streams h') sid = Some s' \<and> hs_ended s' \<and> hs_buffer s' = b)"
proof -
  let ?h = "h\<lparr>h3_streams := fmdrop sid (h3_streams h)\<rparr>" and ?s = "append_input s b True"
  have "next_frame ?h sid ?s = Inr None" using assms(3,4,6) by (simp add: next_frame_eq append_input_def)
  then have "frames_loop q sid True (?s, ?h) = Some (Inr ([], []), (?s, ?h))"
    using assms(2) by (subst frames_loop.simps) (simp add: frame_turn_def carries_capsules_def append_input_def)
  from capsule_stream_stays [OF assms(1,2) this] assms(2,3,5) show ?thesis
    by (simp add: carries_capsules_def put_h3_stream_def append_input_def)
qed

theorem cut_header_unnoticed_witness:
  "\<exists>h'. recv_request_data plain_qpack example_h3_server 4 [0] True = Some (Inr ([], []), h') \<and> 4 |\<in>| fmdom (h3_streams h')"
proof -
  have "read_pair [0] = None" by code_simp
  from cut_header_unnoticed [of example_h3_server 4 example_connect_stream "[0]" plain_qpack, OF _ _ _ _ _ this] example_connect_stream_ready show ?thesis
    by (auto simp: put_h3_stream_def fmlookup_dom_iff)
qed

end
