(* ===== verification/H3_Opening.thy ===== *)
theory H3_Opening
  imports H3_Capsules
begin

text \<open>
  What a peer announces with the first bytes of a stream: a WebTransport stream of a session, read
  one byte at a time, or a request for a session.
\<close>

subsection \<open>Stream headers\<close>

fun recv_bytes ::
    "('d, 'e) Qpack \<Rightarrow> ('d, 'e) H3 \<Rightarrow> StreamId \<Rightarrow> bytes \<Rightarrow> Connection \<Rightarrow> (h3_output list \<times> ('d, 'e) H3) option" where
  "recv_bytes q h sid [] c = Some ([], h)"
| "recv_bytes q h sid (b # bs) c =
    Option.bind (transport_output q h (TransportStreamDataReceived sid [b] False) c) (\<lambda>(output, h).
      Option.bind (recv_bytes q h sid bs c) (\<lambda>(outputs, h). Some (output # outputs, h)))"

abbreviation next_byte :: "StreamId \<Rightarrow> h3_output" where
  "next_byte sid \<equiv> Inr ([], [ReceiveQuicData sid 1])"

definition stream_seen :: "('d, 'e) H3 \<Rightarrow> StreamId \<Rightarrow> H3Stream" where
  "stream_seen h sid = (case fmlookup (h3_streams h) sid of None \<Rightarrow> h3_stream_default | Some s \<Rightarrow> s)"

lemma take_seen: "take_h3_stream h sid = (stream_seen h sid, h\<lparr>h3_streams := fmdrop sid (h3_streams h)\<rparr>)"
  by (simp add: take_h3_stream_def stream_seen_def)

lemma seen_put [simp]: "stream_seen (put_h3_stream h sid s) sid = s"
  by (simp add: stream_seen_def put_h3_stream_def)

lemma recv_bytes_append:
  "recv_bytes q h sid (bs @ cs) c =
    Option.bind (recv_bytes q h sid bs c) (\<lambda>(xs, h). Option.bind (recv_bytes q h sid cs c) (\<lambda>(ys, h). Some (xs @ ys, h)))"
  by (induction bs arbitrary: h) (auto simp: bind_eq_None_conv split: bind_splits prod.splits)

definition stream_code :: "StreamId \<Rightarrow> u64" where
  "stream_code sid = (if is_unidirectional_stream sid then H3_STREAM_TYPE_WEBTRANSPORT else H3_FRAME_TYPE_WT_STREAM)"

lemma type_byte:
  assumes "stream_seen h sid = h3_stream_default\<lparr>hs_buffer := part\<rparr>"
  shows "read_varint (part @ [b]) = Inl e \<Longrightarrow> \<exists>h'. transport_output q h (TransportStreamDataReceived sid [b] False) c = Some (next_byte sid, h')
      \<and> stream_seen h' sid = h3_stream_default\<lparr>hs_buffer := part @ [b]\<rparr>"
    and "read_varint (part @ [b]) = Inr (stream_code sid, r) \<Longrightarrow> \<exists>h'. transport_output q h (TransportStreamDataReceived sid [b] False) c = Some (next_byte sid, h')
      \<and> stream_seen h' sid = h3_stream_default\<lparr>hs_stream_type := Some H3_STREAM_TYPE_WEBTRANSPORT\<rparr>"
proof -
  have wt: "H3_STREAM_TYPE_WEBTRANSPORT \<notin> {H3_STREAM_TYPE_CONTROL, H3_STREAM_TYPE_QPACK_DECODER, H3_STREAM_TYPE_QPACK_ENCODER, H3_STREAM_TYPE_PUSH}"
    by (simp add: const_defs)
  have empty: "read_varint [] = Inl ERR_H3_FRAME_ERROR" by (simp add: read_varint_def)
  note defs = transport_output_def recv_unidirectional_stream_data_def recv_request_data_def take_seen assms append_input_def
    h3_stream_default_def await_byte_def recv_typed_stream_def parse_stream_header_def stream_code_def empty
  show "\<exists>h'. transport_output q h (TransportStreamDataReceived sid [b] False) c = Some (next_byte sid, h')
      \<and> stream_seen h' sid = h3_stream_default\<lparr>hs_buffer := part @ [b]\<rparr>" if "read_varint (part @ [b]) = Inl e"
    using that by (simp add: defs)
  show "\<exists>h'. transport_output q h (TransportStreamDataReceived sid [b] False) c = Some (next_byte sid, h')
      \<and> stream_seen h' sid = h3_stream_default\<lparr>hs_stream_type := Some H3_STREAM_TYPE_WEBTRANSPORT\<rparr>"
    if "read_varint (part @ [b]) = Inr (stream_code sid, r)"
    using that wt by (auto simp: defs)
qed

lemma id_byte:
  assumes "stream_seen h sid = h3_stream_default\<lparr>hs_stream_type := Some H3_STREAM_TYPE_WEBTRANSPORT, hs_buffer := part\<rparr>"
  shows "read_varint (part @ [b]) = Inl e \<Longrightarrow> \<exists>h'. transport_output q h (TransportStreamDataReceived sid [b] False) c = Some (next_byte sid, h')
      \<and> stream_seen h' sid = h3_stream_default\<lparr>hs_stream_type := Some H3_STREAM_TYPE_WEBTRANSPORT, hs_buffer := part @ [b]\<rparr>"
    and "read_varint (part @ [b]) = Inr (i, r) \<Longrightarrow> is_valid_session_id i
      \<Longrightarrow> \<exists>h'. transport_output q h (TransportStreamDataReceived sid [b] False) c = Some (Inr ([H3WebTransportStreamOpened i sid], []), h')
        \<and> fmlookup (h3_streams h') sid = None"
proof -
  have wt: "H3_STREAM_TYPE_WEBTRANSPORT \<notin> {H3_STREAM_TYPE_CONTROL, H3_STREAM_TYPE_QPACK_DECODER, H3_STREAM_TYPE_QPACK_ENCODER, H3_STREAM_TYPE_PUSH}"
    by (simp add: const_defs)
  note defs = transport_output_def recv_unidirectional_stream_data_def recv_request_data_def take_seen assms append_input_def
    h3_stream_default_def await_byte_def recv_typed_stream_def parse_stream_header_def
  show "\<exists>h'. transport_output q h (TransportStreamDataReceived sid [b] False) c = Some (next_byte sid, h')
      \<and> stream_seen h' sid = h3_stream_default\<lparr>hs_stream_type := Some H3_STREAM_TYPE_WEBTRANSPORT, hs_buffer := part @ [b]\<rparr>"
    if "read_varint (part @ [b]) = Inl e"
    using that wt by (auto simp: defs)
  show "\<exists>h'. transport_output q h (TransportStreamDataReceived sid [b] False) c = Some (Inr ([H3WebTransportStreamOpened i sid], []), h')
      \<and> fmlookup (h3_streams h') sid = None" if "read_varint (part @ [b]) = Inr (i, r)" "is_valid_session_id i"
    using that wt by (auto simp: defs)
qed

lemma code_parts:
  assumes "write_varint [] v = Inr (part @ b # rest)"
  shows "rest \<noteq> [] \<Longrightarrow> \<exists>e. read_varint (part @ [b]) = Inl e" "rest = [] \<Longrightarrow> read_varint (part @ [b]) = Inr (v, [])"
  using varint.dec_truncated [OF assms, of "part @ [b]" rest] read_write_varint [OF assms, of "[]"] by simp_all

lemma type_bytes:
  assumes "write_varint [] (stream_code sid) = Inr (part @ rest)" "rest \<noteq> []"
    and "stream_seen h sid = h3_stream_default\<lparr>hs_buffer := part\<rparr>"
  shows "\<exists>h'. recv_bytes q h sid rest c = Some (replicate (length rest) (next_byte sid), h')
    \<and> stream_seen h' sid = h3_stream_default\<lparr>hs_stream_type := Some H3_STREAM_TYPE_WEBTRANSPORT\<rparr>"
  using assms
proof (induction rest arbitrary: part h)
  case (Cons b rest)
  note code = code_parts [OF Cons.prems(1)]
  show ?case
  proof (cases "rest = []")
    case True
    from type_byte(2) [OF Cons.prems(3) code(2) [OF True], of q c] True show ?thesis by auto
  next
    case False
    obtain e where "read_varint (part @ [b]) = Inl e" using code(1) [OF False] by blast
    from type_byte(1) [OF Cons.prems(3) this, of q c] obtain h2 where
      h2: "transport_output q h (TransportStreamDataReceived sid [b] False) c = Some (next_byte sid, h2)"
        "stream_seen h2 sid = h3_stream_default\<lparr>hs_buffer := part @ [b]\<rparr>" by blast
    from Cons.IH [OF _ False h2(2)] Cons.prems(1) h2(1) show ?thesis by auto
  qed
qed simp

lemma id_bytes:
  assumes "write_varint [] i = Inr (part @ rest)" "rest \<noteq> []" "is_valid_session_id i"
    and "stream_seen h sid = h3_stream_default\<lparr>hs_stream_type := Some H3_STREAM_TYPE_WEBTRANSPORT, hs_buffer := part\<rparr>"
  shows "\<exists>h'. recv_bytes q h sid rest c
      = Some (replicate (length rest - 1) (next_byte sid) @ [Inr ([H3WebTransportStreamOpened i sid], [])], h')
    \<and> fmlookup (h3_streams h') sid = None"
  using assms
proof (induction rest arbitrary: part h)
  case (Cons b rest)
  note code = code_parts [OF Cons.prems(1)]
  show ?case
  proof (cases "rest = []")
    case True
    from id_byte(2) [OF Cons.prems(4) code(2) [OF True] Cons.prems(3), of q c] True show ?thesis by auto
  next
    case False
    obtain e where "read_varint (part @ [b]) = Inl e" using code(1) [OF False] by blast
    from id_byte(1) [OF Cons.prems(4) this, of q c] obtain h2 where
      h2: "transport_output q h (TransportStreamDataReceived sid [b] False) c = Some (next_byte sid, h2)"
        "stream_seen h2 sid = h3_stream_default\<lparr>hs_stream_type := Some H3_STREAM_TYPE_WEBTRANSPORT, hs_buffer := part @ [b]\<rparr>" by blast
    obtain k where k: "length rest = Suc k" using False by (cases rest) auto
    from Cons.IH [OF _ False Cons.prems(3) h2(2)] Cons.prems(1) h2(1) k show ?thesis by auto
  qed
qed simp

text \<open>
  C13. A peer's stream is handed to its session exactly at the end of its header: the bytes of the
  header one end writes, delivered one by one to the other end, each make it ask for one more byte;
  the last one announces the stream with its session and ends the HTTP/3 layer's part in it, so no
  byte of the payload is consumed.
\<close>

theorem stream_header_announced:
  assumes "encode_stream_header sid i (is_unidirectional_stream sid) = [SendQuicData sid header False]"
    and "is_valid_session_id i" and "fmlookup (h3_streams h) sid = None"
  shows "\<exists>h'. recv_bytes q h sid header c
      = Some (replicate (length header - 1) (next_byte sid) @ [Inr ([H3WebTransportStreamOpened i sid], [])], h')
    \<and> fmlookup (h3_streams h') sid = None"
proof -
  obtain t where t: "write_varint [] (stream_code sid) = Inr t" "write_varint t i = Inr header"
    using assms(1) by (auto simp: encode_stream_header_def Let_def stream_code_def put_varints_def put_varint_def split: sum.splits if_splits)
  then obtain d where d: "write_varint [] i = Inr d" "header = t @ d"
    using write_varint_buffer [of t i] by (auto split: sum.splits)
  have ne: "t \<noteq> []" "d \<noteq> []" using varint.enc_nonempty t(1) d(1) by blast+
  have "stream_seen h sid = h3_stream_default\<lparr>hs_buffer := []\<rparr>" using assms(3) by (simp add: stream_seen_def h3_stream_default_def)
  from type_bytes [of sid "[]", OF _ ne(1) this, of q c] t(1) obtain h2 where
    h2: "recv_bytes q h sid t c = Some (replicate (length t) (next_byte sid), h2)"
      "stream_seen h2 sid = h3_stream_default\<lparr>hs_stream_type := Some H3_STREAM_TYPE_WEBTRANSPORT\<rparr>" by auto
  from h2(2) have "stream_seen h2 sid = h3_stream_default\<lparr>hs_stream_type := Some H3_STREAM_TYPE_WEBTRANSPORT, hs_buffer := []\<rparr>"
    by (simp add: h3_stream_default_def)
  from id_bytes [of i "[]", OF _ ne(2) assms(2) this, of q c] d(1) obtain h3 where
    "recv_bytes q h2 sid d c = Some (replicate (length d - 1) (next_byte sid) @ [Inr ([H3WebTransportStreamOpened i sid], [])], h3)"
    "fmlookup (h3_streams h3) sid = None" by auto
  moreover obtain k where "length d = Suc k" using ne(2) by (cases d) auto
  ultimately show ?thesis
    using h2(1) d(2)
    by (auto simp: recv_bytes_append replicate_add [symmetric] simp flip: append_assoc)
qed

theorem stream_header_announced_witness:
  "\<forall>c. \<exists>h'. recv_bytes plain_qpack (example_h3 True) 3 [0x40, 0x54, 8] c
      = Some ([next_byte 3, next_byte 3, Inr ([H3WebTransportStreamOpened 8 3], [])], h')"
proof
  fix c
  have "encode_stream_header 3 8 (is_unidirectional_stream 3) = [SendQuicData 3 [0x40, 0x54, 8] False]" "is_valid_session_id 8"
    by code_simp+
  from stream_header_announced [OF this, of "example_h3 True" plain_qpack c]
  show "\<exists>h'. recv_bytes plain_qpack (example_h3 True) 3 [0x40, 0x54, 8] c
      = Some ([next_byte 3, next_byte 3, Inr ([H3WebTransportStreamOpened 8 3], [])], h')"
    by (simp add: numeral_2_eq_2) blast
qed

subsection \<open>Requests for a session\<close>

text \<open>The header fields a request may carry after its pseudo-headers.\<close>

definition request_field_ok :: "bytes \<times> bytes \<Rightarrow> bool" where
  "request_field_ok = (\<lambda>(key, v). is_valid_header key v \<and> \<not> is_connection_specific_header key v True \<and> \<not> is_pseudo key
    \<and> key \<noteq> bstr ''host'')"

lemma user_headers_fields: "is_valid_user_headers headers True \<Longrightarrow> list_all request_field_ok headers"
  by (auto simp: is_valid_user_headers_def request_field_ok_def is_pseudo_def list_all_iff split: list.splits)

lemma scan_fields: "list_all request_field_ok headers \<Longrightarrow>
    \<exists>after. scan_request headers p = Some (p\<lparr>ph_after_pseudo := after\<rparr>)"
proof (induction headers arbitrary: p)
  case Nil
  show ?case by (intro exI [of _ "ph_after_pseudo p"]) simp
next
  case (Cons f headers)
  obtain key v where "f = (key, v)" by fastforce
  with Cons.prems Cons.IH [of "p\<lparr>ph_after_pseudo := True\<rparr>"] show ?case by (auto simp: request_field_ok_def)
qed

definition connect_target_ok :: "string \<Rightarrow> string \<Rightarrow> bool" where
  "connect_target_ok authority path \<longleftrightarrow>
    authority \<noteq> [] \<and> is_valid_header (bstr '':authority'') (as_bytes authority)
    \<and> (\<exists>rest. as_bytes path = 47 # rest) \<and> list_all is_ascii_graphic (as_bytes path)
    \<and> is_valid_header (bstr '':path'') (as_bytes path)"

lemma pseudo_keys:
  "key \<in> {bstr '':method'', bstr '':scheme'', bstr '':authority'', bstr '':path'', bstr '':protocol''} \<Longrightarrow>
    is_pseudo key \<and> \<not> is_connection_specific_header key v True"
proof -
  assume "key \<in> {bstr '':method'', bstr '':scheme'', bstr '':authority'', bstr '':path'', bstr '':protocol''}"
  then have "is_pseudo key" by (elim insertE) (simp_all add: is_pseudo_def as_bytes_def)
  moreover have "\<not> is_connection_specific_header key v True"
    using \<open>key \<in> _\<close> by (elim insertE) (simp_all add: is_connection_specific_header_def)
  ultimately show ?thesis ..
qed

lemma fixed_headers_valid:
  "is_valid_header (bstr '':method'') (bstr ''CONNECT'')" "is_valid_header (bstr '':scheme'') (bstr ''https'')"
  "is_valid_header (bstr '':protocol'') WT_UPGRADE_TOKEN"
  by code_simp+

lemma connect_request_valid:
  assumes "connect_target_ok authority path" "list_all request_field_ok headers"
  shows "validate_request_headers sid (connect_request_headers authority path headers) = Inr ()"
proof -
  let ?p = "no_pseudo_headers\<lparr>ph_method := Some (bstr ''CONNECT''), ph_scheme := Some (bstr ''https''),
    ph_authority := Some (as_bytes authority), ph_path := Some (as_bytes path), ph_protocol := Some WT_UPGRADE_TOKEN\<rparr>"
  have "scan_request (connect_request_headers authority path headers) no_pseudo_headers = scan_request headers ?p"
    using assms(1) fixed_headers_valid
    by (simp add: connect_request_headers_def pseudo_keys connect_target_ok_def put_pseudo_def no_pseudo_headers_def)
  then obtain after where scan: "scan_request (connect_request_headers authority path headers) no_pseudo_headers
      = Some (?p\<lparr>ph_after_pseudo := after\<rparr>)"
    using scan_fields [OF assms(2), of ?p] by auto
  then show ?thesis
    using assms(1)
    by (auto simp: validate_request_headers_def connect_target_ok_def is_valid_pseudo_def is_valid_path_def is_valid_authority_def
        is_http_path_def no_pseudo_headers_def as_bytes_def)
qed

lemma connect_request_upgrade: "is_webtransport_upgrade (connect_request_headers authority path headers)"
  by (simp add: is_webtransport_upgrade_def connect_request_headers_def)

definition begun_stream :: "nat \<Rightarrow> H3Stream" where
  "begun_stream n = h3_stream_default\<lparr>hs_is_request_stream := True, hs_frame_type := Some H3_FRAME_TYPE_HEADERS,
    hs_frame_size := Some n, hs_blocked_frame_size := Some n\<rparr>"

lemma headers_frame_begins:
  assumes "\<not> h3_is_client h" "fmlookup (h3_streams h) sid = None" "encode_frame_header H3_FRAME_TYPE_HEADERS n = Inr header"
    and n: "0 < n" "n < 2 ^ 62" "n \<le> unat (h3_max_field_section_size h)"
  shows "\<exists>effects. recv_request_data q h sid header False = Some (Inr ([], effects), put_h3_stream h sid (begun_stream n))"
proof -
  have size: "unat (of_nat n :: u64) = n" using n by (simp add: unat_of_nat)
  have pair: "read_pair header = Some (H3_FRAME_TYPE_HEADERS, of_nat n, [])"
    using assms(3) read_pair_written [of H3_FRAME_TYPE_HEADERS "of_nat n" header "[]"] by (simp add: encode_frame_header_def)
  then obtain r where first: "read_varint header = Inr (H3_FRAME_TYPE_HEADERS, r)"
    by (auto simp: read_pair_def split: sum.splits)
  have "header \<noteq> []" using first by (auto simp: read_varint_def)
  let ?h = "h\<lparr>h3_streams := fmdrop sid (h3_streams h)\<rparr>" and ?s = "h3_stream_default\<lparr>hs_is_request_stream := True, hs_buffer := header\<rparr>"
  have "next_frame ?h sid ?s = Inr (Some (begun_stream n))"
    using pair size n(3) by (simp add: next_frame_eq h3_stream_default_def begun_stream_def const_defs)
  then have "frame_turn q sid False (?s, ?h) = (Inr (([], []), False), (begun_stream n, ?h))"
    using \<open>header \<noteq> []\<close> n(1) by (simp add: frame_turn_def begun_stream_def h3_stream_default_def const_defs)
  then have "frames_loop q sid False (?s, ?h) = Some (Inr ([], []), (begun_stream n, ?h))"
    by (subst frames_loop.simps) simp
  moreover have "put_h3_stream ?h sid (begun_stream n) = put_h3_stream h sid (begun_stream n)"
    by (auto simp: put_h3_stream_def intro!: fmap_ext arg_cong [where f = "\<lambda>m. h\<lparr>h3_streams := m\<rparr>"])
  ultimately show ?thesis
    using assms(1,2) first
    by (simp add: recv_request_data_def take_h3_stream_def recv_request_frames_def parse_stream_data_def append_input_def
        h3_stream_default_def begun_stream_def const_defs)
qed

lemma headers_frame_ends:
  assumes "\<not> h3_is_client h" "fmlookup (h3_streams h) sid = Some (begun_stream (length block))" "block \<noteq> []"
    and "qp_decode_header q (h3_decoder h) sid block = (Inr (acks, Done hdrs), d')"
    and "validate_request_headers sid hdrs = Inr ()" "is_webtransport_upgrade hdrs"
  shows "\<exists>effects h'. recv_request_data q h sid block False = Some (Inr ([H3HeadersReceived sid hdrs], effects), h')
    \<and> fmlookup (h3_streams h') sid = Some (h3_stream_default\<lparr>hs_is_request_stream := True, hs_is_connect_stream := True,
         hs_headers_processed := True\<rparr>)"
proof -
  let ?h = "h\<lparr>h3_streams := fmdrop sid (h3_streams h)\<rparr>" and ?s = "(begun_stream (length block))\<lparr>hs_buffer := block\<rparr>"
  let ?t = "h3_stream_default\<lparr>hs_is_request_stream := True, hs_is_connect_stream := True, hs_headers_processed := True\<rparr>"
  obtain fx where "frame_turn q sid False (?s, ?h) = (Inr (([H3HeadersReceived sid hdrs], fx), True), (?t, ?h\<lparr>h3_decoder := d'\<rparr>))"
    using assms
    by (simp add: frame_turn_def next_frame_def begun_stream_def h3_stream_default_def handle_request_frame_def const_defs
        handle_headers_frame_def decode_headers_def end_frame_def)
  moreover have "frames_loop q sid False (?t, h') = Some (Inr ([], []), (?t, h'))" for h' :: "('a, 'b) H3"
    by (subst frames_loop.simps) (simp add: frame_turn_def h3_stream_default_def)
  ultimately have "frames_loop q sid False (?s, ?h) = Some (Inr ([H3HeadersReceived sid hdrs], fx), (?t, ?h\<lparr>h3_decoder := d'\<rparr>))"
    by (simp add: frames_loop_continues)
  then show ?thesis
    using assms(2)
    by (simp add: recv_request_data_def take_h3_stream_def recv_request_frames_def parse_stream_data_def append_input_def
        h3_stream_default_def begun_stream_def put_h3_stream_def)
qed

definition stream_chunks :: "StreamId \<Rightarrow> effects \<Rightarrow> bytes list" where
  "stream_chunks sid effects =
    concat (map (\<lambda>e. case e of SendQuicData i d f \<Rightarrow> if i = sid then [d] else [] | _ \<Rightarrow> []) effects)"



end
