(* ===== verification/Engine_Settings.thy ===== *)
theory Engine_Settings
  imports Engine_Loop H3_Settings H3_Opening
begin

text \<open>
  The exchange of SETTINGS between two engines: each learns the limits of the other, and both come to
  the same conclusion about flow control.
\<close>

subsection \<open>The frame\<close>

lemma local_settings_ok: "settings_ok (local_settings h)"
  by (simp add: settings_ok_def settings_entries_def known_settings_def local_settings_def no_settings_def SETTINGS_ENTRIES_LIMIT_def)

lemma put_varints_length: "put_varints b v w = Inr c \<Longrightarrow> length c \<le> length b + 16"
  using length_write_varint [of b v] length_write_varint [of _ w]
  by (fastforce simp: put_varints_def put_varint_def varint_size_def split: sum.splits if_splits)

lemma encode_unknown_length: "encode_unknown b es = Inr c \<Longrightarrow> length c \<le> length b + 16 * length es"
proof (induction b es rule: encode_unknown.induct)
  case (2 b i v es)
  then show ?case using put_varints_length [of b i v] by (fastforce split: sum.splits)
qed simp

lemma settings_frame:
  assumes "initialize_settings h = Inr frame"
  obtains n payload where "read_pair frame = Some (H3_FRAME_TYPE_SETTINGS, n, payload)" "unat n = length payload"
    "length payload \<le> CONTROL_FRAME_SIZE_LIMIT" "parse_settings payload = Inr (local_settings h)"
proof -
  obtain b header where b: "encode_settings (local_settings h) = Inr b"
      "encode_frame_header H3_FRAME_TYPE_SETTINGS (length b) = Inr header" "frame = header @ b"
    using assms by (auto simp: initialize_settings_def split: sum.splits)
  have "length (settings_entries (local_settings h)) = 9"
    by (simp add: settings_entries_def known_settings_def local_settings_def no_settings_def)
  then have "length b \<le> CONTROL_FRAME_SIZE_LIMIT"
    using encode_unknown_length [of "[]" _ b] b(1) by (fastforce simp: encode_settings_entries CONTROL_FRAME_SIZE_LIMIT_def)
  moreover have "read_pair frame = Some (H3_FRAME_TYPE_SETTINGS, of_nat (length b), b)"
    using read_pair_written b(2,3) by (simp add: encode_frame_header_def)
  moreover have "unat (of_nat (length b) :: u64) = length b"
    using calculation(1) by (simp add: unat_of_nat CONTROL_FRAME_SIZE_LIMIT_def)
  ultimately show thesis using that parse_encoded [OF local_settings_ok b(1)] by blast
qed

lemma settings_frame_exists:
  assumes "hp_initial_max_data p \<le> QUIC_VARINT_LIMIT" "hp_initial_max_streams_bidi p \<le> QUIC_VARINT_LIMIT"
    "hp_initial_max_streams_uni p \<le> QUIC_VARINT_LIMIT" "hp_max_field_section_size p \<le> QUIC_VARINT_LIMIT"
  shows "\<exists>frame. initialize_settings (h3_new q client p) = Inr frame"
proof -
  let ?s = "local_settings (h3_new q client p)"
  have "\<forall>(i, v) \<in> set (settings_entries ?s). i \<le> QUIC_VARINT_LIMIT \<and> v \<le> QUIC_VARINT_LIMIT"
    using assms
    by (simp add: settings_entries_def known_settings_def local_settings_def no_settings_def h3_new_def const_defs QUIC_VARINT_LIMIT_code
        QPACK_DECODER_BLOCKED_STREAM_CAPACITY_def QPACK_DECODER_TABLE_CAPACITY_def)
  from encode_fits [OF this, of "[]"] obtain b where b: "encode_settings ?s = Inr b" by (auto simp: encode_settings_entries)
  have "length b \<le> 144"
    using encode_unknown_length [of "[]" "settings_entries ?s" b] b
    by (simp add: encode_settings_entries settings_entries_def known_settings_def local_settings_def no_settings_def)
  then have "of_nat (length b) \<le> QUIC_VARINT_LIMIT" using of_nat_varint [of "length b"] by simp
  moreover have "H3_FRAME_TYPE_SETTINGS \<le> QUIC_VARINT_LIMIT" by (simp add: const_defs QUIC_VARINT_LIMIT_code)
  ultimately obtain header where "encode_frame_header H3_FRAME_TYPE_SETTINGS (length b) = Inr header"
    using put_varints_fits by (metis encode_frame_header_def)
  with b show ?thesis by (simp add: initialize_settings_def)
qed

lemma local_settings_valid:
  assumes "con_peer_max_datagram_frame_size c = Some n" "0 < n"
  shows "validate_settings (local_settings h) c = Inr ()"
  using assms by (simp add: validate_settings_def local_settings_def no_settings_def)

subsection \<open>The control stream\<close>

definition applies_settings :: "('d, 'e) Qpack \<Rightarrow> bool" where
  "applies_settings q \<longleftrightarrow> (\<forall>e m n. \<exists>instructions e'. qp_apply_settings q e m n = (Inr instructions, e'))"

lemma control_stream_opens:
  assumes "is_unidirectional_stream sid" "fmlookup (h3_streams h) sid = None" "h3_peer_control_stream_id h = None"
    "h3_peer_decoder_stream_id h = None" "h3_peer_encoder_stream_id h = None"
  shows "\<exists>fx h'. handle_transport_event q h (TransportStreamDataReceived sid [0] False) c = Some (([], fx), h')
    \<and> fmlookup (h3_streams h') sid = Some (h3_stream_default\<lparr>hs_stream_type := Some H3_STREAM_TYPE_CONTROL\<rparr>)
    \<and> h3_settings_received h' = h3_settings_received h"
proof -
  have "write_varint [] 0 = Inr [0]" by code_simp
  then have r: "read_varint [0] = Inr (0, [])" "read_varint [] = Inl ERR_H3_FRAME_ERROR"
    using read_write_varint [of 0 "[0]" "[]"] by (simp_all add: read_varint_def [of "[]"])
  have "control_frames q g [] c = ((Inr ([], []), []), g)" for g :: "('a, 'b) H3"
    by (subst control_frames.simps) (simp add: r)
  then show ?thesis
    using assms r
    by (simp add: handle_transport_event_def transport_output_def recv_unidirectional_stream_data_def take_h3_stream_def append_input_def
        h3_stream_default_def register_peer_infrastructure_stream_def is_one_of_def recv_typed_stream_def keep_reading_def const_defs
        resolve_output_def put_h3_stream_def)
qed

lemma control_stream_settings:
  assumes uni: "is_unidirectional_stream sid"
    and s: "fmlookup (h3_streams h) sid = Some (h3_stream_default\<lparr>hs_stream_type := Some H3_STREAM_TYPE_CONTROL\<rparr>)"
    and new: "\<not> h3_settings_received h" and q: "applies_settings q" and c: "con_peer_max_datagram_frame_size c = Some n" "0 < n"
    and frame: "initialize_settings peer = Inr frame"
  shows "\<exists>fx h'. handle_transport_event q h (TransportStreamDataReceived sid frame False) c
    = Some (([H3SettingsReceived (local_settings peer)], fx), h')"
proof -
  let ?h = "h\<lparr>h3_streams := fmdrop sid (h3_streams h)\<rparr>"
  obtain k payload where f: "read_pair frame = Some (H3_FRAME_TYPE_SETTINGS, k, payload)" "unat k = length payload"
      "length payload \<le> CONTROL_FRAME_SIZE_LIMIT" "parse_settings payload = Inr (local_settings peer)"
    using settings_frame [OF frame] by blast
  obtain i e' where "qp_apply_settings q (h3_encoder ?h) (or_zero (set_qpack_max_table_capacity (local_settings peer)))
      (or_zero (set_qpack_blocked_streams (local_settings peer))) = (Inr i, e')"
    using q unfolding applies_settings_def by blast
  then obtain fx h2 where hs: "handle_control_frame q ?h H3_FRAME_TYPE_SETTINGS payload c = (Inr ([H3SettingsReceived (local_settings peer)], fx), h2)"
    using new f(4) local_settings_valid [OF c, of peer] by (simp add: handle_control_frame_def handle_settings_def const_defs)
  have "control_frames q h2 [] c = ((Inr ([], []), []), h2)"
    by (subst control_frames.simps) (simp add: read_varint_def)
  then have "control_frames q ?h frame c = ((Inr ([H3SettingsReceived (local_settings peer)], fx), []), h2)"
    using f hs by (simp add: control_frames_eq [of q ?h frame] const_defs)
  then show ?thesis
    using uni s
    by (simp add: handle_transport_event_def transport_output_def recv_unidirectional_stream_data_def take_h3_stream_def append_input_def
        h3_stream_default_def recv_typed_stream_def keep_reading_def resolve_output_def)
qed

subsection \<open>Two engines\<close>

text \<open>What an engine is given: the transport parameters, and the control stream of its peer.\<close>

definition settings_inputs :: "u64 \<Rightarrow> StreamId \<Rightarrow> bytes \<Rightarrow> (ProtocolEvent \<times> f64) list" where
  "settings_inputs n sid frame = map (\<lambda>e. (e, 0))
    [TransportQuicParametersReceived n, TransportStreamDataReceived sid [0] False, TransportStreamDataReceived sid frame False]"

lemma engine_learns_settings:
  assumes uni: "is_unidirectional_stream sid" and n: "0 < n" and q: "applies_settings q" and frame: "initialize_settings peer = Inr frame"
  shows "\<exists>es self. handle_events q (engine_new q handle rid client p) (settings_inputs n sid frame) = Some (es, self)
    \<and> eng_connection self = snd (recv_settings (snd (recv_transport_parameters (connection_new handle rid client (connection_parameters p)) n))
        (local_settings peer) 0)"
proof -
  let ?c0 = "connection_new handle rid client (connection_parameters p)"
  let ?c = "snd (recv_transport_parameters ?c0 n)" and ?h = "h3_new q client (h3_parameters p)"
  have fresh: "\<not> connection_has_stream ?c sid" "con_state ?c = ConnectionState.Idle" "con_peer_max_datagram_frame_size ?c = Some n"
    by (simp_all add: recv_transport_parameters_def connection_new_def connection_has_stream_def)
  obtain fx1 h1 where h1: "handle_transport_event q ?h (TransportStreamDataReceived sid [0] False) ?c = Some (([], fx1), h1)"
      "fmlookup (h3_streams h1) sid = Some (h3_stream_default\<lparr>hs_stream_type := Some H3_STREAM_TYPE_CONTROL\<rparr>)" "\<not> h3_settings_received h1"
    using control_stream_opens [OF uni, of ?h q ?c] by (auto simp: h3_new_def)
  obtain fx2 h2 where h2: "handle_transport_event q h1 (TransportStreamDataReceived sid frame False) ?c
      = Some (([H3SettingsReceived (local_settings peer)], fx2), h2)"
    using control_stream_settings [OF uni h1(2,3) q fresh(3) n frame] by blast
  let ?d = "recv_settings ?c (local_settings peer) 0"
  have idle: "\<not> is_connected (snd ?d)"
    using fresh(2) by (simp add: recv_settings_def is_connected_def)
  define e0 where "e0 = engine_new q handle rid client p"
  have "handle_event q (TransportQuicParametersReceived n) 0 e0 = Some ([], e0\<lparr>eng_connection := ?c\<rparr>)"
    by (simp add: e0_def engine_new_def handle_event_def engine_loop_Cons engine_turn_def is_h3_input_def engine_event_def on_connection_def
        replays_pending_def recv_transport_parameters_def)
  moreover have "handle_event q (TransportStreamDataReceived sid [0] False) 0 (e0\<lparr>eng_connection := ?c\<rparr>)
      = Some (fx1, e0\<lparr>eng_connection := ?c, eng_h3 := h1\<rparr>)"
    using h1(1) fresh(1) by (simp add: e0_def engine_new_def handle_event_def engine_loop_Cons engine_turn_def is_h3_input_def)
  moreover have "\<exists>es self. handle_event q (TransportStreamDataReceived sid frame False) 0 (e0\<lparr>eng_connection := ?c, eng_h3 := h1\<rparr>)
      = Some (es, self) \<and> eng_connection self = snd ?d"
    using h2 fresh(1) idle
    by (simp add: handle_event_def engine_loop_Cons engine_turn_def is_h3_input_def engine_event_def on_connection_def
        replays_pending_def case_prod_beta)
  ultimately show ?thesis
    unfolding e0_def [symmetric] by (auto simp: settings_inputs_def)
qed

lemma settings_learned:
  assumes "eng_connection self = snd (recv_settings (snd (recv_transport_parameters (connection_new handle rid client (connection_parameters p)) n))
      (local_settings (h3_new q' client' (h3_parameters p'))) 0)"
  shows "con_initial_max_data (eng_connection self) = ep_initial_max_data p"
    "con_initial_max_streams_bidi (eng_connection self) = ep_initial_max_streams_bidi p"
    "con_initial_max_streams_uni (eng_connection self) = ep_initial_max_streams_uni p"
    "con_peer_initial_max_data (eng_connection self) = ep_initial_max_data p'"
    "con_peer_initial_max_streams_bidi (eng_connection self) = ep_initial_max_streams_bidi p'"
    "con_peer_initial_max_streams_uni (eng_connection self) = ep_initial_max_streams_uni p'"
  by (simp_all add: assms recv_settings_def recv_transport_parameters_def connection_new_def connection_parameters_def local_settings_def
      h3_new_def h3_parameters_def no_settings_def or_keep_def)

text \<open>
  C12. Two ends that exchange their SETTINGS agree: when the SETTINGS frame each engine writes arrives
  on the control stream of the other, both process it, each knows exactly the limits the other was
  configured with, and both decide alike whether flow control is in force.
\<close>

theorem settings_agree:
  assumes "applies_settings q" and "applies_settings q'" and "0 < n" and "0 < n'"
    and "is_unidirectional_stream sid" and "is_unidirectional_stream sid'"
    and "initialize_settings (eng_h3 (engine_new q h rid True p)) = Inr frame"
    and "initialize_settings (eng_h3 (engine_new q' h' rid' False p')) = Inr frame'"
  shows "\<exists>es client es' server.
      handle_events q (engine_new q h rid True p) (settings_inputs n sid frame') = Some (es, client)
    \<and> handle_events q' (engine_new q' h' rid' False p') (settings_inputs n' sid' frame) = Some (es', server)
    \<and> has_flow_control (eng_connection client) = has_flow_control (eng_connection server)
    \<and> con_peer_initial_max_data (eng_connection client) = ep_initial_max_data p'
    \<and> con_peer_initial_max_data (eng_connection server) = ep_initial_max_data p
    \<and> con_peer_initial_max_streams_bidi (eng_connection client) = ep_initial_max_streams_bidi p'
    \<and> con_peer_initial_max_streams_bidi (eng_connection server) = ep_initial_max_streams_bidi p
    \<and> con_peer_initial_max_streams_uni (eng_connection client) = ep_initial_max_streams_uni p'
    \<and> con_peer_initial_max_streams_uni (eng_connection server) = ep_initial_max_streams_uni p"
proof -
  have frames: "initialize_settings (h3_new q True (h3_parameters p)) = Inr frame"
    "initialize_settings (h3_new q' False (h3_parameters p')) = Inr frame'"
    using assms(7,8) by (simp_all add: engine_new_def)
  obtain es client where c: "handle_events q (engine_new q h rid True p) (settings_inputs n sid frame') = Some (es, client)"
    "eng_connection client = snd (recv_settings (snd (recv_transport_parameters (connection_new h rid True (connection_parameters p)) n))
      (local_settings (h3_new q' False (h3_parameters p'))) 0)"
    using engine_learns_settings [OF assms(5,3,1) frames(2)] by blast
  obtain es' server where s: "handle_events q' (engine_new q' h' rid' False p') (settings_inputs n' sid' frame) = Some (es', server)"
    "eng_connection server = snd (recv_settings (snd (recv_transport_parameters (connection_new h' rid' False (connection_parameters p')) n'))
      (local_settings (h3_new q True (h3_parameters p))) 0)"
    using engine_learns_settings [OF assms(6,4,2) frames(1)] by blast
  show ?thesis
    by (intro exI [of _ es] exI [of _ client] exI [of _ es'] exI [of _ server])
       (auto simp: c(1) s(1) has_flow_control_def settings_learned [OF c(2)] settings_learned [OF s(2)])
qed

definition example_engine_parameters :: EngineParameters where
  "example_engine_parameters =
    \<lparr>ep_early_event_ttl = 5, ep_initial_max_data = 100, ep_initial_max_streams_bidi = 2, ep_initial_max_streams_uni = 2,
     ep_max_capsule_size = 64, ep_max_connection_pending_events = 8, ep_max_field_section_size = 1000,
     ep_max_pending_capsules = 4, ep_max_pending_datagrams = 4, ep_max_pending_streams = 4,
     ep_max_session_pending_events = 4, ep_max_sessions = 2, ep_max_write_buffer_size = 64, ep_session_receive_window = 100\<rparr>"

lemma example_engine_parameters_simps [simp]: "ep_max_write_buffer_size example_engine_parameters = 64"
  by (simp add: example_engine_parameters_def)

theorem settings_agree_witness:
  "\<exists>frame frame' es client es' server.
      initialize_settings (eng_h3 (engine_new plain_qpack 7 (Some 9) True example_engine_parameters)) = Inr frame
    \<and> initialize_settings (eng_h3 (engine_new plain_qpack 8 None False example_engine_parameters)) = Inr frame'
    \<and> handle_events plain_qpack (engine_new plain_qpack 7 (Some 9) True example_engine_parameters) (settings_inputs 1200 3 frame') = Some (es, client)
    \<and> handle_events plain_qpack (engine_new plain_qpack 8 None False example_engine_parameters) (settings_inputs 1200 2 frame) = Some (es', server)
    \<and> has_flow_control (eng_connection client) = has_flow_control (eng_connection server)"
proof -
  have "\<exists>frame. initialize_settings (eng_h3 (engine_new plain_qpack h rid client example_engine_parameters)) = Inr frame" for h rid client
    using settings_frame_exists [of "h3_parameters example_engine_parameters" plain_qpack client]
    by (simp add: engine_new_def h3_parameters_def example_engine_parameters_def QUIC_VARINT_LIMIT_code)
  then obtain frame frame' where
    frames: "initialize_settings (eng_h3 (engine_new plain_qpack 7 (Some 9) True example_engine_parameters)) = Inr frame"
      "initialize_settings (eng_h3 (engine_new plain_qpack 8 None False example_engine_parameters)) = Inr frame'" by blast
  have q: "applies_settings plain_qpack" by (simp add: applies_settings_def plain_qpack_def)
  have uni: "is_unidirectional_stream 3" "is_unidirectional_stream 2" by code_simp+
  show ?thesis
    using settings_agree [OF q q _ _ uni frames, of 1200 1200] frames by auto
qed

end
