(* ===== verification/Engine_Theorems.thy ===== *)
theory Engine_Theorems
  imports Engine_Settings Connection_Theorems
begin

text \<open>
  Properties of the engine: it returns, its connection makes an admissible run of its own, and every
  request is answered once.
\<close>

subsection \<open>The engine returns\<close>

definition is_late :: "ProtocolEvent \<Rightarrow> bool" where
  "is_late e \<longleftrightarrow> is_plain_event e \<or> is_create e \<or> (\<exists>i sid. e = H3WebTransportStreamOpened i sid)"

definition eng_ready :: "('d, 'e) WebTransportEngine \<Rightarrow> bool" where
  "eng_ready self \<longleftrightarrow> unblocked (eng_h3 self) \<and> list_all is_create (eng_pending_user_events self)"

lemma late_not_h3: "is_late e \<Longrightarrow> \<not> is_h3_input e c"
  by (cases e) (auto simp: is_late_def is_h3_input_def is_plain_event_def is_h3_event_def user_create_request_def)

lemma ready_turn:
  assumes "eng_ready self" "\<not> is_h3_input e (eng_connection self)"
  obtains events effects s where "engine_turn q e now self = Some (events, effects, s)" "eng_ready s"
    "list_all is_create events" "is_create e \<longrightarrow> events = []"
proof -
  have pending: "list_all is_create (eng_pending_user_events self)" using assms(1) by (simp add: eng_ready_def)
  note f = engine_event_follows [OF assms(2) pending, of now q]
  obtain effects s where p: "engine_event q e now self = (effects, s)" by fastforce
  have s: "eng_ready s"
    using assms(1) waits_pending [OF f pending] f p by (simp add: eng_ready_def follows_def)
  show thesis
  proof (cases "replays_pending e (eng_connection s)")
    case True
    have "\<not> is_create e"
      using True by (auto simp: replays_pending_def user_create_request_def split: ProtocolEvent.splits)
    moreover have "engine_turn q e now self = Some (eng_pending_user_events s, effects, s\<lparr>eng_pending_user_events := []\<rparr>)"
      using assms(2) p True by (simp add: engine_turn_def)
    ultimately show thesis
      using s by (intro that [of "eng_pending_user_events s" effects "s\<lparr>eng_pending_user_events := []\<rparr>"]) (simp_all add: eng_ready_def)
  next
    case False
    then have "engine_turn q e now self = Some ([], effects, s)" using assms(2) p by (simp add: engine_turn_def)
    with s show thesis by (intro that [of "[]" effects s]) simp_all
  qed
qed

lemma late_loop_returns:
  assumes "eng_ready self" "list_all is_late queue"
  shows "\<exists>es self'. engine_loop q now (queue, self) = Some (es, self') \<and> eng_ready self'"
  using assms
proof (induction "(length (filter (\<lambda>e. \<not> is_create e) queue), length queue)" arbitrary: queue self
    rule: wf_induct_rule [OF wf_lex_prod [OF wf_less_than wf_less_than]])
  case 1
  show ?case
  proof (cases queue)
    case (Cons e rest)
    have e: "is_late e" and later: "list_all is_late rest" using 1(3) Cons by simp_all
    obtain events effects s where turn: "engine_turn q e now self = Some (events, effects, s)" "eng_ready s"
        "list_all is_create events" "is_create e \<longrightarrow> events = []"
      by (rule ready_turn [OF 1(2) late_not_h3 [OF e], where q = q and now = now])
    have "filter (\<lambda>e. \<not> is_create e) events = []" using turn(3) by (auto simp: list_all_iff filter_empty_conv)
    then have "((length (filter (\<lambda>e. \<not> is_create e) (events @ rest)), length (events @ rest)),
        (length (filter (\<lambda>e. \<not> is_create e) queue), length queue)) \<in> less_than <*lex*> less_than"
      unfolding Cons using turn(4) by (cases "is_create e") auto
    moreover have "list_all is_late (events @ rest)" using turn(3) later by (auto simp: list_all_iff is_late_def)
    ultimately obtain es self' where "engine_loop q now (events @ rest, s) = Some (es, self')" "eng_ready self'"
      using 1(1) turn(2) by blast
    with turn(1) show ?thesis by (simp add: Cons engine_loop_Cons)
  qed (use 1(2) in simp)
qed

subsection \<open>Runs of the engine\<close>

lemma engine_new_simps [simp]:
  "eng_connection (engine_new q h rid client p) = connection_new h rid client (connection_parameters p)"
  "eng_h3 (engine_new q h rid client p) = h3_new q client (h3_parameters p)"
  "eng_pending_user_events (engine_new q h rid client p) = []"
  "eng_holds (engine_new q h rid client p) = mset (option_request rid)"
  by (simp_all add: engine_new_def eng_holds_def con_holds_def connection_new_def)

lemma engine_new_inv:
  assumes "unat (ep_max_write_buffer_size p) < 2 ^ 63"
  shows "eng_inv [] (engine_new q h rid client p)"
proof (rule eng_inv_I)
  show "con_inv (eng_connection (engine_new q h rid client p))"
    using connection_new_inv [of "connection_parameters p" h rid client] assms by (simp add: connection_parameters_def)
  show "unblocked (eng_h3 (engine_new q h rid client p))" by (simp add: h3_new_def unblocked_def)
  show "count (eng_holds (engine_new q h rid client p) + mset (submits_all [])) r \<le> 1" for r by (cases rid) simp_all
qed (simp_all add: connection_new_def)

subsection \<open>A run\<close>

text \<open>A client: the user asks for a session before the connection is up, the server's SETTINGS arrive
  on its control stream, then its response and a datagram.\<close>

definition example_engine :: "bool \<Rightarrow> (unit, unit) WebTransportEngine" where
  "example_engine client = engine_new plain_qpack 7 (Some 9) client example_engine_parameters"

text \<open>A SETTINGS frame with the one setting \<open>SETTINGS_WT_ENABLED\<close>.\<close>

definition example_settings_frame :: bytes where
  "example_settings_frame = [4, 5, 0xAC, 0x7C, 0xF0, 0, 1]"

definition example_response :: bytes where
  "example_response = (let payload = plain_encode [(bstr '':status'', bstr ''200'')] in [1, of_nat (length payload)] @ payload)"

definition example_inputs :: "(ProtocolEvent \<times> f64) list" where
  "example_inputs = map (\<lambda>e. (e, 0))
    [TransportQuicParametersReceived 1200, UserCreateSession 1 ''h'' ''/'' [] None, TransportHandshakeCompleted,
     TransportStreamOpened 3, TransportStreamDataReceived 3 [0] False, TransportStreamDataReceived 3 example_settings_frame False,
     InternalBindH3ConnectStream 1 0, TransportStreamDataReceived 0 example_response False,
     TransportDatagramReceived [0, 5], UserReadDatagram 2 0]"

lemma example_inputs_ok: "calls_ok (engine_step plain_qpack) engine_ok (example_engine True) example_inputs"
  by code_simp

lemma example_input_requests:
  "concat (map event_requests example_inputs) = [1, 2]" "concat (map event_returns example_inputs) = []"
  by (simp_all add: example_inputs_def event_requests_def event_returns_def step_submits_def)

lemma engine_new_ready: "eng_ready (engine_new q h rid client p)"
  by (simp add: eng_ready_def h3_new_def unblocked_def)

subsection \<open>Properties\<close>

text \<open>
  C10. Every event is processed to its end: the engine never loops on the events it causes itself, as
  long as header blocks never block and no stream ends inside a DATA frame; and it stays ready for the
  next event.
\<close>

theorem engine_returns:
  assumes "never_blocks q" and "eng_ready self"
    and "is_h3_input e (eng_connection self) \<Longrightarrow> \<not> event_cuts_data (eng_h3 self) e"
  shows "\<exists>es self'. handle_event q e now self = Some (es, self') \<and> eng_ready self'"
proof (cases "is_h3_input e (eng_connection self)")
  case True
  have u: "unblocked (eng_h3 self)" using assms(2) by (simp add: eng_ready_def)
  obtain out h' where t: "handle_transport_event q (eng_h3 self) e (eng_connection self) = Some (out, h')" "unblocked h'"
    by (rule handle_transport_event_ok [OF assms(1) u assms(3) [OF True], where c = "eng_connection self"])
  obtain events effects where out: "out = (events, effects)" by fastforce
  have "list_all is_late events"
    using handle_transport_event_clean(1) [OF t(1) [unfolded out] u] by (auto simp: is_late_def list_all_iff)
  moreover have "eng_ready (self\<lparr>eng_h3 := h'\<rparr>)" using assms(2) t(2) by (simp add: eng_ready_def)
  ultimately obtain es self' where "engine_loop q now (events, self\<lparr>eng_h3 := h'\<rparr>) = Some (es, self')" "eng_ready self'"
    using late_loop_returns by blast
  with True t out show ?thesis by (simp add: handle_event_def engine_loop_Cons engine_turn_def)
next
  case False
  obtain events effects s where turn: "engine_turn q e now self = Some (events, effects, s)" "eng_ready s" "list_all is_create events"
    "is_create e \<longrightarrow> events = []"
    by (rule ready_turn [OF assms(2) False, where q = q and now = now])
  then have "list_all is_late events" by (auto simp: list_all_iff is_late_def)
  with late_loop_returns [OF turn(2)] obtain es self' where "engine_loop q now (events, s) = Some (es, self')" "eng_ready self'"
    by blast
  with turn(1) show ?thesis by (simp add: handle_event_def engine_loop_Cons)
qed

theorem engine_returns_witness:
  "\<exists>es self'. handle_event plain_qpack (TransportDatagramReceived [0, 5]) 0 (example_engine False) = Some (es, self') \<and> eng_ready self'"
  using engine_returns [of plain_qpack "example_engine False" "TransportDatagramReceived [0, 5]" 0]
  by (simp add: example_engine_def event_cuts_data_def engine_new_ready)

text \<open>
  C1. The engine refines the connection: whatever admissible events it is given, it processes all of
  them, and its connection ends as after an admissible sequence of events of its own, whose effects
  appear in order among those of the engine.  So every property of connections holds of it.
\<close>

theorem engine_refines_connection:
  assumes "never_blocks q" and "unat (ep_max_write_buffer_size p) < 2 ^ 63"
    and "calls_ok (engine_step q) engine_ok (engine_new q h rid client p) events"
  shows "\<exists>es self calls. handle_events q (engine_new q h rid client p) events = Some (es, self)
    \<and> calls_ok connection_step event_ok (connection_new h rid client (connection_parameters p)) calls
    \<and> eng_connection self = snd (run_calls connection_step (connection_new h rid client (connection_parameters p)) calls)
    \<and> subseq (fst (run_calls connection_step (connection_new h rid client (connection_parameters p)) calls)) es"
proof -
  obtain es self where run: "run_calls (engine_step q) (engine_new q h rid client p) events = (es, self)" by fastforce
  note all = handle_events_run [OF engine_new_inv [OF assms(2)] assms(1,3), unfolded run fst_conv snd_conv engine_new_simps]
  then show ?thesis by (intro exI [of _ es] exI [of _ self]) (elim conjE exE, rule exI, intro conjI)
qed

theorem engine_refines_connection_witness:
  "\<exists>es self calls. handle_events plain_qpack (example_engine True) example_inputs = Some (es, self)
    \<and> calls_ok connection_step event_ok (connection_new 7 (Some 9) True (connection_parameters example_engine_parameters)) calls
    \<and> eng_connection self = snd (run_calls connection_step (connection_new 7 (Some 9) True (connection_parameters example_engine_parameters)) calls)
    \<and> subseq (fst (run_calls connection_step (connection_new 7 (Some 9) True (connection_parameters example_engine_parameters)) calls)) es"
  using engine_refines_connection [of plain_qpack example_engine_parameters 7 "Some 9" True example_inputs] example_inputs_ok
  by (simp add: example_engine_def)



text \<open>
  C19. One stream can stop a server for good: when the first bytes of a request stream are a DATA frame
  that the end of the stream cuts short, the loop over the frames goes round without progress and
  handling the event never returns.
\<close>

theorem cut_data_hangs_engine:
  assumes "\<not> h3_is_client (eng_h3 self)" and "\<not> connection_has_stream (eng_connection self) sid"
    and "\<not> is_unidirectional_stream sid" and "fmlookup (h3_streams (eng_h3 self)) sid = None"
    and "encode_frame_header H3_FRAME_TYPE_DATA n = Inr header" and "n < 2 ^ 62" and "length body < n"
  shows "handle_event q (TransportStreamDataReceived sid (header @ body) True) now self = None"
proof -
  have "fst (take_h3_stream (eng_h3 self) sid) = h3_stream_default" using assms(4) by (simp add: take_h3_stream_def)
  from request_cut_diverges [OF assms(1) this assms(5-7), of q]
  have "handle_transport_event q (eng_h3 self) (TransportStreamDataReceived sid (header @ body) True) (eng_connection self) = None"
    using assms(3) by (simp add: handle_transport_event_def transport_output_def)
  then show ?thesis using assms(2) by (simp add: handle_event_def engine_loop_Cons engine_turn_def is_h3_input_def)
qed

theorem cut_data_hangs_engine_witness:
  "handle_event plain_qpack (TransportStreamDataReceived 0 ([0, 5] @ [1]) True) 0 (example_engine False) = None"
proof (rule cut_data_hangs_engine)
  show "encode_frame_header H3_FRAME_TYPE_DATA 5 = Inr [0, 5]" by code_simp
qed (simp_all add: example_engine_def h3_new_def connection_new_def connection_has_stream_def is_unidirectional_stream_def)

end
