(* ===== verification/WtQpack.thy ===== *)
theory WtQpack
  imports H3_State
begin

text \<open>
  The header compressor (\<open>protocol/qpack.rs\<close>), a wrapper of the C library ls-qpack.  The library is a
  parameter: a record of the functions the wrapper calls, on decoder and encoder states of any
  type.  A buffer the library fills is a result of its function.  The library reports header fields
  through callbacks, so reading a header block is a sequence of calls of them that depends on what
  they return.  A pointer to the context of a header block, which the library only keeps and hands
  back, is the stream identifier the context holds.
\<close>

type_synonym i32 = "32 word"

definition DECODER_INSTRUCTION_BUFFER_SIZE :: nat where "DECODER_INSTRUCTION_BUFFER_SIZE = 1024"
definition DECODER_PENDING_BLOCK_CAPACITY :: nat where "DECODER_PENDING_BLOCK_CAPACITY = 256"
definition ENCODER_FALLBACK_RETRY :: nat where "ENCODER_FALLBACK_RETRY = 4"

subsection \<open>The library\<close>

text \<open>A header field as the library passes it: the bytes at its pointer, and where the name and the
  value are in them.\<close>

record lsxpack_header =
  xh_buf :: bytes
  xh_name_offset :: i32
  xh_name_len :: u16
  xh_val_offset :: i32
  xh_val_len :: u16

definition zeroed_header :: lsxpack_header where
  "zeroed_header = \<lparr>xh_buf = [], xh_name_offset = 0, xh_name_len = 0, xh_val_offset = 0, xh_val_len = 0\<rparr>"

datatype lsqpack_read_header_status = LQRHS_DONE | LQRHS_BLOCKED | LQRHS_NEED | LQRHS_ERROR

datatype lsqpack_enc_status = LQES_OK | LQES_NOBUF_ENC | LQES_NOBUF_HEAD

text \<open>Reading a header block: calls of the two callbacks, and at the end the status, how far the
  cursor has moved, the instructions written and their length, and the decoder.\<close>

datatype 'd reading =
    Prepare "lsxpack_header option" nat "lsxpack_header option \<Rightarrow> 'd reading"
  | Process lsxpack_header "bool \<Rightarrow> 'd reading"
  | Finished lsqpack_read_header_status int bytes nat 'd

record ('d, 'e) Lsqpack =
  ls_dec_init :: "u32 \<Rightarrow> u32 \<Rightarrow> 'd"
  ls_dec_cancel_stream :: "'d \<Rightarrow> u64 \<Rightarrow> nat \<Rightarrow> int \<times> bytes \<times> 'd"
  ls_dec_enc_in :: "'d \<Rightarrow> bytes \<Rightarrow> int \<times> u64 option list \<times> 'd"
  ls_dec_header_in :: "'d \<Rightarrow> u64 \<Rightarrow> bytes \<Rightarrow> nat \<Rightarrow> 'd reading"
  ls_dec_header_read :: "'d \<Rightarrow> u64 \<Rightarrow> bytes \<Rightarrow> nat \<Rightarrow> 'd reading"
  ls_enc_init :: "u32 \<Rightarrow> u32 \<Rightarrow> int \<times> 'e"
  ls_enc_set_max_capacity :: "'e \<Rightarrow> u32 \<Rightarrow> nat \<Rightarrow> int \<times> bytes \<times> nat \<times> 'e"
  ls_enc_start_header :: "'e \<Rightarrow> u64 \<Rightarrow> int \<times> 'e"
  ls_enc_encode :: "'e \<Rightarrow> nat \<Rightarrow> nat \<Rightarrow> lsxpack_header \<Rightarrow> lsqpack_enc_status \<times> bytes \<times> bytes \<times> 'e"
  ls_enc_header_block_prefix_size :: "'e \<Rightarrow> nat"
  ls_enc_end_header :: "'e \<Rightarrow> nat \<Rightarrow> int \<times> bytes \<times> 'e"
  ls_enc_decoder_in :: "'e \<Rightarrow> bytes \<Rightarrow> int \<times> 'e"

text \<open>\<open>array.get(..n).unwrap_or_default()\<close> of an array of \<open>len\<close> zeros the library has written to.\<close>

definition array_prefix :: "nat \<Rightarrow> bytes \<Rightarrow> nat \<Rightarrow> bytes" where
  "array_prefix len written n = (if n \<le> len then take n (take len (written @ replicate len 0)) else [])"

subsection \<open>Callbacks\<close>

record HeaderBlockContext =
  hbc_error :: "QpackError option"
  hbc_header :: lsxpack_header
  hbc_header_buffer :: bytes
  hbc_headers :: Headers
  hbc_stream_id :: u64

record PendingBlock =
  pb_context :: HeaderBlockContext
  pb_data :: bytes

text \<open>\<open>usize::try_from\<close> of an \<open>i32\<close>.\<close>

definition usize_of_i32 :: "i32 \<Rightarrow> nat option" where
  "usize_of_i32 i = (if sint i < 0 then None else Some (nat (sint i)))"

definition unwrap_or_zero :: "nat option \<Rightarrow> nat" where
  "unwrap_or_zero n = (case n of None \<Rightarrow> 0 | Some n \<Rightarrow> n)"

definition dhi_prepare_decode ::
    "HeaderBlockContext \<Rightarrow> lsxpack_header option \<Rightarrow> nat \<Rightarrow> lsxpack_header option \<times> HeaderBlockContext" where
  "dhi_prepare_decode hblock_ctx header space =
    (let copied = (case header of None \<Rightarrow> zeroed_header | Some header \<Rightarrow> header);
         hblock_ctx = hblock_ctx\<lparr>hbc_header := copied\<rparr>;
         used_bytes =
           (case header of
              None \<Rightarrow> 0
            | Some header \<Rightarrow>
                max (unwrap_or_zero (usize_of_i32 (xh_name_offset header)) + unat (xh_name_len header))
                    (unwrap_or_zero (usize_of_i32 (xh_val_offset header)) + unat (xh_val_len header)))
     in if space \<ge> 2 ^ 16 then (None, hblock_ctx\<lparr>hbc_error := Some HeaderTooLong\<rparr>)
        else
          (let buffer = take used_bytes (xh_buf copied);
               hblock_ctx = hblock_ctx\<lparr>hbc_header_buffer := buffer,
                                       hbc_header := copied\<lparr>xh_buf := buffer, xh_val_len := of_nat space\<rparr>\<rparr>
           in (Some (hbc_header hblock_ctx), hblock_ctx)))"

text \<open>The flag says whether the callback has returned zero.\<close>

definition dhi_process_header :: "HeaderBlockContext \<Rightarrow> lsxpack_header \<Rightarrow> bool \<times> HeaderBlockContext" where
  "dhi_process_header hblock_ctx header =
    (if hbc_error hblock_ctx \<noteq> None then (False, hblock_ctx)
     else
       (case (usize_of_i32 (xh_name_offset header), usize_of_i32 (xh_val_offset header)) of
          (Some name_offset, Some val_offset) \<Rightarrow>
            (let name = take (unat (xh_name_len header)) (drop name_offset (xh_buf header));
                 field_value = take (unat (xh_val_len header)) (drop val_offset (xh_buf header))
             in (True, hblock_ctx\<lparr>hbc_headers := hbc_headers hblock_ctx @ [(name, field_value)]\<rparr>))
        | _ \<Rightarrow> (False, hblock_ctx)))"

definition dhi_unblocked :: "u64 option \<Rightarrow> u64 list \<Rightarrow> u64 list" where
  "dhi_unblocked hblock_ctx queue = (case hblock_ctx of None \<Rightarrow> queue | Some stream_id \<Rightarrow> queue @ [stream_id])"

primrec run_reading ::
    "'d reading \<Rightarrow> HeaderBlockContext
      \<Rightarrow> (lsqpack_read_header_status \<times> int \<times> bytes \<times> nat \<times> 'd) \<times> HeaderBlockContext" where
  "run_reading (Prepare header space cont) hblock_ctx =
    (let (prepared, hblock_ctx) = dhi_prepare_decode hblock_ctx header space in run_reading (cont prepared) hblock_ctx)"
| "run_reading (Process header cont) hblock_ctx =
    (let (zero, hblock_ctx) = dhi_process_header hblock_ctx header in run_reading (cont zero) hblock_ctx)"
| "run_reading (Finished status cursor written len decoder) hblock_ctx = ((status, cursor, written, len, decoder), hblock_ctx)"

subsection \<open>The decoder\<close>

record 'd Decoder =
  dec_inner :: 'd
  dec_decoder_buffer :: bytes
  dec_unblocked_queue :: "u64 list"
  dec_pending_blocks :: "(u64, PendingBlock) fmap"

definition decoder_new :: "('d, 'e) Lsqpack \<Rightarrow> u32 \<Rightarrow> u32 \<Rightarrow> 'd Decoder" where
  "decoder_new lib max_table_capacity blocked_streams =
    \<lparr>dec_inner = ls_dec_init lib max_table_capacity blocked_streams, dec_decoder_buffer = [], dec_unblocked_queue = [],
     dec_pending_blocks = fmempty\<rparr>"

definition abandon_header_block :: "('d, 'e) Lsqpack \<Rightarrow> 'd Decoder \<Rightarrow> u64 \<Rightarrow> bytes \<times> 'd Decoder" where
  "abandon_header_block lib self stream_id =
    (case fmlookup (dec_pending_blocks self) stream_id of
       None \<Rightarrow> ([], self)
     | Some pending \<Rightarrow>
         (let (result, cancel_buffer, decoder) =
                ls_dec_cancel_stream lib (dec_inner self) (hbc_stream_id (pb_context pending)) 16;
              self = self\<lparr>dec_inner := decoder\<rparr>
          in if result < 0 then ([], self)
             else (array_prefix 16 cancel_buffer (nat result),
                   self\<lparr>dec_pending_blocks := fmdrop stream_id (dec_pending_blocks self)\<rparr>)))"

definition advance_pending_cursor :: "PendingBlock \<Rightarrow> int \<Rightarrow> QpackError + PendingBlock" where
  "advance_pending_cursor pending cursor =
    (if cursor < 0 \<or> cursor > int (length (pb_data pending)) then Inl DecoderError
     else Inr (pending\<lparr>pb_data := drop (nat cursor) (pb_data pending)\<rparr>))"

definition evaluate_decode_status ::
    "'d Decoder \<Rightarrow> u64 \<Rightarrow> PendingBlock \<Rightarrow> lsqpack_read_header_status \<Rightarrow> bytes \<Rightarrow> nat
      \<Rightarrow> (QpackError + bytes \<times> DecodeStatus) \<times> 'd Decoder" where
  "evaluate_decode_status self stream_id pending status written decoder_len =
    (if status \<noteq> LQRHS_DONE \<and> status \<noteq> LQRHS_BLOCKED then (Inl DecoderError, self)
     else if decoder_len > DECODER_INSTRUCTION_BUFFER_SIZE then (Inl DecoderError, self)
     else
       (let decoder_instructions = take decoder_len written;
            self = self\<lparr>dec_decoder_buffer := decoder_instructions\<rparr>
        in if status = LQRHS_DONE then
             (case hbc_error (pb_context pending) of
                Some e \<Rightarrow> (Inl e, self)
              | None \<Rightarrow> (Inr (decoder_instructions, Done (hbc_headers (pb_context pending))), self))
           else if fcard (fmdom (dec_pending_blocks self)) \<ge> DECODER_PENDING_BLOCK_CAPACITY then (Inl DecoderError, self)
           else
             (Inr (decoder_instructions, Blocked),
              self\<lparr>dec_pending_blocks := fmupd stream_id pending (dec_pending_blocks self)\<rparr>)))"

text \<open>What \<open>execute_decode\<close> and \<open>execute_read\<close> do around their call of the library.\<close>

definition execute ::
    "'d Decoder \<Rightarrow> u64 \<Rightarrow> PendingBlock \<Rightarrow> 'd reading \<Rightarrow> (QpackError + bytes \<times> DecodeStatus) \<times> 'd Decoder" where
  "execute self stream_id pending call =
    (let ((status, cursor, written, decoder_len, decoder), hblock_ctx) = run_reading call (pb_context pending);
         self = self\<lparr>dec_inner := decoder, dec_decoder_buffer := []\<rparr>
     in case advance_pending_cursor (pending\<lparr>pb_context := hblock_ctx\<rparr>) cursor of
          Inl e \<Rightarrow> (Inl e, self)
        | Inr pending \<Rightarrow> evaluate_decode_status self stream_id pending status written decoder_len)"

definition execute_decode ::
    "('d, 'e) Lsqpack \<Rightarrow> 'd Decoder \<Rightarrow> u64 \<Rightarrow> PendingBlock \<Rightarrow> (QpackError + bytes \<times> DecodeStatus) \<times> 'd Decoder" where
  "execute_decode lib self stream_id pending =
    execute self stream_id pending
      (ls_dec_header_in lib (dec_inner self) stream_id (pb_data pending) DECODER_INSTRUCTION_BUFFER_SIZE)"

definition execute_read ::
    "('d, 'e) Lsqpack \<Rightarrow> 'd Decoder \<Rightarrow> u64 \<Rightarrow> PendingBlock \<Rightarrow> (QpackError + bytes \<times> DecodeStatus) \<times> 'd Decoder" where
  "execute_read lib self stream_id pending =
    execute self stream_id pending
      (ls_dec_header_read lib (dec_inner self) (hbc_stream_id (pb_context pending)) (pb_data pending)
         DECODER_INSTRUCTION_BUFFER_SIZE)"

definition new_block :: "u64 \<Rightarrow> bytes \<Rightarrow> PendingBlock" where
  "new_block stream_id data =
    \<lparr>pb_context = \<lparr>hbc_error = None, hbc_header = zeroed_header, hbc_header_buffer = [], hbc_headers = [],
                   hbc_stream_id = stream_id\<rparr>,
     pb_data = data\<rparr>"

definition decode_header ::
    "('d, 'e) Lsqpack \<Rightarrow> 'd Decoder \<Rightarrow> u64 \<Rightarrow> bytes \<Rightarrow> (QpackError + bytes \<times> DecodeStatus) \<times> 'd Decoder" where
  "decode_header lib self stream_id data = execute_decode lib self stream_id (new_block stream_id data)"

definition feed_encoder :: "('d, 'e) Lsqpack \<Rightarrow> 'd Decoder \<Rightarrow> bytes \<Rightarrow> (QpackError + u64 list) \<times> 'd Decoder" where
  "feed_encoder lib self data =
    (let (result, unblocked, decoder) = ls_dec_enc_in lib (dec_inner self) data;
         queue = fold dhi_unblocked unblocked (dec_unblocked_queue self);
         self = self\<lparr>dec_inner := decoder, dec_unblocked_queue := queue\<rparr>
     in if result = 0 then (Inr queue, self\<lparr>dec_unblocked_queue := []\<rparr>) else (Inl DecoderError, self))"

definition resume_header ::
    "('d, 'e) Lsqpack \<Rightarrow> 'd Decoder \<Rightarrow> u64 \<Rightarrow> (QpackError + bytes \<times> Headers option) \<times> 'd Decoder" where
  "resume_header lib self stream_id =
    (case fmlookup (dec_pending_blocks self) stream_id of
       None \<Rightarrow> (Inr ([], None), self)
     | Some pending \<Rightarrow>
         (let self = self\<lparr>dec_pending_blocks := fmdrop stream_id (dec_pending_blocks self)\<rparr>
          in case execute_read lib self stream_id pending of
               (Inr (instructions, Done headers), self) \<Rightarrow> (Inr (instructions, Some headers), self)
             | (Inr (instructions, Blocked), self) \<Rightarrow> (Inr (instructions, None), self)
             | (Inl e, self) \<Rightarrow> (Inl e, self)))"

subsection \<open>The encoder\<close>

text \<open>A vector of bytes: the allocation grows at least by a factor of two.\<close>

record Vec =
  vec_data :: bytes
  vec_capacity :: nat

definition vec_new :: Vec where
  "vec_new = \<lparr>vec_data = [], vec_capacity = 0\<rparr>"

definition vec_clear :: "Vec \<Rightarrow> Vec" where
  "vec_clear v = v\<lparr>vec_data := []\<rparr>"

definition vec_reserve :: "Vec \<Rightarrow> nat \<Rightarrow> Vec" where
  "vec_reserve v additional =
    (if additional > vec_capacity v - length (vec_data v)
     then v\<lparr>vec_capacity := max 8 (max (2 * vec_capacity v) (length (vec_data v) + additional))\<rparr> else v)"

record 'e Encoder =
  enc_inner :: 'e
  enc_encoder_buffer :: Vec
  enc_header_buffer :: Vec
  enc_initialized :: bool
  enc_max_table_capacity :: u32

definition encoder_new :: "('d, 'e) Lsqpack \<Rightarrow> u32 \<Rightarrow> u32 \<Rightarrow> 'e Encoder" where
  "encoder_new lib max_table_capacity blocked_streams =
    (let (result, encoder) = ls_enc_init lib max_table_capacity blocked_streams
     in \<lparr>enc_inner = encoder, enc_encoder_buffer = vec_new, enc_header_buffer = vec_new, enc_initialized = (result = 0),
         enc_max_table_capacity = max_table_capacity\<rparr>)"

definition apply_settings ::
    "('d, 'e) Lsqpack \<Rightarrow> 'e Encoder \<Rightarrow> u64 \<Rightarrow> u64 \<Rightarrow> (QpackError + bytes) \<times> 'e Encoder" where
  "apply_settings lib self max_table_capacity blocked_streams =
    (let requested_capacity = (if unat max_table_capacity < 2 ^ 32 then ucast max_table_capacity else - 1 :: u32);
         capacity = min requested_capacity (enc_max_table_capacity self);
         (result, buffer, written, encoder) = ls_enc_set_max_capacity lib (enc_inner self) capacity 64;
         self = self\<lparr>enc_inner := encoder\<rparr>
     in if result = 0 then (Inr (array_prefix 64 buffer written), self) else (Inl EncoderError, self))"

record Header =
  hdr_buffer :: bytes
  hdr_name_len :: u16
  hdr_value_len :: u16

definition header_new :: "bytes \<times> bytes \<Rightarrow> QpackError + Header" where
  "header_new = (\<lambda>(name, field_value).
    if length name \<ge> 2 ^ 16 then Inl HeaderTooLong
    else if length field_value \<ge> 2 ^ 16 then Inl HeaderTooLong
    else Inr \<lparr>hdr_buffer = name @ field_value, hdr_name_len = of_nat (length name), hdr_value_len = of_nat (length field_value)\<rparr>)"

definition create_lsxpack_header :: "Header \<Rightarrow> lsxpack_header" where
  "create_lsxpack_header header =
    \<lparr>xh_buf = hdr_buffer header, xh_name_offset = 0, xh_name_len = hdr_name_len header,
     xh_val_offset = ucast (hdr_name_len header), xh_val_len = hdr_value_len header\<rparr>"

fun headers_new :: "Headers \<Rightarrow> QpackError + Header list" where
  "headers_new [] = Inr []"
| "headers_new (field # headers) =
    (case header_new field of
       Inl e \<Rightarrow> Inl e
     | Inr header \<Rightarrow> (case headers_new headers of Inl e \<Rightarrow> Inl e | Inr rest \<Rightarrow> Inr (header # rest)))"

text \<open>The loop of \<open>encode_single_header\<close>, with the number of retries so far.\<close>

function encode_attempt ::
    "('d, 'e) Lsqpack \<Rightarrow> 'e Encoder \<Rightarrow> lsxpack_header \<Rightarrow> nat \<Rightarrow> (QpackError + unit) \<times> 'e Encoder" where
  "encode_attempt lib self header retries =
    (let encoder_buffer = enc_encoder_buffer self; header_buffer = enc_header_buffer self;
         (status, encoder_written, header_written, encoder) = ls_enc_encode lib (enc_inner self)
           (vec_capacity encoder_buffer - length (vec_data encoder_buffer))
           (vec_capacity header_buffer - length (vec_data header_buffer)) header;
         self = self\<lparr>enc_inner := encoder\<rparr>
     in if status = LQES_OK then
          (Inr (), self\<lparr>enc_encoder_buffer := encoder_buffer\<lparr>vec_data := vec_data encoder_buffer @ encoder_written\<rparr>,
                        enc_header_buffer := header_buffer\<lparr>vec_data := vec_data header_buffer @ header_written\<rparr>\<rparr>)
        else if retries + 1 > ENCODER_FALLBACK_RETRY then (Inl EncoderError, self)
        else if status = LQES_NOBUF_ENC then
          encode_attempt lib (self\<lparr>enc_encoder_buffer := vec_reserve encoder_buffer 1024\<rparr>) header (retries + 1)
        else encode_attempt lib (self\<lparr>enc_header_buffer := vec_reserve header_buffer 1024\<rparr>) header (retries + 1))"
  by pat_completeness auto

termination
  by (relation "measure (\<lambda>(_, _, _, retries). ENCODER_FALLBACK_RETRY - retries)") auto

declare encode_attempt.simps [simp del]

definition encode_single_header ::
    "('d, 'e) Lsqpack \<Rightarrow> 'e Encoder \<Rightarrow> lsxpack_header \<Rightarrow> (QpackError + unit) \<times> 'e Encoder" where
  "encode_single_header lib self header =
    (let required_space = unat (xh_name_len header) + unat (xh_val_len header) + 256;
         grown = (\<lambda>v. if vec_capacity v - length (vec_data v) < required_space then vec_reserve v required_space else v)
     in encode_attempt lib (self\<lparr>enc_encoder_buffer := grown (enc_encoder_buffer self),
                                 enc_header_buffer := grown (enc_header_buffer self)\<rparr>) header 0)"

fun encode_each ::
    "('d, 'e) Lsqpack \<Rightarrow> 'e Encoder \<Rightarrow> lsxpack_header list \<Rightarrow> (QpackError + unit) \<times> 'e Encoder" where
  "encode_each lib self [] = (Inr (), self)"
| "encode_each lib self (header # headers) =
    (case encode_single_header lib self header of
       (Inl e, self) \<Rightarrow> (Inl e, self)
     | (Inr _, self) \<Rightarrow> encode_each lib self headers)"

definition end_block :: "('d, 'e) Lsqpack \<Rightarrow> 'e Encoder \<Rightarrow> (QpackError + bytes \<times> bytes) \<times> 'e Encoder" where
  "end_block lib self =
    (let max_prefix = ls_enc_header_block_prefix_size lib (enc_inner self);
         (result, prefix, encoder) = ls_enc_end_header lib (enc_inner self) max_prefix;
         self = self\<lparr>enc_inner := encoder\<rparr>
     in if result < 0 then (Inl EncoderError, self)
        else if nat result = 0 \<and> max_prefix > 0 then (Inl EncoderError, self)
        else (Inr (take (nat result) prefix @ vec_data (enc_header_buffer self), vec_data (enc_encoder_buffer self)),
              self\<lparr>enc_encoder_buffer := vec_new\<rparr>))"

definition encode ::
    "('d, 'e) Lsqpack \<Rightarrow> 'e Encoder \<Rightarrow> u64 \<Rightarrow> Headers \<Rightarrow> (QpackError + bytes \<times> bytes) \<times> 'e Encoder" where
  "encode lib self stream_id headers =
    (case headers_new headers of
       Inl e \<Rightarrow> (Inl e, self)
     | Inr qpack_headers \<Rightarrow>
         (let (started, encoder) = ls_enc_start_header lib (enc_inner self) stream_id;
              self = self\<lparr>enc_inner := encoder\<rparr>
          in if started \<noteq> 0 then (Inl EncoderError, self)
             else
               (let self = self\<lparr>enc_encoder_buffer := vec_reserve (vec_clear (enc_encoder_buffer self)) 1024,
                                enc_header_buffer := vec_reserve (vec_clear (enc_header_buffer self)) 4096\<rparr>
                in case encode_each lib self (map create_lsxpack_header qpack_headers) of
                     (Inl e, self) \<Rightarrow> (Inl e, self)
                   | (Inr _, self) \<Rightarrow> end_block lib self)))"

definition feed_decoder :: "('d, 'e) Lsqpack \<Rightarrow> 'e Encoder \<Rightarrow> bytes \<Rightarrow> (QpackError + unit) \<times> 'e Encoder" where
  "feed_decoder lib self data =
    (let (result, encoder) = ls_enc_decoder_in lib (enc_inner self) data;
         self = self\<lparr>enc_inner := encoder\<rparr>
     in (if result = 0 then Inr () else Inl EncoderError, self))"

subsection \<open>The operations the HTTP/3 layer uses\<close>

definition lsqpack :: "('d, 'e) Lsqpack \<Rightarrow> ('d Decoder, 'e Encoder) Qpack" where
  "lsqpack lib =
    \<lparr>qp_decoder_new = decoder_new lib,
     qp_abandon_header_block = abandon_header_block lib,
     qp_decode_header = decode_header lib,
     qp_feed_encoder = feed_encoder lib,
     qp_resume_header = resume_header lib,
     qp_encoder_new = encoder_new lib,
     qp_apply_settings = apply_settings lib,
     qp_encode = encode lib,
     qp_feed_decoder = feed_decoder lib\<rparr>"

end
