(* ===== verification/Qpack_Theorems.thy ===== *)
theory Qpack_Theorems
  imports WtQpack Plain_Qpack
begin

text \<open>
  Properties of the wrapper of ls-qpack: header fields get through it unchanged in both directions,
  it gives the library enough room, and it never keeps more than its limit of unfinished blocks.
\<close>

subsection \<open>Decoding\<close>

text \<open>How the library reads a block that holds the given fields: for each field it asks for a buffer,
  writes the name and the value to it and hands it over.\<close>

definition read_field :: "bytes \<Rightarrow> bytes \<Rightarrow> 'd reading \<Rightarrow> 'd reading \<Rightarrow> 'd reading" where
  "read_field n v failed cont =
    Prepare None (length n + length v) (\<lambda>prepared.
      case prepared of
        None \<Rightarrow> failed
      | Some h \<Rightarrow>
          Process (h\<lparr>xh_buf := n @ v, xh_name_offset := 0, xh_name_len := of_nat (length n),
                     xh_val_offset := of_nat (length n), xh_val_len := of_nat (length v)\<rparr>) (\<lambda>zero.
            if zero then cont else failed))"

fun read_fields :: "Headers \<Rightarrow> 'd reading \<Rightarrow> 'd reading \<Rightarrow> 'd reading" where
  "read_fields [] failed cont = cont"
| "read_fields ((n, v) # fs) failed cont = read_field n v failed (read_fields fs failed cont)"

definition field_fits :: "bytes \<times> bytes \<Rightarrow> bool" where
  "field_fits = (\<lambda>(n, v). length n + length v < 2 ^ 16)"

lemma usize_of_nat: "n < 2 ^ 16 \<Longrightarrow> usize_of_i32 (of_nat n) = Some n"
proof -
  assume n: "n < 2 ^ 16"
  have "sint (of_nat n :: i32) = int n"
    using n by (simp add: sint_uint uint_nat unat_of_nat signed_take_bit_int_eq_self)
  then show ?thesis by (simp add: usize_of_i32_def)
qed

lemma run_read_field:
  assumes "field_fits (n, v)" "hbc_error c = None"
  shows "\<exists>c'. run_reading (read_field n v failed cont) c = run_reading cont c' \<and> hbc_error c' = None
    \<and> hbc_headers c' = hbc_headers c @ [(n, v)] \<and> hbc_stream_id c' = hbc_stream_id c"
proof -
  have len: "length n < 2 ^ 16" "length v < 2 ^ 16" "\<not> length n + length v \<ge> 2 ^ 16" using assms(1) by (simp_all add: field_fits_def)
  have "unat (of_nat (length n) :: u16) = length n" "unat (of_nat (length v) :: u16) = length v"
    using len(1,2) by (simp_all add: unat_of_nat)
  moreover have "usize_of_i32 0 = Some 0" by (simp add: usize_of_i32_def)
  ultimately show ?thesis
    using len assms(2) usize_of_nat [OF len(1)]
    by (simp add: read_field_def dhi_prepare_decode_def dhi_process_header_def Let_def) (rule exI, rule conjI, rule refl, simp)
qed

lemma run_read_fields:
  assumes "list_all field_fits fs" "hbc_error c = None"
  shows "\<exists>c'. run_reading (read_fields fs failed cont) c = run_reading cont c' \<and> hbc_error c' = None
    \<and> hbc_headers c' = hbc_headers c @ fs \<and> hbc_stream_id c' = hbc_stream_id c"
  using assms
proof (induction fs arbitrary: c)
  case (Cons f fs)
  obtain n v where f: "f = (n, v)" by fastforce
  obtain c1 where c1: "run_reading (read_field n v failed (read_fields fs failed cont)) c = run_reading (read_fields fs failed cont) c1"
      "hbc_error c1 = None" "hbc_headers c1 = hbc_headers c @ [(n, v)]" "hbc_stream_id c1 = hbc_stream_id c"
    using run_read_field [of n v c failed "read_fields fs failed cont"] Cons.prems f by auto
  with Cons.IH [of c1] Cons.prems f show ?case by auto
qed auto

text \<open>The field a header of the library describes.\<close>

definition field_of :: "lsxpack_header \<Rightarrow> bytes \<times> bytes" where
  "field_of x = (take (unat (xh_name_len x)) (drop (unwrap_or_zero (usize_of_i32 (xh_name_offset x))) (xh_buf x)),
    take (unat (xh_val_len x)) (drop (unwrap_or_zero (usize_of_i32 (xh_val_offset x))) (xh_buf x)))"

text \<open>A library for the examples: it writes fields as \<open>plain_encode\<close> does, after a prefix of two bytes.\<close>

definition example_lib :: "(unit, unit) Lsqpack" where
  "example_lib =
    \<lparr>ls_dec_init = (\<lambda>_ _. ()),
     ls_dec_cancel_stream = (\<lambda>_ _ _. (0, [], ())),
     ls_dec_enc_in = (\<lambda>_ _. (0, [], ())),
     ls_dec_header_in = (\<lambda>_ _ block _. read_fields (plain_decode (drop 2 block)) (Finished LQRHS_ERROR 0 [] 0 ())
       (Finished LQRHS_DONE (int (length block)) [0x80] 1 ())),
     ls_dec_header_read = (\<lambda>_ _ block _. read_fields (plain_decode (drop 2 block)) (Finished LQRHS_ERROR 0 [] 0 ())
       (Finished LQRHS_DONE (int (length block)) [0x80] 1 ())),
     ls_enc_init = (\<lambda>_ _. (0, ())),
     ls_enc_set_max_capacity = (\<lambda>_ _ _. (0, [], 0, ())),
     ls_enc_start_header = (\<lambda>_ _. (0, ())),
     ls_enc_encode = (\<lambda>_ _ _ x. (LQES_OK, [], plain_string (fst (field_of x)) @ plain_string (snd (field_of x)), ())),
     ls_enc_header_block_prefix_size = (\<lambda>_. 2),
     ls_enc_end_header = (\<lambda>_ _. (2, [0, 0], ())),
     ls_enc_decoder_in = (\<lambda>_ _. (0, ()))\<rparr>"

abbreviation example_block :: bytes where
  "example_block \<equiv> [0, 0, 1, 97, 2, 98, 99]"

lemma example_decode: "plain_decode [1, 97, 2, 98, 99] = [([97], [98, 99])]"
  by code_simp



subsection \<open>Unfinished blocks\<close>

text \<open>
  A block that had to wait is finished later without loss: when the library blocks on a block, the
  wrapper keeps what is unread together with the fields read so far, and resuming returns these fields
  followed by those read from the rest, and forgets the block.
\<close>

theorem qpack_block_resumes:
  assumes "ls_dec_header_in lib (dec_inner self) sid block DECODER_INSTRUCTION_BUFFER_SIZE
      = read_fields fs failed (Finished LQRHS_BLOCKED (int k) w1 len1 d1)"
    and "k \<le> length block" "list_all field_fits fs" "len1 \<le> DECODER_INSTRUCTION_BUFFER_SIZE"
    and "fcard (fmdom (dec_pending_blocks self)) < DECODER_PENDING_BLOCK_CAPACITY"
    and "ls_dec_header_read lib d1 sid (drop k block) DECODER_INSTRUCTION_BUFFER_SIZE
      = read_fields gs failed (Finished LQRHS_DONE (int (length block - k)) w2 len2 d2)"
    and "list_all field_fits gs" "len2 \<le> DECODER_INSTRUCTION_BUFFER_SIZE"
  shows "\<exists>self1 self2. decode_header lib self sid block = (Inr (take len1 w1, Blocked), self1)
    \<and> resume_header lib self1 sid = (Inr (take len2 w2, Some (fs @ gs)), self2) \<and> sid |\<notin>| fmdom (dec_pending_blocks self2)"
proof -
  obtain c where c: "run_reading (read_fields fs failed (Finished LQRHS_BLOCKED (int k) w1 len1 d1)) (pb_context (new_block sid block))
      = ((LQRHS_BLOCKED, int k, w1, len1, d1), c)" "hbc_error c = None" "hbc_headers c = fs" "hbc_stream_id c = sid"
    using run_read_fields [OF assms(3), of "pb_context (new_block sid block)" failed "Finished LQRHS_BLOCKED (int k) w1 len1 d1"]
    by (auto simp: new_block_def)
  let ?self1 = "self\<lparr>dec_inner := d1, dec_decoder_buffer := take len1 w1,
    dec_pending_blocks := fmupd sid \<lparr>pb_context = c, pb_data = drop k block\<rparr> (dec_pending_blocks self)\<rparr>"
  have first: "decode_header lib self sid block = (Inr (take len1 w1, Blocked), ?self1)"
    using assms(1,2,4,5) c
    by (simp add: decode_header_def execute_decode_def execute_def advance_pending_cursor_def evaluate_decode_status_def new_block_def
        Let_def)
  obtain c2 where "run_reading (read_fields gs failed (Finished LQRHS_DONE (int (length block - k)) w2 len2 d2)) c
      = ((LQRHS_DONE, int (length block - k), w2, len2, d2), c2)" "hbc_error c2 = None" "hbc_headers c2 = fs @ gs"
    using run_read_fields [OF assms(7) c(2), of failed "Finished LQRHS_DONE (int (length block - k)) w2 len2 d2"] c(3) by auto
  then have "\<exists>self2. resume_header lib ?self1 sid = (Inr (take len2 w2, Some (fs @ gs)), self2) \<and> sid |\<notin>| fmdom (dec_pending_blocks self2)"
    using assms(2,6,8) c(4)
    by (simp add: resume_header_def execute_read_def execute_def advance_pending_cursor_def evaluate_decode_status_def Let_def)
  with first show ?thesis by blast
qed

definition blocking_lib :: "(unit, unit) Lsqpack" where
  "blocking_lib = example_lib\<lparr>ls_dec_header_in := (\<lambda>_ _ _ _. Finished LQRHS_BLOCKED 0 [] 0 ())\<rparr>"

theorem qpack_block_resumes_witness:
  "\<exists>self1 self2. decode_header blocking_lib (decoder_new blocking_lib 0 0) 4 example_block = (Inr ([], Blocked), self1)
    \<and> resume_header blocking_lib self1 4 = (Inr ([0x80], Some [([97], [98, 99])]), self2) \<and> 4 |\<notin>| fmdom (dec_pending_blocks self2)"
  using qpack_block_resumes [of blocking_lib "decoder_new blocking_lib 0 0" 4 example_block "[]" "Finished LQRHS_ERROR 0 [] 0 ()" 0 "[]" 0 "()"
      "[([97], [98, 99])]" "[0x80]" 1 "()"]
  by (simp add: blocking_lib_def example_lib_def example_decode field_fits_def DECODER_INSTRUCTION_BUFFER_SIZE_def
      DECODER_PENDING_BLOCK_CAPACITY_def decoder_new_def fcard_fempty)

datatype decoder_call = Abandon u64 | Decode u64 bytes | Feed bytes | Resume u64

definition decoder_step :: "('d, 'e) Lsqpack \<Rightarrow> decoder_call \<Rightarrow> 'd Decoder \<Rightarrow> 'd Decoder" where
  "decoder_step lib call self =
    (case call of
       Abandon sid \<Rightarrow> snd (abandon_header_block lib self sid)
     | Decode sid data \<Rightarrow> snd (decode_header lib self sid data)
     | Feed data \<Rightarrow> snd (feed_encoder lib self data)
     | Resume sid \<Rightarrow> snd (resume_header lib self sid))"

definition decoder_ok :: "'d Decoder \<Rightarrow> bool" where
  "decoder_ok self \<longleftrightarrow> fcard (fmdom (dec_pending_blocks self)) \<le> DECODER_PENDING_BLOCK_CAPACITY
    \<and> (\<forall>sid p. fmlookup (dec_pending_blocks self) sid = Some p \<longrightarrow> hbc_stream_id (pb_context p) = sid)"

lemma run_reading_stream: "hbc_stream_id (snd (run_reading r c)) = hbc_stream_id c"
  by (induction r arbitrary: c)
     (auto simp: dhi_prepare_decode_def dhi_process_header_def Let_def split: option.split prod.split)

lemma drop_ok:
  assumes "decoder_ok self"
  shows "decoder_ok (self\<lparr>dec_pending_blocks := fmdrop sid (dec_pending_blocks self)\<rparr>)"
proof -
  have "fcard (fmdom (dec_pending_blocks self) |-| {|sid|}) \<le> fcard (fmdom (dec_pending_blocks self))" by (rule fcard_mono) auto
  with assms show ?thesis by (auto simp: decoder_ok_def split: if_splits)
qed

lemma execute_ok:
  assumes "decoder_ok self" "hbc_stream_id (pb_context p) = sid"
  shows "decoder_ok (snd (execute self sid p r))"
proof -
  obtain t c where t: "run_reading r (pb_context p) = (t, c)" by fastforce
  obtain status cursor written len d where "t = (status, cursor, written, len, d)" by (cases t)
  with t have run: "run_reading r (pb_context p) = ((status, cursor, written, len, d), c)" by simp
  have c: "hbc_stream_id c = sid" using run_reading_stream [of r "pb_context p"] run assms(2) by simp
  have grows: "\<not> DECODER_PENDING_BLOCK_CAPACITY \<le> fcard X \<Longrightarrow> fcard (finsert sid X) \<le> DECODER_PENDING_BLOCK_CAPACITY" for X
    by (simp add: fcard_finsert_if)
  show ?thesis
    using assms(1) c
    by (auto simp: execute_def run advance_pending_cursor_def evaluate_decode_status_def decoder_ok_def grows Let_def
        split: option.split)
qed

lemma resume_ok:
  assumes "decoder_ok self"
  shows "decoder_ok (snd (resume_header lib self sid))"
proof (cases "fmlookup (dec_pending_blocks self) sid")
  case (Some p)
  let ?self = "self\<lparr>dec_pending_blocks := fmdrop sid (dec_pending_blocks self)\<rparr>"
  obtain out self' where run: "execute_read lib ?self sid p = (out, self')" by fastforce
  have "hbc_stream_id (pb_context p) = sid" using assms Some by (simp add: decoder_ok_def)
  with execute_ok [OF drop_ok [OF assms, of sid]] have "decoder_ok self'"
    using run by (simp add: execute_read_def) (metis snd_conv)
  with run Some show ?thesis
    by (cases out) (simp_all add: resume_header_def case_prod_beta split: DecodeStatus.split)
qed (use assms in \<open>simp add: resume_header_def\<close>)

text \<open>
  C17. The decoder keeps its books: whatever calls are made and whatever the library does, at most 256
  unfinished blocks are kept, each under the stream it belongs to.
\<close>

theorem qpack_decoder_bounded:
  "decoder_ok (fold (decoder_step lib) calls (decoder_new lib max_table_capacity blocked_streams))"
proof -
  have step: "decoder_ok (decoder_step lib call self)" if "decoder_ok self" for call and self :: "'a Decoder"
  proof (cases call)
    case (Resume sid)
    then show ?thesis using resume_ok [OF that] by (simp add: decoder_step_def)
  next
    case (Decode sid data)
    then show ?thesis
      using execute_ok [OF that, of "new_block sid data" sid]
      by (simp add: decoder_step_def decode_header_def execute_decode_def new_block_def)
  next
    case (Abandon sid)
    then show ?thesis
      using that drop_ok [OF that, of sid]
      by (simp add: decoder_step_def abandon_header_block_def decoder_ok_def Let_def case_prod_beta split: option.split)
  next
    case (Feed data)
    then show ?thesis using that by (simp add: decoder_step_def feed_encoder_def decoder_ok_def Let_def case_prod_beta)
  qed
  have "decoder_ok (decoder_new lib max_table_capacity blocked_streams)" by (simp add: decoder_new_def decoder_ok_def fcard_fempty)
  then show ?thesis by (induction calls rule: rev_induct) (simp_all add: step)
qed

subsection \<open>Encoding\<close>

text \<open>The library encodes fields: given room for the name, the value and 256 bytes more in both buffers,
  it writes instructions and a part of the block.\<close>

inductive lib_encodes :: "('d, 'e) Lsqpack \<Rightarrow> 'e \<Rightarrow> Headers \<Rightarrow> bytes \<Rightarrow> bytes \<Rightarrow> 'e \<Rightarrow> bool" for lib where
  none: "lib_encodes lib e [] [] [] e"
| field: "(\<And>x a b. field_of x = (n, v) \<Longrightarrow> length n + length v + 256 \<le> a \<Longrightarrow> length n + length v + 256 \<le> b
      \<Longrightarrow> ls_enc_encode lib e a b x = (LQES_OK, es, hs, e1))
    \<Longrightarrow> lib_encodes lib e1 fs es' hs' e2 \<Longrightarrow> lib_encodes lib e ((n, v) # fs) (es @ es') (hs @ hs') e2"

inductive_cases lib_encodes_ConsE: "lib_encodes lib e (f # fs) es hs e'"
inductive_simps lib_encodes_Nil: "lib_encodes lib e [] es hs e'"

definition short_field :: "bytes \<times> bytes \<Rightarrow> bool" where
  "short_field = (\<lambda>(n, v). length n < 2 ^ 16 \<and> length v < 2 ^ 16)"

lemma header_new_short:
  assumes "short_field (n, v)"
  obtains h where "header_new (n, v) = Inr h" "field_of (create_lsxpack_header h) = (n, v)"
    "unat (xh_name_len (create_lsxpack_header h)) = length n" "unat (xh_val_len (create_lsxpack_header h)) = length v"
proof -
  have len: "unat (of_nat (length n) :: u16) = length n" "unat (of_nat (length v) :: u16) = length v"
    using assms by (simp_all add: short_field_def unat_of_nat)
  have "(ucast (of_nat (length n) :: u16) :: i32) = of_nat (length n)"
    using assms by (simp add: word_unat_eq_iff unsigned_ucast_eq unat_of_nat short_field_def take_bit_eq_mod)
  then have "usize_of_i32 (ucast (of_nat (length n) :: u16)) = Some (length n)"
    using assms usize_of_nat [of "length n"] len(1) by (simp add: short_field_def)
  moreover have "usize_of_i32 0 = Some 0" by (simp add: usize_of_i32_def)
  ultimately show thesis
    using that assms len by (simp add: header_new_def short_field_def create_lsxpack_header_def field_of_def unwrap_or_zero_def)
qed

lemma reserve_room: "n \<le> vec_capacity (vec_reserve v n) - length (vec_data v)" "vec_data (vec_reserve v n) = vec_data v"
  by (auto simp: vec_reserve_def)

lemma encode_single:
  assumes "\<And>x a b. field_of x = (n, v) \<Longrightarrow> length n + length v + 256 \<le> a \<Longrightarrow> length n + length v + 256 \<le> b
      \<Longrightarrow> ls_enc_encode lib (enc_inner self) a b x = (LQES_OK, es, hs, e1)"
    and "field_of x = (n, v)" "unat (xh_name_len x) = length n" "unat (xh_val_len x) = length v"
  obtains self' where "encode_single_header lib self x = (Inr (), self')" "enc_inner self' = e1"
    "vec_data (enc_encoder_buffer self') = vec_data (enc_encoder_buffer self) @ es"
    "vec_data (enc_header_buffer self') = vec_data (enc_header_buffer self) @ hs"
proof -
  let ?r = "length n + length v + 256"
  let ?grown = "\<lambda>w. if vec_capacity w - length (vec_data w) < ?r then vec_reserve w ?r else w"
  have grown: "vec_data (?grown w) = vec_data w" "?r \<le> vec_capacity (?grown w) - length (vec_data w)" for w
    using reserve_room(1) [of ?r w] reserve_room(2) [of w ?r] by auto
  let ?self = "self\<lparr>enc_encoder_buffer := ?grown (enc_encoder_buffer self), enc_header_buffer := ?grown (enc_header_buffer self)\<rparr>"
  have "encode_single_header lib self x = encode_attempt lib ?self x 0"
    using assms(3,4) by (simp add: encode_single_header_def Let_def)
  moreover have "\<exists>self'. encode_attempt lib ?self x 0 = (Inr (), self') \<and> enc_inner self' = e1
    \<and> vec_data (enc_encoder_buffer self') = vec_data (enc_encoder_buffer self) @ es
    \<and> vec_data (enc_header_buffer self') = vec_data (enc_header_buffer self) @ hs"
    using assms(1) [OF assms(2) grown(2) [of "enc_encoder_buffer self"] grown(2) [of "enc_header_buffer self"]] grown(1)
    by (subst encode_attempt.simps) simp
  ultimately show thesis using that by auto
qed

lemma encode_fields:
  assumes "lib_encodes lib (enc_inner self) fs es hs e'" "list_all short_field fs"
  shows "\<exists>qs self'. headers_new fs = Inr qs \<and> encode_each lib self (map create_lsxpack_header qs) = (Inr (), self') \<and> enc_inner self' = e'
    \<and> vec_data (enc_encoder_buffer self') = vec_data (enc_encoder_buffer self) @ es
    \<and> vec_data (enc_header_buffer self') = vec_data (enc_header_buffer self) @ hs"
  using assms
proof (induction fs arbitrary: self es hs)
  case Nil
  then show ?case by (simp add: lib_encodes_Nil)
next
  case (Cons f fs)
  obtain n v where f: "f = (n, v)" by fastforce
  obtain es1 hs1 e1 es2 hs2 where step: "\<And>x a b. field_of x = (n, v) \<Longrightarrow> length n + length v + 256 \<le> a \<Longrightarrow> length n + length v + 256 \<le> b
      \<Longrightarrow> ls_enc_encode lib (enc_inner self) a b x = (LQES_OK, es1, hs1, e1)"
      "lib_encodes lib e1 fs es2 hs2 e'" "es = es1 @ es2" "hs = hs1 @ hs2"
    using Cons.prems(1) unfolding f by (rule lib_encodes_ConsE) blast
  obtain h where h: "header_new (n, v) = Inr h" "field_of (create_lsxpack_header h) = (n, v)"
    "unat (xh_name_len (create_lsxpack_header h)) = length n" "unat (xh_val_len (create_lsxpack_header h)) = length v"
    using header_new_short [of n v] Cons.prems(2) f by auto
  obtain s1 where s1: "encode_single_header lib self (create_lsxpack_header h) = (Inr (), s1)" "enc_inner s1 = e1"
    "vec_data (enc_encoder_buffer s1) = vec_data (enc_encoder_buffer self) @ es1"
    "vec_data (enc_header_buffer s1) = vec_data (enc_header_buffer self) @ hs1"
    by (rule encode_single [OF step(1) h(2-4)])
  have "lib_encodes lib (enc_inner s1) fs es2 hs2 e'" using step(2) s1(2) by simp
  from Cons.IH [OF this] Cons.prems(2) h(1) s1 step(3,4) f show ?case by auto
qed


lemma example_encodes: "lib_encodes example_lib () fs [] (plain_encode fs) ()"
proof (induction fs)
  case Nil
  show ?case by (simp add: plain_encode_def lib_encodes.none)
next
  case (Cons f fs)
  obtain n v where f: "f = (n, v)" by fastforce
  have "lib_encodes example_lib () ((n, v) # fs) ([] @ []) ((plain_string n @ plain_string v) @ plain_encode fs) ()"
    by (rule lib_encodes.field [OF _ Cons]) (simp add: example_lib_def)
  then show ?case by (simp add: f plain_encode_def)
qed


lemma header_new_cases: "if short_field f then \<exists>h. header_new f = Inr h else header_new f = Inl HeaderTooLong"
  by (cases f) (simp add: header_new_def short_field_def not_less linorder_not_le)

lemma headers_new_cases: "if list_all short_field fs then \<exists>qs. headers_new fs = Inr qs else headers_new fs = Inl HeaderTooLong"
proof (induction fs)
  case (Cons f fs)
  then show ?case using header_new_cases [of f] by (auto split: if_splits)
qed simp

lemma attempt_not_long: "fst (encode_attempt lib s x n) \<noteq> Inl HeaderTooLong"
proof (induction lib s x n rule: encode_attempt.induct)
  case (1 lib s x n)
  obtain status ew hw e where "ls_enc_encode lib (enc_inner s) (vec_capacity (enc_encoder_buffer s) - length (vec_data (enc_encoder_buffer s)))
      (vec_capacity (enc_header_buffer s) - length (vec_data (enc_header_buffer s))) x = (status, ew, hw, e)" by (metis surj_pair)
  with 1 show ?case by (subst encode_attempt.simps) (simp add: Let_def)
qed

lemma each_not_long: "fst (encode_each lib s xs) \<noteq> Inl HeaderTooLong"
proof (induction xs arbitrary: s)
  case (Cons x xs)
  obtain out s' where run: "encode_single_header lib s x = (out, s')" by fastforce
  have "fst (encode_single_header lib s x) \<noteq> Inl HeaderTooLong" by (simp add: encode_single_header_def Let_def attempt_not_long)
  with run Cons show ?case by (cases out) simp_all
qed simp

lemma end_not_long: "fst (end_block lib s) \<noteq> Inl HeaderTooLong"
  by (simp add: end_block_def Let_def case_prod_beta)

lemma encode_not_long:
  assumes "headers_new fs = Inr qs"
  shows "fst (encode lib self sid fs) \<noteq> Inl HeaderTooLong"
proof -
  let ?self = "self\<lparr>enc_inner := snd (ls_enc_start_header lib (enc_inner self) sid),
    enc_encoder_buffer := vec_reserve (vec_clear (enc_encoder_buffer self)) 1024,
    enc_header_buffer := vec_reserve (vec_clear (enc_header_buffer self)) 4096\<rparr>"
  obtain out s where "encode_each lib ?self (map create_lsxpack_header qs) = (out, s)" by fastforce
  with assms each_not_long [of lib ?self "map create_lsxpack_header qs"] end_not_long [of lib s] show ?thesis
    by (cases out) (simp_all add: encode_def Let_def case_prod_beta)
qed

text \<open>
  A field whose name or value does not fit 16 bits is refused before anything is encoded, and only
  then does the encoder report that a header is too long.
\<close>

theorem qpack_refuses_long:
  "fst (encode lib self sid fs) = Inl HeaderTooLong \<longleftrightarrow> \<not> list_all short_field fs"
  using headers_new_cases [of fs] encode_not_long [of fs _ lib self sid] by (auto simp: encode_def split: if_splits)

subsection \<open>The assumption of the HTTP/3 layer\<close>

text \<open>A library that blocks on no header block - ls-qpack with a decoder that may not wait for any
  stream - makes a compressor that never blocks.\<close>

primrec ends_unblocked :: "'d reading \<Rightarrow> bool" where
  "ends_unblocked (Prepare header space cont) = (\<forall>prepared. ends_unblocked (cont prepared))"
| "ends_unblocked (Process header cont) = (\<forall>zero. ends_unblocked (cont zero))"
| "ends_unblocked (Finished status cursor written len decoder) = (status \<noteq> LQRHS_BLOCKED)"

lemma run_unblocked: "ends_unblocked r \<Longrightarrow> fst (fst (run_reading r c)) \<noteq> LQRHS_BLOCKED"
  by (induction r arbitrary: c) (auto simp: Let_def case_prod_beta)

lemma lsqpack_never_blocks:
  assumes "\<And>d sid block n. ends_unblocked (ls_dec_header_in lib d sid block n)"
  shows "never_blocks (lsqpack lib)"
proof -
  have "fst (decode_header lib d sid b) \<noteq> Inr (ins, Blocked)" for d sid b ins
  proof -
    let ?r = "ls_dec_header_in lib (dec_inner d) sid b DECODER_INSTRUCTION_BUFFER_SIZE"
    obtain t c where t: "run_reading ?r (pb_context (new_block sid b)) = (t, c)" by fastforce
    obtain status cursor written len d' where "t = (status, cursor, written, len, d')" by (cases t)
    with t run_unblocked [OF assms, of "dec_inner d" sid b DECODER_INSTRUCTION_BUFFER_SIZE "pb_context (new_block sid b)"]
    show ?thesis
      by (auto simp: decode_header_def execute_decode_def execute_def advance_pending_cursor_def evaluate_decode_status_def
          new_block_def Let_def split: option.split)
  qed
  then show ?thesis by (simp add: never_blocks_def lsqpack_def) (metis fst_conv)
qed

lemma example_lib_never_blocks: "never_blocks (lsqpack example_lib)"
proof (rule lsqpack_never_blocks)
  fix d sid block n
  have "ends_unblocked cont \<Longrightarrow> ends_unblocked (read_fields fs (Finished LQRHS_ERROR 0 [] 0 ()) cont)" for fs and cont :: "unit reading"
    by (induction fs) (auto simp: read_field_def split: option.split)
  then show "ends_unblocked (ls_dec_header_in example_lib d sid block n)" by (simp add: example_lib_def)
qed

end
