(* ===== verification/Spec2Isabelle.thy ===== *)
theory Spec2Isabelle
  imports Varint Codes Header_Fields Session_Wire Connection_Goaway Engine_Theorems Qpack_Theorems
begin

text \<open>
  A verification development of the WebTransport protocol stack under \<open>src/crates/src\<close>.

  Parts.  The stack is written as pure state machines: \<open>protocol/stream.rs\<close> (one
  WebTransport stream), \<open>protocol/session.rs\<close> (one session and its streams),
  \<open>protocol/connection.rs\<close> (the sessions of a connection), \<open>protocol/h3.rs\<close> and
  \<open>protocol/qpack.rs\<close> (HTTP/3 framing and header compression), \<open>protocol/engine.rs\<close>
  (dispatch), over the helpers of \<open>protocol/utils.rs\<close>.
\<close>

end
